(* ===== verification/Vland_Prelude.thy ===== *)
theory Vland_Prelude
  imports Main "HOL-Library.Word" "HOL-Library.Monad_Syntax"
begin

text \<open>
  Shared ground of the development: the C integer conversions the sources perform, loops
  whose body may fail (\<open>foldM\<close>) with their invariant rules, and small facts on lists and
  association lists that several components use. \<open>None\<close> is the model's outcome for a run
  that reads memory the program no longer owns; every other outcome is a value.
\<close>

named_theorems db_simps \<open>column reads of literal rows and replicas\<close>
named_theorems shash_simps \<open>lookups after each operation on a string hash\<close>
named_theorems bitmap_simps \<open>bits after each operation on a VLAN bitmap\<close>
named_theorems frame_simps \<open>fields an operation leaves alone\<close>

section \<open>C integers\<close>

text \<open>
  Assigning an \<open>int64_t\<close> to an \<open>int\<close> keeps the low 32 bits, read as two's complement;
  passing an \<open>int\<close> where a \<open>size_t\<close> is expected keeps it modulo \<open>2 ^ 64\<close>;
  assigning to a \<open>uint16_t\<close> keeps the low 16 bits.
\<close>

definition c_int :: "int \<Rightarrow> int" where
  "c_int x = signed_take_bit 31 x"

definition c_size_t :: "int \<Rightarrow> nat" where
  "c_size_t x = nat (take_bit 64 x)"

definition c_uint16 :: "int \<Rightarrow> int" where
  "c_uint16 x = take_bit 16 x"

lemma c_int_id [simp]: "- (2 ^ 31) \<le> x \<Longrightarrow> x < 2 ^ 31 \<Longrightarrow> c_int x = x"
  unfolding c_int_def by (rule signed_take_bit_int_eq_self) simp_all

lemma c_size_t_id [simp]: "0 \<le> x \<Longrightarrow> x < 2 ^ 64 \<Longrightarrow> c_size_t x = nat x"
  unfolding c_size_t_def by (simp add: take_bit_int_eq_self)

lemma c_uint16_id [simp]: "0 \<le> x \<Longrightarrow> x < 2 ^ 16 \<Longrightarrow> c_uint16 x = x"
  unfolding c_uint16_def by (simp add: take_bit_int_eq_self)

lemma c_uint16_range: "0 \<le> c_uint16 x \<and> c_uint16 x < 2 ^ 16"
  unfolding c_uint16_def using take_bit_int_less_exp [of 16 x] by simp

section \<open>Loops whose body may fail\<close>

fun foldM :: "('a \<Rightarrow> 's \<Rightarrow> 's option) \<Rightarrow> 'a list \<Rightarrow> 's \<Rightarrow> 's option" where
  "foldM f [] s = Some s"
| "foldM f (x # xs) s = (case f x s of None \<Rightarrow> None | Some t \<Rightarrow> foldM f xs t)"

lemma foldM_append: "foldM f (xs @ ys) s = Option.bind (foldM f xs s) (foldM f ys)"
  by (induction xs arbitrary: s) (auto split: option.splits)

text \<open>
  The rule every loop proof uses: an invariant indexed by the elements already visited,
  kept by each iteration, which also shows that no iteration fails.
\<close>

lemma foldM_prefix:
  assumes "I [] s"
    and "\<And>pre x post t. xs = pre @ x # post \<Longrightarrow> I pre t \<Longrightarrow> \<exists>u. f x t = Some u \<and> I (pre @ [x]) u"
  shows "\<exists>t. foldM f xs s = Some t \<and> I xs t"
proof -
  have "\<exists>t. foldM f post s = Some t \<and> I (pre @ post) t"
    if "xs = pre @ post" and "I pre s" for pre post s
    using that
  proof (induction post arbitrary: pre s)
    case Nil
    then show ?case by simp
  next
    case (Cons x post)
    from assms(2) [OF Cons.prems] obtain u where u: "f x s = Some u" "I (pre @ [x]) u"
      by blast
    have "xs = (pre @ [x]) @ post" using Cons.prems(1) by simp
    from Cons.IH [OF this u(2)] u(1) show ?case by simp
  qed
  from this [of "[]" xs s] assms(1) show ?thesis by simp
qed

lemma foldM_inv:
  assumes "I s" and "\<And>x t. x \<in> set xs \<Longrightarrow> I t \<Longrightarrow> \<exists>u. f x t = Some u \<and> I u"
  shows "\<exists>t. foldM f xs s = Some t \<and> I t"
  using foldM_prefix [of "\<lambda>_. I" s xs f] assms by auto

lemma foldM_result_inv:
  assumes "foldM f xs s = Some t" and "I s"
    and "\<And>x a b. x \<in> set xs \<Longrightarrow> I a \<Longrightarrow> f x a = Some b \<Longrightarrow> I b"
  shows "I t"
  using assms
proof (induction xs arbitrary: s)
  case Nil
  then show ?case by simp
next
  case (Cons x xs)
  from Cons.prems(1) obtain u where "f x s = Some u" "foldM f xs u = Some t"
    by (auto split: option.splits)
  moreover from this Cons.prems have "I u" by auto
  ultimately show ?case using Cons.IH Cons.prems(3) by auto
qed

lemma foldM_skip: "(\<And>x s. x \<in> set xs \<Longrightarrow> f x s = Some s) \<Longrightarrow> foldM f xs s = Some s"
  by (induction xs) auto

text \<open>The same rule for loops that cannot fail.\<close>

lemma foldl_prefix:
  assumes "I [] s" and "\<And>pre x post t. xs = pre @ x # post \<Longrightarrow> I pre t \<Longrightarrow> I (pre @ [x]) (f t x)"
  shows "I xs (foldl f s xs)"
proof -
  have "foldM (\<lambda>x t. Some (f t x)) xs s = Some (foldl f s xs)"
    by (induction xs arbitrary: s) auto
  moreover have "\<exists>t. foldM (\<lambda>x t. Some (f t x)) xs s = Some t \<and> I xs t"
    by (rule foldM_prefix) (use assms in auto)
  ultimately show ?thesis by simp
qed

section \<open>Lists and association lists\<close>

lemma find_append:
  "find P (xs @ ys) = (case find P xs of None \<Rightarrow> find P ys | Some x \<Rightarrow> Some x)"
  by (induction xs) auto

lemma find_SomeD: "find P xs = Some x \<Longrightarrow> x \<in> set xs \<and> P x"
  by (induction xs) (auto split: if_splits)

lemma find_None: "find P xs = None \<longleftrightarrow> (\<forall>x \<in> set xs. \<not> P x)"
  by (induction xs) auto

lemma find_unique:
  assumes "x \<in> set xs" and "P x" and "\<And>y. y \<in> set xs \<Longrightarrow> P y \<Longrightarrow> y = x"
  shows "find P xs = Some x"
proof (cases "find P xs")
  case None
  with assms(1,2) show ?thesis by (auto simp: find_None)
next
  case (Some y)
  with find_SomeD [OF Some] assms(3) show ?thesis by simp
qed

text \<open>A column that identifies rows: two rows that agree on it are the same row.\<close>

lemma distinct_map_eq:
  "distinct (map f xs) \<Longrightarrow> x \<in> set xs \<Longrightarrow> y \<in> set xs \<Longrightarrow> f x = f y \<Longrightarrow> x = y"
  by (metis distinct_map inj_onD)

lemma find_key:
  "distinct (map f xs) \<Longrightarrow> x \<in> set xs \<Longrightarrow> find (\<lambda>y. f y = f x) xs = Some x"
  by (rule find_unique) (auto dest: distinct_map_eq)

end
