(* ===== verification/Ovsdb_Schema.thy ===== *)
theory Ovsdb_Schema
  imports Vland_Prelude "HOL-Library.AList"
begin

text \<open>
  The rows the sources read through the OVSDB client library, as they read them: one record
  per \<^verbatim>\<open>struct ovsrec_...\<close>, with the columns \<^verbatim>\<open>src/vland_ovsdb_if.c\<close> and
  \<^verbatim>\<open>src/cli/\<close> use. A row carries its address, because the sources keep and compare row
  pointers. The database replica (\<open>ovsdb\<close>) lists the rows of each table in the order in which
  the \<^verbatim>\<open>OVSREC_..._FOR_EACH\<close> loops visit them. The client library itself is not modelled.
\<close>

section \<open>Schema constants\<close>

text \<open>
  The strings of the schema's enumerations and map keys, as the tests of the repository
  (\<^verbatim>\<open>tests/test_vland.py\<close>, \<^verbatim>\<open>tests/test_vtysh_ct_vlan.py\<close>) and the comments of the sources
  spell them.
\<close>

abbreviation "OVSREC_PORT_VLAN_MODE_ACCESS \<equiv> ''access''"
abbreviation "OVSREC_PORT_VLAN_MODE_TRUNK \<equiv> ''trunk''"
abbreviation "OVSREC_PORT_VLAN_MODE_NATIVE_TAGGED \<equiv> ''native-tagged''"
abbreviation "OVSREC_PORT_VLAN_MODE_NATIVE_UNTAGGED \<equiv> ''native-untagged''"
abbreviation "OVSREC_VLAN_ADMIN_UP \<equiv> ''up''"
abbreviation "OVSREC_VLAN_ADMIN_DOWN \<equiv> ''down''"
abbreviation "OVSREC_VLAN_OPER_STATE_UP \<equiv> ''up''"
abbreviation "OVSREC_VLAN_OPER_STATE_DOWN \<equiv> ''down''"
abbreviation "OVSREC_VLAN_OPER_STATE_UNKNOWN \<equiv> ''unknown''"
abbreviation "OVSREC_VLAN_OPER_STATE_REASON_ADMIN_DOWN \<equiv> ''admin_down''"
abbreviation "OVSREC_VLAN_OPER_STATE_REASON_OK \<equiv> ''ok''"
abbreviation "OVSREC_VLAN_OPER_STATE_REASON_NO_MEMBER_PORT \<equiv> ''no_member_port''"
abbreviation "OVSREC_VLAN_OPER_STATE_REASON_UNKNOWN \<equiv> ''unknown''"
abbreviation "VLAN_INTERNAL_USAGE_L3PORT \<equiv> ''l3port''"
abbreviation "VLAN_HW_CONFIG_MAP_ENABLE_TRUE \<equiv> ''true''"
abbreviation "DEFAULT_BRIDGE_NAME \<equiv> ''bridge_normal''"

section \<open>Enumerations\<close>

datatype vlan_mode =
  PORT_VLAN_MODE_ACCESS | PORT_VLAN_MODE_TRUNK
| PORT_VLAN_MODE_NATIVE_TAGGED | PORT_VLAN_MODE_NATIVE_UNTAGGED

datatype vlan_admin = VLAN_ADMIN_UP | VLAN_ADMIN_DOWN

datatype vlan_oper_state =
  VLAN_OPER_STATE_UNKNOWN | VLAN_OPER_STATE_UP | VLAN_OPER_STATE_DOWN

datatype vlan_oper_state_reason =
  VLAN_OPER_STATE_REASON_UNKNOWN | VLAN_OPER_STATE_REASON_OK
| VLAN_OPER_STATE_REASON_ADMIN_DOWN | VLAN_OPER_STATE_REASON_NO_MEMBER_PORT

datatype txn_status =
  TXN_UNCOMMITTED | TXN_UNCHANGED | TXN_INCOMPLETE | TXN_ABORTED | TXN_SUCCESS
| TXN_TRY_AGAIN | TXN_NOT_LOCKED | TXN_ERROR

section \<open>String maps\<close>

text \<open>A map column is a list of key and value pairs; the first pair of a key is its value.\<close>

type_synonym smap = "(string \<times> string) list"

definition smap_get :: "smap \<Rightarrow> string \<Rightarrow> string option" where
  "smap_get m k = map_of m k"

definition smap_replace :: "string \<Rightarrow> string \<Rightarrow> smap \<Rightarrow> smap" where
  "smap_replace k v m = AList.update k v m"

lemma smap_get_replace [simp]:
  "smap_get (smap_replace k v m) k' = (if k' = k then Some v else smap_get m k')"
  by (simp add: smap_get_def smap_replace_def update_conv')

lemma smap_get_Nil [simp]: "smap_get [] k = None"
  by (simp add: smap_get_def)

section \<open>Rows and the replica\<close>

type_synonym row_ref = nat

record ovsrec_port =
  p_row :: row_ref
  p_name :: string
  p_vlan_mode :: "string option"
  p_vlan_tag :: "row_ref option"
  p_vlan_trunks :: "row_ref list"
  p_interfaces :: "row_ref list"
  p_hw_config :: smap

definition n_vlan_trunks :: "ovsrec_port \<Rightarrow> nat" where
  "n_vlan_trunks p = length (p_vlan_trunks p)"

record ovsrec_vlan =
  v_row :: row_ref
  v_name :: string
  v_id :: int
  v_admin :: "string option"
  v_description :: "string option"
  v_oper_state :: string
  v_oper_state_reason :: string
  v_internal_usage :: smap

record ovsrec_interface =
  i_row :: row_ref
  i_name :: string
  i_type :: string

record ovsrec_bridge =
  b_row :: row_ref
  b_name :: string
  b_ports :: "ovsrec_port list"
  b_vlans :: "row_ref list"

record ovsrec_system =
  s_row :: row_ref
  s_cur_cfg :: int
  s_bridges :: "ovsrec_bridge list"
  s_other_config :: smap

text \<open>
  \<open>row_inserted\<close> and \<open>row_modified\<close> are the answers of the client library's change tracking
  (\<^verbatim>\<open>OVSREC_IDL_IS_ROW_INSERTED\<close>, \<^verbatim>\<open>OVSREC_IDL_IS_ROW_MODIFIED\<close>) for a row and the
  sequence number up to which the caller has seen the database.
\<close>

record ovsdb =
  systems :: "ovsrec_system list"
  bridges :: "ovsrec_bridge list"
  ports :: "ovsrec_port list"
  vlans :: "ovsrec_vlan list"
  interfaces :: "ovsrec_interface list"
  row_inserted :: "row_ref \<Rightarrow> 32 word \<Rightarrow> bool"
  row_modified :: "row_ref \<Rightarrow> 32 word \<Rightarrow> bool"
  seqno :: "32 word"

definition ovsrec_system_first :: "ovsdb \<Rightarrow> ovsrec_system option" where
  "ovsrec_system_first db = (case systems db of [] \<Rightarrow> None | r # _ \<Rightarrow> Some r)"

text \<open>Reading through a row pointer: \<open>None\<close> when the row has left the replica.\<close>

definition deref_vlan :: "ovsdb \<Rightarrow> row_ref \<Rightarrow> ovsrec_vlan option" where
  "deref_vlan db r = find (\<lambda>row. v_row row = r) (vlans db)"

definition row_changed :: "ovsdb \<Rightarrow> 32 word \<Rightarrow> row_ref \<Rightarrow> bool" where
  "row_changed db n r \<longleftrightarrow> row_inserted db r n \<or> row_modified db r n"

section \<open>Library calls that are parameters\<close>

text \<open>
  The accessors of \<^verbatim>\<open>ops-utils\<close> for the VLAN references of a port row: the VLAN id behind the
  \<open>vlan_tag\<close> column and behind the \<open>i\<close>-th entry of the \<open>vlan_trunks\<close> column.
\<close>

record ops_utils =
  ops_port_get_tag :: "ovsrec_port \<Rightarrow> int"
  ops_port_get_trunks :: "ovsrec_port \<Rightarrow> nat \<Rightarrow> int"

definition port_trunks :: "ops_utils \<Rightarrow> ovsrec_port \<Rightarrow> int list" where
  "port_trunks U p = map (ops_port_get_trunks U p) [0..<n_vlan_trunks p]"

lemma length_port_trunks [simp]: "length (port_trunks U p) = n_vlan_trunks p"
  by (simp add: port_trunks_def)

section \<open>Writes of a transaction\<close>

text \<open>
  The column writes the daemon issues, in the order it issues them. The columns
  \<open>hw_vlan_config\<close>, \<open>oper_state\<close> and \<open>oper_state_reason\<close> are write-only for the daemon
  (\<^verbatim>\<open>ovsdb_idl_omit_alert\<close>), so a pending write never changes what it reads.
\<close>

datatype db_write =
  Vlan_Set_Hw_Vlan_Config row_ref smap
| Vlan_Set_Oper_State row_ref string
| Vlan_Set_Oper_State_Reason row_ref string
| Vlan_Insert row_ref
| Vlan_Set_Id row_ref int
| Vlan_Set_Name row_ref string
| Vlan_Set_Admin row_ref string
| Bridge_Set_Vlans row_ref "row_ref list"

fun written_row :: "db_write \<Rightarrow> row_ref" where
  "written_row (Vlan_Set_Hw_Vlan_Config r _) = r"
| "written_row (Vlan_Set_Oper_State r _) = r"
| "written_row (Vlan_Set_Oper_State_Reason r _) = r"
| "written_row (Vlan_Insert r) = r"
| "written_row (Vlan_Set_Id r _) = r"
| "written_row (Vlan_Set_Name r _) = r"
| "written_row (Vlan_Set_Admin r _) = r"
| "written_row (Bridge_Set_Vlans r _) = r"

end
