(* ===== verification/Shash.thy ===== *)
theory Shash
  imports Vland_Prelude "HOL-Library.Multiset"
begin

text \<open>
  The string hash tables (\<^verbatim>\<open>struct shash\<close>) in which the sources keep ports and VLANs by name.
  A table is the list of its nodes in the order in which \<^verbatim>\<open>SHASH_FOR_EACH\<close> visits them. Where
  an insertion puts the new node, and how it reorders the others, depends on the hash function
  and the bucket count; it is a parameter \<open>rank\<close>, on which no property depends.
\<close>

type_synonym 'a shash = "(string \<times> 'a) list"
type_synonym sh_rank = "string list \<Rightarrow> string \<Rightarrow> nat"

definition shash_find_data :: "'a shash \<Rightarrow> string \<Rightarrow> 'a option" where
  "shash_find_data sh k = map_of sh k"

definition shash_nodes :: "'a shash \<Rightarrow> string list" where
  "shash_nodes sh = map fst sh"

definition shash_place :: "sh_rank \<Rightarrow> string \<Rightarrow> 'a \<Rightarrow> 'a shash \<Rightarrow> 'a shash" where
  "shash_place rank k v sh = sort_key (\<lambda>n. rank (k # shash_nodes sh) (fst n)) ((k, v) # sh)"

text \<open>\<^verbatim>\<open>shash_add_once\<close> inserts only a new name and says whether it did.\<close>

definition shash_add_once :: "sh_rank \<Rightarrow> string \<Rightarrow> 'a \<Rightarrow> 'a shash \<Rightarrow> bool \<times> 'a shash" where
  "shash_add_once rank k v sh =
     (if shash_find_data sh k = None then (True, shash_place rank k v sh) else (False, sh))"

definition shash_delete :: "string \<Rightarrow> 'a shash \<Rightarrow> 'a shash" where
  "shash_delete k sh = filter (\<lambda>n. fst n \<noteq> k) sh"

text \<open>Writing through the data pointer of a node.\<close>

definition shash_put :: "string \<Rightarrow> 'a \<Rightarrow> 'a shash \<Rightarrow> 'a shash" where
  "shash_put k v sh = map (\<lambda>n. if fst n = k then (k, v) else n) sh"

section \<open>The dictionary contract\<close>

text \<open>
  What the clients of the tables rely on: a lookup after each operation, and that the visited
  names are those of the table, each once.
\<close>

locale string_dict =
  fixes lookup :: "'t \<Rightarrow> string \<Rightarrow> 'a option"
    and nodes :: "'t \<Rightarrow> string list"
    and add_once :: "string \<Rightarrow> 'a \<Rightarrow> 't \<Rightarrow> bool \<times> 't"
    and delete :: "string \<Rightarrow> 't \<Rightarrow> 't"
    and put :: "string \<Rightarrow> 'a \<Rightarrow> 't \<Rightarrow> 't"
    and ok :: "'t \<Rightarrow> bool"
  assumes ok_add: "ok t \<Longrightarrow> ok (snd (add_once k v t))"
    and ok_delete: "ok t \<Longrightarrow> ok (delete k t)"
    and ok_put: "ok t \<Longrightarrow> ok (put k v t)"
    and distinct_nodes: "ok t \<Longrightarrow> distinct (nodes t)"
    and set_nodes: "ok t \<Longrightarrow> set (nodes t) = {k. lookup t k \<noteq> None}"
    and add_fst: "fst (add_once k v t) \<longleftrightarrow> lookup t k = None"
    and lookup_add: "lookup (snd (add_once k v t)) k' =
      (if k' = k \<and> lookup t k = None then Some v else lookup t k')"
    and lookup_delete: "lookup (delete k t) k' = (if k' = k then None else lookup t k')"
    and lookup_put: "lookup (put k v t) k' =
      (if k' = k \<and> lookup t k \<noteq> None then Some v else lookup t k')"
begin

text \<open>
  Client lemma: the collecting loop at the head of both cache updates (add every row of a
  table under its name, warn about a name seen before) keeps the first row of each name.
\<close>

lemma ok_collect: "ok t \<Longrightarrow> ok (foldl (\<lambda>t r. snd (add_once (name r) (dat r) t)) t rs)"
  by (induction rs arbitrary: t) (auto simp: ok_add)

lemma lookup_collect:
  "lookup (foldl (\<lambda>t r. snd (add_once (name r) (dat r) t)) t rs) k =
     (case lookup t k of Some v \<Rightarrow> Some v
      | None \<Rightarrow> map_option dat (find (\<lambda>r. name r = k) rs))"
  by (induction rs arbitrary: t) (auto simp: lookup_add split: option.splits)

text \<open>Writing the data of a visited node leaves the set of names alone.\<close>

lemma nodes_put: "ok t \<Longrightarrow> set (nodes (put k v t)) = set (nodes t)"
  by (auto simp: set_nodes ok_put lookup_put)

lemma nodes_add: "ok t \<Longrightarrow> set (nodes (snd (add_once k v t))) = insert k (set (nodes t))"
  by (auto simp: set_nodes ok_add lookup_add)

lemma nodes_delete: "ok t \<Longrightarrow> set (nodes (delete k t)) = set (nodes t) - {k}"
  by (auto simp: set_nodes ok_delete lookup_delete)

end

section \<open>The model's tables keep the contract\<close>

definition shash_ok :: "'a shash \<Rightarrow> bool" where
  "shash_ok sh \<longleftrightarrow> distinct (map fst sh)"

lemma shash_ok_Nil [simp]: "shash_ok []"
  by (simp add: shash_ok_def)

lemma set_shash_place [simp]: "set (shash_place rank k v sh) = insert (k, v) (set sh)"
  by (simp add: shash_place_def set_insort_key)

lemma distinct_shash_place:
  "distinct (map fst (shash_place rank k v sh)) \<longleftrightarrow> k \<notin> fst ` set sh \<and> distinct (map fst sh)"
proof -
  have "mset (map fst (shash_place rank k v sh)) = mset (map fst ((k, v) # sh))"
    by (simp add: shash_place_def)
  then have "distinct (map fst (shash_place rank k v sh)) = distinct (map fst ((k, v) # sh))"
    by (rule mset_eq_imp_distinct_iff)
  then show ?thesis by simp
qed

text \<open>Sorting nodes by a rank of their names never changes a lookup.\<close>

lemma map_of_insort_key: "map_of (insort_key (\<lambda>n. f (fst n)) x xs) = map_of (x # xs)"
  by (induction xs) (auto simp: fun_eq_iff)

lemma map_of_sort_key: "map_of (sort_key (\<lambda>n. f (fst n)) xs) = map_of xs"
  by (induction xs) (auto simp: map_of_insort_key)

lemma map_of_shash_place [simp]: "map_of (shash_place rank k v sh) = (map_of sh)(k \<mapsto> v)"
  unfolding shash_place_def map_of_sort_key by simp

lemma map_of_shash_delete: "map_of (shash_delete k sh) k' = (if k' = k then None else map_of sh k')"
  by (induction sh) (auto simp: shash_delete_def)

lemma distinct_shash_delete: "distinct (map fst sh) \<Longrightarrow> distinct (map fst (shash_delete k sh))"
  by (simp add: shash_delete_def distinct_map_filter)

lemma map_of_shash_put:
  "map_of (shash_put k v sh) k' = (if k' = k \<and> map_of sh k \<noteq> None then Some v else map_of sh k')"
  by (induction sh) (auto simp: shash_put_def)

lemma nodes_shash_put [simp]: "map fst (shash_put k v sh) = map fst sh"
  by (auto simp: shash_put_def)

interpretation sd: string_dict shash_find_data shash_nodes "shash_add_once rank" shash_delete
    shash_put shash_ok for rank
  by unfold_locales
    (auto simp: shash_ok_def shash_add_once_def shash_find_data_def shash_nodes_def
      distinct_shash_place map_of_shash_delete map_of_shash_put map_of_eq_None_iff
      distinct_shash_delete)

lemmas shash_lookup [shash_simps] = sd.lookup_add sd.lookup_delete sd.lookup_put

end
