(* ===== verification/Vlan_Bitmap.thy ===== *)
theory Vlan_Bitmap
  imports Vland_Prelude
begin

text \<open>
  VLAN bitmaps. The bitmap functions belong to Open vSwitch, not to this repository, so they are
  a parameter: a record of operations over an arbitrary type of bitmaps, with the documented
  meaning of each as the hypothesis \<open>bitmap_laws\<close>. The set \<open>bits\<close> of the VLAN ids whose bit is
  set is the abstraction through which every component is specified.
\<close>

definition VALID_VID :: "int \<Rightarrow> bool" where
  "VALID_VID x \<longleftrightarrow> x > 0 \<and> x < 4095"

definition DEFAULT_VID :: int where
  "DEFAULT_VID = 1"

lemma VALID_VID_DEFAULT [simp]: "VALID_VID DEFAULT_VID"
  by (simp add: VALID_VID_def DEFAULT_VID_def)

record 'b bitmap_ops =
  VLAN_BITMAP_SIZE :: nat
  bitmap_allocate :: "nat \<Rightarrow> 'b"
  bitmap_set :: "'b \<Rightarrow> nat \<Rightarrow> bool \<Rightarrow> 'b"
  bitmap_is_set :: "'b \<Rightarrow> nat \<Rightarrow> bool"
  bitmap_or :: "'b \<Rightarrow> 'b \<Rightarrow> nat \<Rightarrow> 'b"
  bitmap_ones :: "nat \<Rightarrow> 'b \<Rightarrow> nat list"
  vlan_bitmap_from_array :: "int list \<Rightarrow> 'b"
  vlan_bitmap_clone :: "'b \<Rightarrow> 'b"

text \<open>
  \<open>bitmap_ones n b\<close> is the sequence of indices the loop \<^verbatim>\<open>BITMAP_FOR_EACH_1(i, n, b)\<close> visits.
  The laws speak of the indices below the size only; a write outside it is unspecified.
\<close>

definition bitmap_laws :: "'b bitmap_ops \<Rightarrow> bool" where
  "bitmap_laws B \<longleftrightarrow>
     4095 \<le> VLAN_BITMAP_SIZE B \<and>
     (\<forall>i < VLAN_BITMAP_SIZE B. \<not> bitmap_is_set B (bitmap_allocate B (VLAN_BITMAP_SIZE B)) i) \<and>
     (\<forall>b v. \<forall>i < VLAN_BITMAP_SIZE B. \<forall>j < VLAN_BITMAP_SIZE B.
        bitmap_is_set B (bitmap_set B b i v) j = (if j = i then v else bitmap_is_set B b j)) \<and>
     (\<forall>a b. \<forall>i < VLAN_BITMAP_SIZE B.
        bitmap_is_set B (bitmap_or B a b (VLAN_BITMAP_SIZE B)) i =
          (bitmap_is_set B a i \<or> bitmap_is_set B b i)) \<and>
     (\<forall>b. bitmap_ones B (VLAN_BITMAP_SIZE B) b =
        filter (bitmap_is_set B b) [0..<VLAN_BITMAP_SIZE B]) \<and>
     (\<forall>vs. \<forall>i < VLAN_BITMAP_SIZE B. vs \<noteq> [] \<longrightarrow>
        bitmap_is_set B (vlan_bitmap_from_array B vs) i = (int i \<in> set vs)) \<and>
     (\<forall>b. \<forall>i < VLAN_BITMAP_SIZE B.
        bitmap_is_set B (vlan_bitmap_clone B b) i = bitmap_is_set B b i)"

definition bits :: "'b bitmap_ops \<Rightarrow> 'b \<Rightarrow> nat set" where
  "bits B b = {i. i < VLAN_BITMAP_SIZE B \<and> bitmap_is_set B b i}"

lemma bits_allocate [bitmap_simps]:
  "bitmap_laws B \<Longrightarrow> bits B (bitmap_allocate B (VLAN_BITMAP_SIZE B)) = {}"
  by (auto simp: bitmap_laws_def bits_def)

lemma bits_set [bitmap_simps]:
  "bitmap_laws B \<Longrightarrow> i < VLAN_BITMAP_SIZE B \<Longrightarrow>
     bits B (bitmap_set B b i v) = (if v then insert i (bits B b) else bits B b - {i})"
proof -
  assume "bitmap_laws B" "i < VLAN_BITMAP_SIZE B"
  moreover from \<open>bitmap_laws B\<close> have "\<forall>b v. \<forall>i < VLAN_BITMAP_SIZE B. \<forall>j < VLAN_BITMAP_SIZE B.
      bitmap_is_set B (bitmap_set B b i v) j = (if j = i then v else bitmap_is_set B b j)"
    unfolding bitmap_laws_def by (elim conjE)
  ultimately have "bitmap_is_set B (bitmap_set B b i v) j \<longleftrightarrow> (if j = i then v else bitmap_is_set B b j)"
    if "j < VLAN_BITMAP_SIZE B" for j
    using that by blast
  with \<open>i < VLAN_BITMAP_SIZE B\<close> show ?thesis by (auto simp: bits_def split: if_split_asm)
qed

lemma bits_or [bitmap_simps]:
  "bitmap_laws B \<Longrightarrow> bits B (bitmap_or B a b (VLAN_BITMAP_SIZE B)) = bits B a \<union> bits B b"
  by (auto simp: bitmap_laws_def bits_def)

lemma bits_from_array [bitmap_simps]:
  "bitmap_laws B \<Longrightarrow> vs \<noteq> [] \<Longrightarrow>
     bits B (vlan_bitmap_from_array B vs) = {i. i < VLAN_BITMAP_SIZE B \<and> int i \<in> set vs}"
  by (auto simp: bitmap_laws_def bits_def)

lemma bits_clone [bitmap_simps]:
  "bitmap_laws B \<Longrightarrow> bits B (vlan_bitmap_clone B b) = bits B b"
  by (auto simp: bitmap_laws_def bits_def)

lemma set_bitmap_ones [bitmap_simps]:
  "bitmap_laws B \<Longrightarrow> set (bitmap_ones B (VLAN_BITMAP_SIZE B) b) = bits B b"
  by (auto simp: bitmap_laws_def bits_def)

lemma bitmap_is_set_bits:
  "i < VLAN_BITMAP_SIZE B \<Longrightarrow> bitmap_is_set B b i \<longleftrightarrow> i \<in> bits B b"
  by (simp add: bits_def)

lemma valid_vid_size:
  "bitmap_laws B \<Longrightarrow> VALID_VID x \<Longrightarrow> nat x < VLAN_BITMAP_SIZE B"
  by (auto simp: bitmap_laws_def VALID_VID_def)

lemma valid_vid_c_size_t [simp]: "VALID_VID x \<Longrightarrow> c_size_t x = nat x"
  by (simp add: VALID_VID_def)

lemma valid_vid_c_int [simp]: "VALID_VID x \<Longrightarrow> c_int x = x"
  by (simp add: VALID_VID_def)

lemma valid_vid_nat_inject: "VALID_VID x \<Longrightarrow> VALID_VID y \<Longrightarrow> nat x = nat y \<longleftrightarrow> x = y"
  by (auto simp: VALID_VID_def)

section \<open>An instance of the laws\<close>

text \<open>Sets of indices below 4096: the laws have a model, and it evaluates.\<close>

definition set_bitmap :: "nat set bitmap_ops" where
  "set_bitmap =
     \<lparr> VLAN_BITMAP_SIZE = 4096,
       bitmap_allocate = (\<lambda>n. {}),
       bitmap_set = (\<lambda>b i v. if v then insert i b else Set.remove i b),
       bitmap_is_set = (\<lambda>b i. i \<in> b),
       bitmap_or = (\<lambda>a b n. a \<union> b),
       bitmap_ones = (\<lambda>n b. sorted_list_of_set (Set.filter (\<lambda>i. i < n) b)),
       vlan_bitmap_from_array = (\<lambda>vs. nat ` Set.filter (\<lambda>v. 0 \<le> v) (set vs)),
       vlan_bitmap_clone = (\<lambda>b. b) \<rparr>"

lemma sorted_list_of_set_filter_less:
  "sorted_list_of_set {i \<in> b. i < n} = filter (\<lambda>i. i \<in> b) [0..<n]" for n :: nat
proof -
  have "{i \<in> b. i < n} = set (filter (\<lambda>i. i \<in> b) [0..<n])" by auto
  then show ?thesis
    by (simp add: sorted_list_of_set.idem_if_sorted_distinct sorted_wrt_filter del: set_filter)
qed

lemma set_bitmap_laws: "bitmap_laws set_bitmap"
  unfolding bitmap_laws_def set_bitmap_def
  by (auto simp: sorted_list_of_set_filter_less image_iff intro: bexI [of _ "int _"])

end
