(* ===== verification/Vland_State.thy ===== *)
theory Vland_State
  imports Ovsdb_Schema Shash Vlan_Bitmap
begin

text \<open>
  The daemon's own state (\<^verbatim>\<open>src/vland_ovsdb_if.c\<close>): the cached ports and VLANs, the bitmap of all
  VLANs and the globals, with the lookups and the enumeration printers every part uses.
\<close>

section \<open>Cached ports and VLANs\<close>

record 'b port_data =
  pd_name :: string
  pd_vlan_mode :: vlan_mode
  pd_native_vid :: int
  pd_trunk_all_vlans :: bool
  pd_vlans_bitmap :: 'b

record vlan_data =
  vd_idl_cfg :: row_ref
  vd_name :: string
  vd_vid :: int
  vd_any_member_exists :: bool
  vd_admin :: vlan_admin
  vd_op_state :: vlan_oper_state
  vd_op_state_reason :: vlan_oper_state_reason

text \<open>
  The file's globals. \<open>txn_writes\<close> holds the column writes issued so far in the pending
  transaction.
\<close>

record 'b vland =
  all_ports :: "'b port_data shash"
  all_vlans :: "vlan_data shash"
  all_vlans_bitmap :: 'b
  idl_seqno :: "32 word"
  system_configured :: bool
  default_vlan_created :: bool
  txn_writes :: "db_write list"

text \<open>
  The parameters of the daemon: the bitmap library, the accessors of port rows, and the order
  in which insertions place the nodes of a hash table.
\<close>

record 'b vland_env =
  bmp :: "'b bitmap_ops"
  ops :: ops_utils
  hash_rank :: sh_rank

definition bitmap_size :: "'b vland_env \<Rightarrow> nat" where
  "bitmap_size E = VLAN_BITMAP_SIZE (bmp E)"

section \<open>Enumerations as strings\<close>

fun vlan_mode_to_str :: "vlan_mode \<Rightarrow> string" where
  "vlan_mode_to_str PORT_VLAN_MODE_TRUNK = OVSREC_PORT_VLAN_MODE_TRUNK"
| "vlan_mode_to_str PORT_VLAN_MODE_NATIVE_TAGGED = OVSREC_PORT_VLAN_MODE_NATIVE_TAGGED"
| "vlan_mode_to_str PORT_VLAN_MODE_NATIVE_UNTAGGED = OVSREC_PORT_VLAN_MODE_NATIVE_UNTAGGED"
| "vlan_mode_to_str PORT_VLAN_MODE_ACCESS = OVSREC_PORT_VLAN_MODE_ACCESS"

fun vlan_admin_to_str :: "vlan_admin \<Rightarrow> string" where
  "vlan_admin_to_str VLAN_ADMIN_UP = OVSREC_VLAN_ADMIN_UP"
| "vlan_admin_to_str VLAN_ADMIN_DOWN = OVSREC_VLAN_ADMIN_DOWN"

fun vlan_oper_state_to_str :: "vlan_oper_state \<Rightarrow> string" where
  "vlan_oper_state_to_str VLAN_OPER_STATE_DOWN = OVSREC_VLAN_OPER_STATE_DOWN"
| "vlan_oper_state_to_str VLAN_OPER_STATE_UP = OVSREC_VLAN_OPER_STATE_UP"
| "vlan_oper_state_to_str VLAN_OPER_STATE_UNKNOWN = OVSREC_VLAN_OPER_STATE_UNKNOWN"

fun vlan_oper_state_reason_to_str :: "vlan_oper_state_reason \<Rightarrow> string" where
  "vlan_oper_state_reason_to_str VLAN_OPER_STATE_REASON_ADMIN_DOWN =
     OVSREC_VLAN_OPER_STATE_REASON_ADMIN_DOWN"
| "vlan_oper_state_reason_to_str VLAN_OPER_STATE_REASON_OK = OVSREC_VLAN_OPER_STATE_REASON_OK"
| "vlan_oper_state_reason_to_str VLAN_OPER_STATE_REASON_NO_MEMBER_PORT =
     OVSREC_VLAN_OPER_STATE_REASON_NO_MEMBER_PORT"
| "vlan_oper_state_reason_to_str VLAN_OPER_STATE_REASON_UNKNOWN =
     OVSREC_VLAN_OPER_STATE_REASON_UNKNOWN"

text \<open>The strings of \<open>oper_state\<close> and of the reason determine the values they print.\<close>

lemma vlan_mode_to_str_inject: "vlan_mode_to_str m = vlan_mode_to_str m' \<longleftrightarrow> m = m'"
  by (cases m; cases m') simp_all

lemma vlan_oper_state_to_str_inject:
  "vlan_oper_state_to_str s = vlan_oper_state_to_str s' \<longleftrightarrow> s = s'"
  by (cases s; cases s') simp_all

lemma vlan_oper_state_reason_to_str_inject:
  "vlan_oper_state_reason_to_str r = vlan_oper_state_reason_to_str r' \<longleftrightarrow> r = r'"
  by (cases r; cases r') simp_all

section \<open>Lookups\<close>

text \<open>
  \<^verbatim>\<open>vlan_lookup_by_vid\<close>: the first cached VLAN with the id, as the node that holds it, so that
  the caller can write through the pointer.
\<close>

definition vlan_lookup_by_vid :: "'b vland \<Rightarrow> int \<Rightarrow> (string \<times> vlan_data) option" where
  "vlan_lookup_by_vid s vid = find (\<lambda>n. vd_vid (snd n) = vid) (all_vlans s)"

definition put_vlan :: "string \<Rightarrow> vlan_data \<Rightarrow> 'b vland \<Rightarrow> 'b vland" where
  "put_vlan k v s = s\<lparr>all_vlans := shash_put k v (all_vlans s)\<rparr>"

definition put_port :: "string \<Rightarrow> 'b port_data \<Rightarrow> 'b vland \<Rightarrow> 'b vland" where
  "put_port k p s = s\<lparr>all_ports := shash_put k p (all_ports s)\<rparr>"

definition check_port_in_bridge :: "ovsdb \<Rightarrow> string \<Rightarrow> bool" where
  "check_port_in_bridge db port_name =
     (case ovsrec_system_first db of
        None \<Rightarrow> False
      | Some ovs_row \<Rightarrow>
          list_ex (\<lambda>br_cfg. list_ex (\<lambda>port_cfg. p_name port_cfg = port_name) (b_ports br_cfg))
            (s_bridges ovs_row))"

lemma vlan_lookup_by_vid_SomeD:
  "vlan_lookup_by_vid s vid = Some (k, v) \<Longrightarrow> (k, v) \<in> set (all_vlans s) \<and> vd_vid v = vid"
  by (auto simp: vlan_lookup_by_vid_def dest: find_SomeD)

lemma vlan_lookup_by_vid_None:
  "vlan_lookup_by_vid s vid = None \<longleftrightarrow> (\<forall>(k, v) \<in> set (all_vlans s). vd_vid v \<noteq> vid)"
  by (auto simp: vlan_lookup_by_vid_def find_None)

lemma put_vlan_fields [frame_simps]:
  "all_ports (put_vlan k v s) = all_ports s"
  "all_vlans (put_vlan k v s) = shash_put k v (all_vlans s)"
  "all_vlans_bitmap (put_vlan k v s) = all_vlans_bitmap s"
  "idl_seqno (put_vlan k v s) = idl_seqno s"
  "system_configured (put_vlan k v s) = system_configured s"
  "default_vlan_created (put_vlan k v s) = default_vlan_created s"
  "txn_writes (put_vlan k v s) = txn_writes s"
  by (simp_all add: put_vlan_def)

lemma put_port_fields [frame_simps]:
  "all_ports (put_port k p s) = shash_put k p (all_ports s)"
  "all_vlans (put_port k p s) = all_vlans s"
  "all_vlans_bitmap (put_port k p s) = all_vlans_bitmap s"
  "idl_seqno (put_port k p s) = idl_seqno s"
  "system_configured (put_port k p s) = system_configured s"
  "default_vlan_created (put_port k p s) = default_vlan_created s"
  "txn_writes (put_port k p s) = txn_writes s"
  by (simp_all add: put_port_def)

end
