(* ===== verification/Oper_State.thy ===== *)
theory Oper_State
  imports Vland_State
begin

text \<open>
  The operational state of a VLAN: membership over all cached ports
  (\<^verbatim>\<open>update_vlan_membership\<close>), the default VLAN's member test
  (\<^verbatim>\<open>vland_default_vlan_member_port\<close>), the priority table
  (\<^verbatim>\<open>calc_vlan_op_state_n_reason\<close>) and the publication of a change
  (\<^verbatim>\<open>handle_vlan_config\<close>).
\<close>

section \<open>Membership\<close>

text \<open>
  One pass over the nodes of \<open>all_ports\<close>: ports outside the bridge are skipped, a port that
  trunks all VLANs gains the VLAN's bit, and the flag records whether any port is a member.
\<close>

fun membership_loop ::
  "'b vland_env \<Rightarrow> ovsdb \<Rightarrow> int \<Rightarrow> (string \<times> 'b port_data) list \<Rightarrow> bool \<Rightarrow>
    (string \<times> 'b port_data) list \<times> bool" where
  "membership_loop E db vid [] found = ([], found)"
| "membership_loop E db vid ((k, port) # nodes) found =
     (if \<not> check_port_in_bridge db (pd_name port) then
        (let (rest, found') = membership_loop E db vid nodes found in ((k, port) # rest, found'))
      else if pd_trunk_all_vlans port then
        (let port' = port\<lparr>pd_vlans_bitmap :=
                 bitmap_set (bmp E) (pd_vlans_bitmap port) (c_size_t vid) True\<rparr>;
             (rest, found') = membership_loop E db vid nodes True
         in ((k, port') # rest, found'))
      else if bitmap_is_set (bmp E) (pd_vlans_bitmap port) (c_size_t vid) then
        (let (rest, found') = membership_loop E db vid nodes True in ((k, port) # rest, found'))
      else
        (let (rest, found') = membership_loop E db vid nodes found in ((k, port) # rest, found')))"

definition update_vlan_membership ::
  "'b vland_env \<Rightarrow> ovsdb \<Rightarrow> vlan_data \<Rightarrow> 'b vland \<Rightarrow> vlan_data \<times> 'b vland" where
  "update_vlan_membership E db vlan_ptr s =
     (let (nodes, found) = membership_loop E db (vd_vid vlan_ptr) (all_ports s) False
      in (vlan_ptr\<lparr>vd_any_member_exists := found\<rparr>, s\<lparr>all_ports := nodes\<rparr>))"

text \<open>What the pass does to one port, and which ports count as members.\<close>

definition cached_member :: "'b vland_env \<Rightarrow> ovsdb \<Rightarrow> int \<Rightarrow> 'b port_data \<Rightarrow> bool" where
  "cached_member E db vid port \<longleftrightarrow> check_port_in_bridge db (pd_name port) \<and>
     (pd_trunk_all_vlans port \<or> bitmap_is_set (bmp E) (pd_vlans_bitmap port) (c_size_t vid))"

definition add_trunked_vlan ::
  "'b vland_env \<Rightarrow> ovsdb \<Rightarrow> int \<Rightarrow> 'b port_data \<Rightarrow> 'b port_data" where
  "add_trunked_vlan E db vid port =
     (if check_port_in_bridge db (pd_name port) \<and> pd_trunk_all_vlans port
      then port\<lparr>pd_vlans_bitmap := bitmap_set (bmp E) (pd_vlans_bitmap port) (c_size_t vid) True\<rparr>
      else port)"

lemma membership_loop_eq:
  "membership_loop E db vid nodes found =
     (map (\<lambda>(k, p). (k, add_trunked_vlan E db vid p)) nodes,
      found \<or> (\<exists>(k, p) \<in> set nodes. cached_member E db vid p))"
  by (induction E db vid nodes found rule: membership_loop.induct)
    (auto simp: add_trunked_vlan_def cached_member_def)

definition any_cached_member :: "'b vland_env \<Rightarrow> ovsdb \<Rightarrow> 'b vland \<Rightarrow> int \<Rightarrow> bool" where
  "any_cached_member E db s vid \<longleftrightarrow> (\<exists>(k, p) \<in> set (all_ports s). cached_member E db vid p)"

lemma update_vlan_membership_eq:
  "update_vlan_membership E db v s =
     (v\<lparr>vd_any_member_exists := any_cached_member E db s (vd_vid v)\<rparr>,
      s\<lparr>all_ports := map (\<lambda>(k, p). (k, add_trunked_vlan E db (vd_vid v) p)) (all_ports s)\<rparr>)"
  by (simp add: update_vlan_membership_def membership_loop_eq any_cached_member_def)

lemma add_trunked_vlan_fields [simp]:
  "pd_name (add_trunked_vlan E db vid p) = pd_name p"
  "pd_vlan_mode (add_trunked_vlan E db vid p) = pd_vlan_mode p"
  "pd_native_vid (add_trunked_vlan E db vid p) = pd_native_vid p"
  "pd_trunk_all_vlans (add_trunked_vlan E db vid p) = pd_trunk_all_vlans p"
  by (simp_all add: add_trunked_vlan_def)

section \<open>The default VLAN's member test\<close>

definition port_refers_default :: "ops_utils \<Rightarrow> ovsrec_port \<Rightarrow> bool" where
  "port_refers_default U port_row =
     (if p_vlan_tag port_row \<noteq> None then ops_port_get_tag U port_row = DEFAULT_VID
      else n_vlan_trunks port_row > 0 \<and>
        list_ex (\<lambda>index. ops_port_get_trunks U port_row index = DEFAULT_VID)
          [0..<n_vlan_trunks port_row])"

definition vland_default_vlan_member_port :: "ops_utils \<Rightarrow> ovsdb \<Rightarrow> bool" where
  "vland_default_vlan_member_port U db =
     (case find (\<lambda>vlan_row. v_id vlan_row = DEFAULT_VID) (vlans db) of
        None \<Rightarrow> False
      | Some vlan_row \<Rightarrow> list_ex (port_refers_default U) (ports db))"

section \<open>State and reason\<close>

text \<open>
  The VLAN's data is an in and out parameter: for the default VLAN the function also sets
  \<open>any_member_exists\<close>. The two output pointers are the second and third component.
\<close>

definition calc_vlan_op_state_n_reason ::
  "ops_utils \<Rightarrow> ovsdb \<Rightarrow> vlan_data \<Rightarrow>
    vlan_data \<times> vlan_oper_state \<times> vlan_oper_state_reason" where
  "calc_vlan_op_state_n_reason U db new_vlan =
     (let state = VLAN_OPER_STATE_DOWN;
          (new_vlan, state) =
            (if vd_vid new_vlan = DEFAULT_VID then
               (if vland_default_vlan_member_port U db
                then new_vlan\<lparr>vd_any_member_exists := True\<rparr> else new_vlan,
                VLAN_OPER_STATE_UP)
             else (new_vlan, state))
      in if vd_admin new_vlan = VLAN_ADMIN_DOWN then
           (new_vlan, state, VLAN_OPER_STATE_REASON_ADMIN_DOWN)
         else if \<not> vd_any_member_exists new_vlan then
           (new_vlan, state, VLAN_OPER_STATE_REASON_NO_MEMBER_PORT)
         else (new_vlan, VLAN_OPER_STATE_UP, VLAN_OPER_STATE_REASON_OK))"

text \<open>
  The priority the comment above the function gives to the reasons: \<open>ok\<close> applies always,
  \<open>no_member_port\<close> to a VLAN without members, \<open>admin_down\<close> to a VLAN that is shut down, and the
  reason to show is the highest one that applies.
\<close>

fun reason_priority :: "vlan_oper_state_reason \<Rightarrow> nat" where
  "reason_priority VLAN_OPER_STATE_REASON_UNKNOWN = 0"
| "reason_priority VLAN_OPER_STATE_REASON_OK = 1"
| "reason_priority VLAN_OPER_STATE_REASON_NO_MEMBER_PORT = 2"
| "reason_priority VLAN_OPER_STATE_REASON_ADMIN_DOWN = 3"

instantiation vlan_oper_state_reason :: linorder
begin

definition less_eq_vlan_oper_state_reason ::
  "vlan_oper_state_reason \<Rightarrow> vlan_oper_state_reason \<Rightarrow> bool" where
  "less_eq_vlan_oper_state_reason r r' \<longleftrightarrow> reason_priority r \<le> reason_priority r'"

definition less_vlan_oper_state_reason ::
  "vlan_oper_state_reason \<Rightarrow> vlan_oper_state_reason \<Rightarrow> bool" where
  "less_vlan_oper_state_reason r r' \<longleftrightarrow> reason_priority r < reason_priority r'"

instance
proof
  fix r r' :: vlan_oper_state_reason
  assume "r \<le> r'" "r' \<le> r"
  then have "reason_priority r = reason_priority r'" by (simp add: less_eq_vlan_oper_state_reason_def)
  then show "r = r'" by (cases r; cases r') simp_all
qed (auto simp: less_eq_vlan_oper_state_reason_def less_vlan_oper_state_reason_def)

end

fun reason_applies :: "vlan_data \<Rightarrow> vlan_oper_state_reason \<Rightarrow> bool" where
  "reason_applies v VLAN_OPER_STATE_REASON_UNKNOWN = False"
| "reason_applies v VLAN_OPER_STATE_REASON_OK = True"
| "reason_applies v VLAN_OPER_STATE_REASON_NO_MEMBER_PORT = (\<not> vd_any_member_exists v)"
| "reason_applies v VLAN_OPER_STATE_REASON_ADMIN_DOWN = (vd_admin v = VLAN_ADMIN_DOWN)"

text \<open>
  The published table: the state and reason as a function of the VLAN id, the administrative
  state and whether the VLAN has a member.
\<close>

definition oper_table ::
  "int \<Rightarrow> vlan_admin \<Rightarrow> bool \<Rightarrow> vlan_oper_state \<times> vlan_oper_state_reason" where
  "oper_table vid adm member =
     (case adm of
        VLAN_ADMIN_DOWN \<Rightarrow>
          (if vid = DEFAULT_VID then VLAN_OPER_STATE_UP else VLAN_OPER_STATE_DOWN,
           VLAN_OPER_STATE_REASON_ADMIN_DOWN)
      | VLAN_ADMIN_UP \<Rightarrow>
          (if member then (VLAN_OPER_STATE_UP, VLAN_OPER_STATE_REASON_OK)
           else (if vid = DEFAULT_VID then VLAN_OPER_STATE_UP else VLAN_OPER_STATE_DOWN,
                 VLAN_OPER_STATE_REASON_NO_MEMBER_PORT)))"

definition effective_member :: "ops_utils \<Rightarrow> ovsdb \<Rightarrow> vlan_data \<Rightarrow> bool" where
  "effective_member U db v \<longleftrightarrow>
     vd_any_member_exists v \<or> vd_vid v = DEFAULT_VID \<and> vland_default_vlan_member_port U db"

lemma calc_vlan_op_state_n_reason_eq:
  "calc_vlan_op_state_n_reason U db v =
     (v\<lparr>vd_any_member_exists := effective_member U db v\<rparr>,
      oper_table (vd_vid v) (vd_admin v) (effective_member U db v))"
  by (cases v; cases "vd_admin v")
    (auto simp: calc_vlan_op_state_n_reason_def oper_table_def effective_member_def)

section \<open>Publishing a change\<close>

text \<open>
  \<^verbatim>\<open>handle_vlan_config\<close> reads the row behind the pointer it is given (a row that is gone is
  the \<open>None\<close> outcome), leaves VLANs used internally for L3 ports alone, and otherwise stores
  and publishes a new state or reason. It returns the VLAN's data, the writes and the
  function's result.
\<close>

definition state_writes :: "row_ref \<Rightarrow> vlan_data \<Rightarrow> db_write list" where
  "state_writes r v =
     [Vlan_Set_Hw_Vlan_Config r
        (if vd_op_state v = VLAN_OPER_STATE_UP
         then [(''enable'', VLAN_HW_CONFIG_MAP_ENABLE_TRUE)] else []),
      Vlan_Set_Oper_State r (vlan_oper_state_to_str (vd_op_state v)),
      Vlan_Set_Oper_State_Reason r (vlan_oper_state_reason_to_str (vd_op_state_reason v))]"

definition handle_vlan_config ::
  "ops_utils \<Rightarrow> ovsdb \<Rightarrow> row_ref \<Rightarrow> vlan_data \<Rightarrow> (nat \<times> vlan_data \<times> db_write list) option" where
  "handle_vlan_config U db row vptr =
     (case deref_vlan db row of
        None \<Rightarrow> None
      | Some r \<Rightarrow>
          if smap_get (v_internal_usage r) VLAN_INTERNAL_USAGE_L3PORT \<noteq> None
          then Some (0, vptr, [])
          else
            (let (vptr, new_state, new_reason) = calc_vlan_op_state_n_reason U db vptr
             in if new_state = vd_op_state vptr \<and> new_reason = vd_op_state_reason vptr
                then Some (0, vptr, [])
                else
                  (let vptr = vptr\<lparr>vd_op_state := new_state, vd_op_state_reason := new_reason\<rparr>
                   in Some (1, vptr, state_writes row vptr))))"

definition l3_internal :: "ovsrec_vlan \<Rightarrow> bool" where
  "l3_internal r \<longleftrightarrow> smap_get (v_internal_usage r) VLAN_INTERNAL_USAGE_L3PORT \<noteq> None"

text \<open>The state and reason a VLAN's data carries once it has been handled.\<close>

definition vlan_settled :: "ops_utils \<Rightarrow> ovsdb \<Rightarrow> vlan_data \<Rightarrow> bool" where
  "vlan_settled U db v \<longleftrightarrow>
     (vd_op_state v, vd_op_state_reason v) =
       oper_table (vd_vid v) (vd_admin v) (effective_member U db v)"

lemma handle_vlan_config_eq:
  "deref_vlan db row = Some r \<Longrightarrow>
   handle_vlan_config U db row v =
     (if l3_internal r then Some (0, v, [])
      else
        (let v' = v\<lparr>vd_any_member_exists := effective_member U db v,
                    vd_op_state := fst (oper_table (vd_vid v) (vd_admin v) (effective_member U db v)),
                    vd_op_state_reason :=
                      snd (oper_table (vd_vid v) (vd_admin v) (effective_member U db v))\<rparr>
         in if vlan_settled U db v then Some (0, v', [])
            else Some (1, v', state_writes row v')))"
  unfolding handle_vlan_config_def calc_vlan_op_state_n_reason_eq l3_internal_def vlan_settled_def
  by (cases v; cases "oper_table (vd_vid v) (vd_admin v) (effective_member U db v)")
    (auto simp: Let_def)

lemma handle_vlan_config_None:
  "handle_vlan_config U db row v = None \<longleftrightarrow> deref_vlan db row = None"
proof (cases "deref_vlan db row")
  case None
  then show ?thesis by (simp add: handle_vlan_config_def)
next
  case (Some r)
  then show ?thesis by (simp add: handle_vlan_config_eq Let_def)
qed

end
