(* ===== verification/Port_Cache.thy ===== *)
theory Port_Cache
  imports Oper_State
begin

text \<open>
  The port half of the daemon (\<^verbatim>\<open>src/vland_ovsdb_if.c\<close>, section \<open>Ports\<close>): the VLAN membership
  bitmap of a port row, the cached ports, and \<^verbatim>\<open>update_port_cache\<close>, which brings the cache up
  to date with the Port table and refreshes every VLAN a changed or deleted port touches.
\<close>

section \<open>The bitmap of a port row\<close>

definition row_vlan_mode :: "ovsrec_port \<Rightarrow> vlan_mode" where
  "row_vlan_mode row =
     (case p_vlan_mode row of
        Some m \<Rightarrow>
          (if m = OVSREC_PORT_VLAN_MODE_ACCESS then PORT_VLAN_MODE_ACCESS
           else if m = OVSREC_PORT_VLAN_MODE_TRUNK then PORT_VLAN_MODE_TRUNK
           else if m = OVSREC_PORT_VLAN_MODE_NATIVE_TAGGED then PORT_VLAN_MODE_NATIVE_TAGGED
           else if m = OVSREC_PORT_VLAN_MODE_NATIVE_UNTAGGED then PORT_VLAN_MODE_NATIVE_UNTAGGED
           else PORT_VLAN_MODE_TRUNK)
      | None \<Rightarrow>
          (if p_vlan_tag row \<noteq> None then PORT_VLAN_MODE_ACCESS else PORT_VLAN_MODE_TRUNK))"

definition row_native_vid :: "ops_utils \<Rightarrow> ovsrec_port \<Rightarrow> int" where
  "row_native_vid U row =
     (if p_vlan_tag row \<noteq> None \<and> row_vlan_mode row \<noteq> PORT_VLAN_MODE_TRUNK
      then c_int (ops_port_get_tag U row) else -1)"

definition construct_vlan_bitmap ::
  "'b vland_env \<Rightarrow> ovsdb \<Rightarrow> 'b \<Rightarrow> ovsrec_port \<Rightarrow> 'b port_data \<Rightarrow> 'b port_data" where
  "construct_vlan_bitmap E db all_vlans_bmp row port =
     (let vlan_mode = row_vlan_mode row;
          native_vid = row_native_vid (ops E) row;
          (vbmp, trunk_all_vlans) =
            (if n_vlan_trunks row > 0 \<and> vlan_mode \<noteq> PORT_VLAN_MODE_ACCESS then
               (vlan_bitmap_from_array (bmp E) (port_trunks (ops E) row), False)
             else if vlan_mode = PORT_VLAN_MODE_ACCESS then
               (bitmap_allocate (bmp E) (bitmap_size E), False)
             else
               (vlan_bitmap_clone (bmp E) all_vlans_bmp, check_port_in_bridge db (p_name row)));
          vbmp =
            (if VALID_VID native_vid then bitmap_set (bmp E) vbmp (c_size_t native_vid) True
             else vbmp)
      in port\<lparr>pd_vlan_mode := vlan_mode, pd_native_vid := native_vid,
              pd_vlans_bitmap := vbmp, pd_trunk_all_vlans := trunk_all_vlans\<rparr>)"

section \<open>Deleting and adding ports\<close>

text \<open>
  Handling the configuration of a cached VLAN through the pointer that is stored under its
  name: the result of \<^verbatim>\<open>handle_vlan_config\<close>, with the VLAN's data and the writes stored.
\<close>

definition configure_vlan ::
  "'b vland_env \<Rightarrow> ovsdb \<Rightarrow> row_ref \<Rightarrow> string \<Rightarrow> vlan_data \<Rightarrow> 'b vland \<Rightarrow> (nat \<times> 'b vland) option" where
  "configure_vlan E db row k vlan s =
     (case handle_vlan_config (ops E) db row vlan of
        None \<Rightarrow> None
      | Some (rc, vlan', ws) \<Rightarrow>
          Some (rc, (put_vlan k vlan' s)\<lparr>txn_writes := txn_writes s @ ws\<rparr>))"

text \<open>The body of the loop over the VLANs of a deleted port.\<close>

definition refresh_after_delete ::
  "'b vland_env \<Rightarrow> ovsdb \<Rightarrow> nat \<Rightarrow> nat \<times> 'b vland \<Rightarrow> (nat \<times> 'b vland) option" where
  "refresh_after_delete E db vid st =
     (let (rc, s) = st in
      case vlan_lookup_by_vid s (int vid) of
        None \<Rightarrow> Some (rc, s)
      | Some (k, vlan) \<Rightarrow>
          (let (vlan, s) = update_vlan_membership E db vlan s in
           case configure_vlan E db (vd_idl_cfg vlan) k vlan s of
             None \<Rightarrow> None
           | Some (n, s) \<Rightarrow> Some (if n \<noteq> 0 then Suc rc else rc, s)))"

definition del_old_port ::
  "'b vland_env \<Rightarrow> ovsdb \<Rightarrow> string \<Rightarrow> 'b vland \<Rightarrow> (nat \<times> 'b vland) option" where
  "del_old_port E db name s =
     (case shash_find_data (all_ports s) name of
        None \<Rightarrow> Some (0, s)
      | Some port \<Rightarrow>
          foldM (refresh_after_delete E db)
            (bitmap_ones (bmp E) (bitmap_size E) (pd_vlans_bitmap port))
            (0, s\<lparr>all_ports := shash_delete name (all_ports s)\<rparr>))"

definition new_port_data :: "'b vland_env \<Rightarrow> ovsrec_port \<Rightarrow> 'b port_data" where
  "new_port_data E port_row =
     \<lparr> pd_name = p_name port_row, pd_vlan_mode = PORT_VLAN_MODE_ACCESS, pd_native_vid = -1,
       pd_trunk_all_vlans = False,
       pd_vlans_bitmap = bitmap_allocate (bmp E) (bitmap_size E) \<rparr>"

definition add_new_port :: "'b vland_env \<Rightarrow> ovsrec_port \<Rightarrow> 'b vland \<Rightarrow> 'b vland" where
  "add_new_port E port_row s =
     s\<lparr>all_ports :=
         snd (shash_add_once (hash_rank E) (p_name port_row) (new_port_data E port_row) (all_ports s))\<rparr>"

section \<open>Bringing the cache up to date\<close>

definition collect_ports :: "sh_rank \<Rightarrow> ovsrec_port list \<Rightarrow> ovsrec_port shash" where
  "collect_ports rank rows = foldl (\<lambda>sh row. snd (shash_add_once rank (p_name row) row sh)) [] rows"

definition delete_stale_ports ::
  "'b vland_env \<Rightarrow> ovsdb \<Rightarrow> ovsrec_port shash \<Rightarrow> 'b vland \<Rightarrow> (nat \<times> 'b vland) option" where
  "delete_stale_ports E db sh_idl_ports s =
     foldM (\<lambda>name (rc, s).
         case shash_find_data sh_idl_ports name of
           Some row \<Rightarrow> Some (rc, s)
         | None \<Rightarrow>
             (case del_old_port E db name s of
                None \<Rightarrow> None
              | Some (n, s) \<Rightarrow> Some (if n \<noteq> 0 then Suc rc else rc, s)))
       (shash_nodes (all_ports s)) (0, s)"

definition add_missing_ports ::
  "'b vland_env \<Rightarrow> ovsrec_port shash \<Rightarrow> 'b vland \<Rightarrow> 'b vland" where
  "add_missing_ports E sh_idl_ports s =
     foldl (\<lambda>s (name, row).
         if shash_find_data (all_ports s) name = None \<and> name \<noteq> DEFAULT_BRIDGE_NAME
         then add_new_port E row s else s)
       s sh_idl_ports"

text \<open>
  One VLAN row met by the inner loop for the VLAN \<open>vid\<close>: rows with another id, and VLANs the
  cache does not know, are passed over; an L3 internal VLAN is refreshed but not configured.
\<close>

definition refresh_vlan_row ::
  "'b vland_env \<Rightarrow> ovsdb \<Rightarrow> nat \<Rightarrow> ovsrec_vlan \<Rightarrow> nat \<times> 'b vland \<Rightarrow> (nat \<times> 'b vland) option" where
  "refresh_vlan_row E db vid vlanrow st =
     (let (rc, s) = st in
      if v_id vlanrow \<noteq> int vid then Some (rc, s)
      else
        case vlan_lookup_by_vid s (int vid) of
          None \<Rightarrow> Some (rc, s)
        | Some (k, vlan) \<Rightarrow>
            (let (vlan, s) = update_vlan_membership E db vlan s in
             if smap_get (v_internal_usage vlanrow) VLAN_INTERNAL_USAGE_L3PORT \<noteq> None
             then Some (rc, put_vlan k vlan s)
             else
               case configure_vlan E db (vd_idl_cfg vlan) k vlan s of
                 None \<Rightarrow> None
               | Some (n, s) \<Rightarrow> Some (if n \<noteq> 0 then Suc rc else rc, s)))"

definition refresh_after_update ::
  "'b vland_env \<Rightarrow> ovsdb \<Rightarrow> nat \<Rightarrow> nat \<times> 'b vland \<Rightarrow> (nat \<times> 'b vland) option" where
  "refresh_after_update E db vid st = foldM (refresh_vlan_row E db vid) (vlans db) st"

text \<open>One node of \<open>all_ports\<close> met by the loop that checks for changed rows.\<close>

definition update_port ::
  "'b vland_env \<Rightarrow> ovsdb \<Rightarrow> ovsrec_port shash \<Rightarrow> string \<Rightarrow> nat \<times> 'b vland \<Rightarrow>
    (nat \<times> 'b vland) option" where
  "update_port E db sh_idl_ports name st =
     (let (rc, s) = st in
      case (shash_find_data sh_idl_ports name, shash_find_data (all_ports s) name) of
        (Some row, Some port) \<Rightarrow>
          (if row_changed db (idl_seqno s) (p_row row) then
             (let port' = construct_vlan_bitmap E db (all_vlans_bitmap s) row port;
                  modified_vlans =
                    bitmap_or (bmp E) (pd_vlans_bitmap port) (pd_vlans_bitmap port') (bitmap_size E)
              in foldM (refresh_after_update E db)
                   (bitmap_ones (bmp E) (bitmap_size E) modified_vlans)
                   (rc, put_port name port' s))
           else Some (rc, s))
      | _ \<Rightarrow> None)"

definition update_changed_ports ::
  "'b vland_env \<Rightarrow> ovsdb \<Rightarrow> ovsrec_port shash \<Rightarrow> nat \<times> 'b vland \<Rightarrow> (nat \<times> 'b vland) option" where
  "update_changed_ports E db sh_idl_ports st =
     foldM (update_port E db sh_idl_ports) (shash_nodes (all_ports (snd st))) st"

definition update_port_cache ::
  "'b vland_env \<Rightarrow> ovsdb \<Rightarrow> 'b vland \<Rightarrow> (nat \<times> 'b vland) option" where
  "update_port_cache E db s =
     (let sh_idl_ports = collect_ports (hash_rank E) (ports db) in
      case delete_stale_ports E db sh_idl_ports s of
        None \<Rightarrow> None
      | Some (rc, s) \<Rightarrow>
          update_changed_ports E db sh_idl_ports (rc, add_missing_ports E sh_idl_ports s))"

end
