(* ===== verification/Vlan_Cache.thy ===== *)
theory Vlan_Cache
  imports Port_Cache
begin

text \<open>
  The VLAN half of the daemon (\<^verbatim>\<open>src/vland_ovsdb_if.c\<close>, section \<open>VLANs\<close>): the cached VLANs and
  \<^verbatim>\<open>update_vlan_cache\<close>, which brings them up to date with the VLAN table and handles the
  configuration of every changed row.
\<close>

definition parse_vlan_data :: "ovsrec_vlan \<Rightarrow> vlan_data" where
  "parse_vlan_data data =
     \<lparr> vd_idl_cfg = v_row data, vd_name = v_name data, vd_vid = c_int (v_id data),
       vd_any_member_exists = False, vd_admin = VLAN_ADMIN_DOWN,
       vd_op_state = VLAN_OPER_STATE_UNKNOWN,
       vd_op_state_reason = VLAN_OPER_STATE_REASON_UNKNOWN \<rparr>"

definition add_new_vlan :: "'b vland_env \<Rightarrow> ovsdb \<Rightarrow> ovsrec_vlan \<Rightarrow> 'b vland \<Rightarrow> 'b vland" where
  "add_new_vlan E db vlan_row s =
     (let new_vlan = parse_vlan_data vlan_row;
          (added, sh) = shash_add_once (hash_rank E) (v_name vlan_row) new_vlan (all_vlans s)
      in if \<not> added then s
         else
           (let s = s\<lparr>all_vlans := sh,
                      all_vlans_bitmap :=
                        bitmap_set (bmp E) (all_vlans_bitmap s) (c_size_t (vd_vid new_vlan)) True\<rparr>;
                (new_vlan, s) = update_vlan_membership E db new_vlan s
            in put_vlan (v_name vlan_row) new_vlan s))"

definition untrunk_vlan :: "'b vland_env \<Rightarrow> int \<Rightarrow> 'b port_data \<Rightarrow> 'b port_data" where
  "untrunk_vlan E vid port =
     (if pd_trunk_all_vlans port
      then port\<lparr>pd_vlans_bitmap := bitmap_set (bmp E) (pd_vlans_bitmap port) (c_size_t vid) False\<rparr>
      else port)"

definition del_old_vlan :: "'b vland_env \<Rightarrow> string \<Rightarrow> 'b vland \<Rightarrow> 'b vland" where
  "del_old_vlan E name s =
     (case shash_find_data (all_vlans s) name of
        None \<Rightarrow> s
      | Some vl \<Rightarrow>
          s\<lparr>all_ports := map (\<lambda>(k, p). (k, untrunk_vlan E (vd_vid vl) p)) (all_ports s),
            all_vlans_bitmap :=
              bitmap_set (bmp E) (all_vlans_bitmap s) (c_size_t (vd_vid vl)) False,
            all_vlans := shash_delete name (all_vlans s)\<rparr>)"

section \<open>Bringing the cache up to date\<close>

definition collect_vlans :: "sh_rank \<Rightarrow> ovsrec_vlan list \<Rightarrow> ovsrec_vlan shash" where
  "collect_vlans rank rows = foldl (\<lambda>sh row. snd (shash_add_once rank (v_name row) row sh)) [] rows"

definition delete_stale_vlans ::
  "'b vland_env \<Rightarrow> ovsrec_vlan shash \<Rightarrow> 'b vland \<Rightarrow> 'b vland" where
  "delete_stale_vlans E sh_idl_vlans s =
     foldl (\<lambda>s name.
         case shash_find_data sh_idl_vlans name of
           Some row \<Rightarrow> s
         | None \<Rightarrow> del_old_vlan E name s)
       s (shash_nodes (all_vlans s))"

definition add_missing_vlans ::
  "'b vland_env \<Rightarrow> ovsdb \<Rightarrow> ovsrec_vlan shash \<Rightarrow> 'b vland \<Rightarrow> 'b vland" where
  "add_missing_vlans E db sh_idl_vlans s =
     foldl (\<lambda>s (name, row).
         case shash_find_data (all_vlans s) name of
           Some new_vlan \<Rightarrow> s
         | None \<Rightarrow> add_new_vlan E db row s)
       s sh_idl_vlans"

definition row_admin :: "ovsrec_vlan \<Rightarrow> vlan_admin" where
  "row_admin row =
     (case v_admin row of
        None \<Rightarrow> VLAN_ADMIN_DOWN
      | Some a \<Rightarrow> if OVSREC_VLAN_ADMIN_UP = a then VLAN_ADMIN_UP else VLAN_ADMIN_DOWN)"

definition update_vlan ::
  "'b vland_env \<Rightarrow> ovsdb \<Rightarrow> ovsrec_vlan shash \<Rightarrow> string \<Rightarrow> nat \<times> 'b vland \<Rightarrow>
    (nat \<times> 'b vland) option" where
  "update_vlan E db sh_idl_vlans name st =
     (let (rc, s) = st in
      case (shash_find_data sh_idl_vlans name, shash_find_data (all_vlans s) name) of
        (Some row, Some vptr) \<Rightarrow>
          (if row_changed db (idl_seqno s) (v_row row) then
             (case configure_vlan E db (v_row row) name (vptr\<lparr>vd_admin := row_admin row\<rparr>) s of
                None \<Rightarrow> None
              | Some (n, s) \<Rightarrow> Some (if n \<noteq> 0 then Suc rc else rc, s))
           else Some (rc, s))
      | _ \<Rightarrow> None)"

definition update_changed_vlans ::
  "'b vland_env \<Rightarrow> ovsdb \<Rightarrow> ovsrec_vlan shash \<Rightarrow> 'b vland \<Rightarrow> (nat \<times> 'b vland) option" where
  "update_changed_vlans E db sh_idl_vlans s =
     foldM (update_vlan E db sh_idl_vlans) (shash_nodes (all_vlans s)) (0, s)"

definition update_vlan_cache ::
  "'b vland_env \<Rightarrow> ovsdb \<Rightarrow> 'b vland \<Rightarrow> (nat \<times> 'b vland) option" where
  "update_vlan_cache E db s =
     (let sh_idl_vlans = collect_vlans (hash_rank E) (vlans db)
      in update_changed_vlans E db sh_idl_vlans
           (add_missing_vlans E db sh_idl_vlans (delete_stale_vlans E sh_idl_vlans s)))"

end
