(* ===== verification/Vland_Spec.thy ===== *)
theory Vland_Spec
  imports Vlan_Cache
begin

text \<open>
  The abstract specification of the daemon: which ports belong to a VLAN and what state a VLAN
  has, read off the database alone, and the relations between the database and the cached
  state under which the code meets it.
\<close>

section \<open>Specification over the database\<close>

definition row_trunks_all :: "ovsrec_port \<Rightarrow> bool" where
  "row_trunks_all row \<longleftrightarrow> row_vlan_mode row \<noteq> PORT_VLAN_MODE_ACCESS \<and> n_vlan_trunks row = 0"

definition row_lists :: "ops_utils \<Rightarrow> ovsrec_port \<Rightarrow> int \<Rightarrow> bool" where
  "row_lists U row vid \<longleftrightarrow>
     row_vlan_mode row \<noteq> PORT_VLAN_MODE_ACCESS \<and> vid \<in> set (port_trunks U row) \<or>
     VALID_VID (row_native_vid U row) \<and> vid = row_native_vid U row"

definition spec_member :: "ops_utils \<Rightarrow> ovsdb \<Rightarrow> ovsrec_port \<Rightarrow> int \<Rightarrow> bool" where
  "spec_member U db row vid \<longleftrightarrow>
     check_port_in_bridge db (p_name row) \<and> (row_trunks_all row \<or> row_lists U row vid)"

definition spec_any_member :: "ops_utils \<Rightarrow> ovsdb \<Rightarrow> int \<Rightarrow> bool" where
  "spec_any_member U db vid \<longleftrightarrow>
     list_ex (\<lambda>row. p_name row \<noteq> DEFAULT_BRIDGE_NAME \<and> spec_member U db row vid) (ports db)"

text \<open>The state and reason the daemon owes the VLAN row: the DESIGN document's table.\<close>

definition spec_oper :: "ops_utils \<Rightarrow> ovsdb \<Rightarrow> ovsrec_vlan \<Rightarrow>
    vlan_oper_state \<times> vlan_oper_state_reason" where
  "spec_oper U db row =
     oper_table (v_id row) (row_admin row)
       (spec_any_member U db (v_id row) \<or>
        v_id row = DEFAULT_VID \<and> vland_default_vlan_member_port U db)"

section \<open>The same, in terms of the columns alone\<close>

text \<open>
  What the three output columns of a VLAN row must show, said without any function of the
  program. A port carries a VLAN through its trunks, unless it is an access port, where an empty
  trunks column stands for all VLANs; or through its tag, unless it is a plain trunk. Only ports
  of the bridge count. The default VLAN is always up, and for it any reference from a port counts
  as well.
\<close>

definition access_row :: "ovsrec_port \<Rightarrow> bool" where
  "access_row row \<longleftrightarrow> (case p_vlan_mode row of
     None \<Rightarrow> p_vlan_tag row \<noteq> None | Some m \<Rightarrow> m = ''access'')"

definition native_row :: "ovsrec_port \<Rightarrow> bool" where
  "native_row row \<longleftrightarrow> p_vlan_mode row \<in> {Some ''native-tagged'', Some ''native-untagged''}"

definition row_carries :: "ops_utils \<Rightarrow> ovsrec_port \<Rightarrow> int \<Rightarrow> bool" where
  "row_carries U row vid \<longleftrightarrow>
     \<not> access_row row \<and> (p_vlan_trunks row = [] \<or>
       (\<exists>i < length (p_vlan_trunks row). ops_port_get_trunks U row i = vid)) \<or>
     (access_row row \<or> native_row row) \<and> p_vlan_tag row \<noteq> None \<and> c_int (ops_port_get_tag U row) = vid"

definition in_bridge :: "ovsdb \<Rightarrow> string \<Rightarrow> bool" where
  "in_bridge db name \<longleftrightarrow> systems db \<noteq> [] \<and>
     (\<exists>br \<in> set (s_bridges (hd (systems db))). \<exists>port \<in> set (b_ports br). p_name port = name)"

definition has_member :: "ops_utils \<Rightarrow> ovsdb \<Rightarrow> int \<Rightarrow> bool" where
  "has_member U db vid \<longleftrightarrow> (\<exists>row \<in> set (ports db).
     p_name row \<noteq> ''bridge_normal'' \<and> in_bridge db (p_name row) \<and> row_carries U row vid)"

definition refers_to_default :: "ops_utils \<Rightarrow> ovsrec_port \<Rightarrow> bool" where
  "refers_to_default U row \<longleftrightarrow> (case p_vlan_tag row of
     Some _ \<Rightarrow> ops_port_get_tag U row = 1
   | None \<Rightarrow> \<exists>i < length (p_vlan_trunks row). ops_port_get_trunks U row i = 1)"

definition spec_columns :: "ops_utils \<Rightarrow> ovsdb \<Rightarrow> ovsrec_vlan \<Rightarrow> smap \<times> string \<times> string" where
  "spec_columns U db row =
     (let member = has_member U db (v_id row) \<or>
            v_id row = 1 \<and> (\<exists>port \<in> set (ports db). refers_to_default U port);
          reason = (if v_admin row \<noteq> Some ''up'' then ''admin_down''
                    else if \<not> member then ''no_member_port'' else ''ok'');
          enabled = (reason = ''ok'' \<or> v_id row = 1)
      in (if enabled then [(''enable'', ''true'')] else [], if enabled then ''up'' else ''down'', reason))"

lemma access_row_mode: "access_row row \<longleftrightarrow> row_vlan_mode row = PORT_VLAN_MODE_ACCESS"
  by (simp add: access_row_def row_vlan_mode_def split: option.split)

lemma native_row_mode:
  "native_row row \<longleftrightarrow> row_vlan_mode row \<in> {PORT_VLAN_MODE_NATIVE_TAGGED, PORT_VLAN_MODE_NATIVE_UNTAGGED}"
  by (simp add: native_row_def row_vlan_mode_def split: option.split)

lemma tagged_mode: "access_row row \<or> native_row row \<longleftrightarrow> row_vlan_mode row \<noteq> PORT_VLAN_MODE_TRUNK"
  unfolding access_row_mode native_row_mode by (cases "row_vlan_mode row") simp_all

lemma in_bridge_eq: "check_port_in_bridge db name \<longleftrightarrow> in_bridge db name"
  by (simp add: check_port_in_bridge_def in_bridge_def ovsrec_system_first_def list_ex_iff split: list.split)

lemma in_port_trunks:
  "vid \<in> set (port_trunks U row) \<longleftrightarrow> (\<exists>i < length (p_vlan_trunks row). ops_port_get_trunks U row i = vid)"
  by (auto simp: port_trunks_def n_vlan_trunks_def)

lemma row_carries_eq: "VALID_VID vid \<Longrightarrow> row_carries U row vid \<longleftrightarrow> row_trunks_all row \<or> row_lists U row vid"
  unfolding row_carries_def tagged_mode in_port_trunks [symmetric] row_trunks_all_def row_lists_def
  by (auto simp: access_row_mode row_native_vid_def n_vlan_trunks_def VALID_VID_def)

lemma has_member_eq: "VALID_VID vid \<Longrightarrow> has_member U db vid \<longleftrightarrow> spec_any_member U db vid"
  by (auto simp: has_member_def spec_any_member_def spec_member_def list_ex_iff in_bridge_eq row_carries_eq)

lemma refers_to_default_eq: "refers_to_default U row \<longleftrightarrow> port_refers_default U row"
  by (auto simp: refers_to_default_def port_refers_default_def list_ex_iff n_vlan_trunks_def DEFAULT_VID_def
      split: option.split)

lemma default_member_eq:
  assumes "row \<in> set (vlans db)" and "v_id row = DEFAULT_VID"
  shows "vland_default_vlan_member_port U db \<longleftrightarrow> (\<exists>port \<in> set (ports db). refers_to_default U port)"
proof -
  have "find (\<lambda>vlan_row. v_id vlan_row = DEFAULT_VID) (vlans db) \<noteq> None"
    using assms by (auto simp: find_None)
  then show ?thesis by (auto simp: vland_default_vlan_member_port_def list_ex_iff refers_to_default_eq)
qed

text \<open>
  What the schema guarantees of the replica: names identify ports and VLANs, and VLAN rows
  have distinct ids in 1..4094.
\<close>

definition wf_db :: "ovsdb \<Rightarrow> bool" where
  "wf_db db \<longleftrightarrow> distinct (map p_name (ports db)) \<and> distinct (map v_name (vlans db)) \<and>
     distinct (map v_id (vlans db)) \<and> distinct (map v_row (vlans db)) \<and>
     (\<forall>row \<in> set (vlans db). VALID_VID (v_id row))"

section \<open>The cached state\<close>

abbreviation port_at :: "'b vland \<Rightarrow> string \<Rightarrow> 'b port_data option" where
  "port_at s k \<equiv> shash_find_data (all_ports s) k"

abbreviation vlan_at :: "'b vland \<Rightarrow> string \<Rightarrow> vlan_data option" where
  "vlan_at s k \<equiv> shash_find_data (all_vlans s) k"

abbreviation port_bits :: "'b vland_env \<Rightarrow> 'b port_data \<Rightarrow> nat set" where
  "port_bits E p \<equiv> bits (bmp E) (pd_vlans_bitmap p)"

abbreviation env_ok :: "'b vland_env \<Rightarrow> bool" where
  "env_ok E \<equiv> bitmap_laws (bmp E)"

definition known_vids :: "'b vland \<Rightarrow> nat set" where
  "known_vids s = {nat (vd_vid v) | k v. vlan_at s k = Some v}"

text \<open>The well-formedness invariant of the caches, on its own.\<close>

definition cache_ok :: "'b vland_env \<Rightarrow> 'b vland \<Rightarrow> bool" where
  "cache_ok E s \<longleftrightarrow>
     shash_ok (all_ports s) \<and> shash_ok (all_vlans s) \<and>
     (\<forall>k p. port_at s k = Some p \<longrightarrow> pd_name p = k \<and> k \<noteq> DEFAULT_BRIDGE_NAME) \<and>
     (\<forall>k v. vlan_at s k = Some v \<longrightarrow> vd_name v = k \<and> VALID_VID (vd_vid v)) \<and>
     (\<forall>k k' v v'. vlan_at s k = Some v \<longrightarrow> vlan_at s k' = Some v' \<longrightarrow>
        vd_vid v = vd_vid v' \<longrightarrow> k = k') \<and>
     bits (bmp E) (all_vlans_bitmap s) = known_vids s"

lemma known_vids_ports [simp]: "known_vids (s\<lparr>all_ports := ps\<rparr>) = known_vids s"
  by (simp add: known_vids_def)

lemma cache_okD:
  assumes "cache_ok E s"
  shows "shash_ok (all_ports s)" "shash_ok (all_vlans s)"
    "port_at s k = Some p \<Longrightarrow> pd_name p = k" "port_at s k = Some p \<Longrightarrow> k \<noteq> DEFAULT_BRIDGE_NAME"
    "vlan_at s k = Some v \<Longrightarrow> vd_name v = k" "vlan_at s k = Some v \<Longrightarrow> VALID_VID (vd_vid v)"
    "vlan_at s k = Some v \<Longrightarrow> vlan_at s k' = Some v' \<Longrightarrow> vd_vid v = vd_vid v' \<Longrightarrow> k = k'"
    "bits (bmp E) (all_vlans_bitmap s) = known_vids s"
  using assms unfolding cache_ok_def by blast+

lemma cache_ok_ports:
  assumes "cache_ok E s" and "shash_ok ps"
    and "\<And>k p. shash_find_data ps k = Some p \<Longrightarrow> pd_name p = k \<and> k \<noteq> DEFAULT_BRIDGE_NAME"
  shows "cache_ok E (s\<lparr>all_ports := ps\<rparr>)"
proof -
  note D = cache_okD [OF assms(1)]
  have "\<forall>k k' v v'. vlan_at s k = Some v \<longrightarrow> vlan_at s k' = Some v' \<longrightarrow> vd_vid v = vd_vid v' \<longrightarrow> k = k'"
    using D(7) by blast
  moreover have "all_ports (s\<lparr>all_ports := ps\<rparr>) = ps" "all_vlans (s\<lparr>all_ports := ps\<rparr>) = all_vlans s"
    "all_vlans_bitmap (s\<lparr>all_ports := ps\<rparr>) = all_vlans_bitmap s" by simp_all
  ultimately show ?thesis
    using assms(2,3) D(2,5,6,8) unfolding cache_ok_def by (simp only: known_vids_ports) blast
qed

text \<open>A port that trunks all VLANs has the bit of every known VLAN.\<close>

definition trunks_covered :: "'b vland_env \<Rightarrow> 'b vland \<Rightarrow> bool" where
  "trunks_covered E s \<longleftrightarrow>
     (\<forall>k p. port_at s k = Some p \<longrightarrow> pd_trunk_all_vlans p \<longrightarrow> known_vids s \<subseteq> port_bits E p)"

text \<open>
  Row identity is stable: a row that shares the name, the id or the address of a cached VLAN
  shares all three.
\<close>

definition linked :: "ovsdb \<Rightarrow> 'b vland \<Rightarrow> bool" where
  "linked db s \<longleftrightarrow>
     (\<forall>k v. vlan_at s k = Some v \<longrightarrow>
        (\<forall>row \<in> set (vlans db).
           v_name row = k \<or> v_id row = vd_vid v \<or> v_row row = vd_idl_cfg v \<longrightarrow>
           v_name row = k \<and> v_id row = vd_vid v \<and> v_row row = vd_idl_cfg v))"

lemma linked_ports [simp]: "linked db (s\<lparr>all_ports := ps\<rparr>) = linked db s"
  by (simp add: linked_def)

lemma linkedD:
  assumes "linked db s" and "vlan_at s k = Some v" and "row \<in> set (vlans db)"
    and "v_name row = k \<or> v_id row = vd_vid v \<or> v_row row = vd_idl_cfg v"
  shows "v_name row = k" "v_id row = vd_vid v" "v_row row = vd_idl_cfg v"
  using assms unfolding linked_def by blast+

definition live :: "ovsdb \<Rightarrow> vlan_data \<Rightarrow> bool" where
  "live db v \<longleftrightarrow> (\<exists>row \<in> set (vlans db). v_row row = vd_idl_cfg v)"

text \<open>A cached port agrees with its row.\<close>

definition port_synced :: "'b vland_env \<Rightarrow> ovsdb \<Rightarrow> ovsrec_port \<Rightarrow> 'b port_data \<Rightarrow> bool" where
  "port_synced E db row p \<longleftrightarrow>
     pd_trunk_all_vlans p = (row_trunks_all row \<and> check_port_in_bridge db (p_name row)) \<and>
     (\<not> row_trunks_all row \<longrightarrow>
        port_bits E p = {i. i < bitmap_size E \<and> row_lists (ops E) row (int i)})"

text \<open>
  A cached VLAN's membership flag agrees with the cached ports; for the default VLAN the flag
  may also stand for the default member test.
\<close>

definition member_ok :: "'b vland_env \<Rightarrow> ovsdb \<Rightarrow> 'b vland \<Rightarrow> vlan_data \<Rightarrow> bool" where
  "member_ok E db s v \<longleftrightarrow>
     (any_cached_member E db s (vd_vid v) \<longrightarrow> vd_any_member_exists v) \<and>
     (vd_any_member_exists v \<longrightarrow> any_cached_member E db s (vd_vid v) \<or>
        vd_vid v = DEFAULT_VID \<and> vland_default_vlan_member_port (ops E) db)"

definition state_ok :: "'b vland_env \<Rightarrow> ovsdb \<Rightarrow> vlan_data \<Rightarrow> bool" where
  "state_ok E db v \<longleftrightarrow>
     (\<forall>row. deref_vlan db (vd_idl_cfg v) = Some row \<longrightarrow> \<not> l3_internal row \<longrightarrow>
        vlan_settled (ops E) db v)"

section \<open>Rewriting with the specification\<close>

lemma deref_vlan_Some:
  "wf_db db \<Longrightarrow> deref_vlan db r = Some row \<longleftrightarrow> row \<in> set (vlans db) \<and> v_row row = r"
proof
  assume "deref_vlan db r = Some row"
  then show "row \<in> set (vlans db) \<and> v_row row = r"
    by (auto simp: deref_vlan_def dest: find_SomeD)
next
  assume "wf_db db" "row \<in> set (vlans db) \<and> v_row row = r"
  then show "deref_vlan db r = Some row"
    using find_key [of v_row "vlans db" row] by (auto simp: deref_vlan_def wf_db_def)
qed

lemma live_deref: "live db v \<longleftrightarrow> (\<exists>row. deref_vlan db (vd_idl_cfg v) = Some row)"
proof -
  have "deref_vlan db (vd_idl_cfg v) \<noteq> None \<longleftrightarrow> live db v"
    by (auto simp: deref_vlan_def live_def find_None)
  then show ?thesis by auto
qed

lemma find_in_set: "shash_ok sh \<Longrightarrow> shash_find_data sh k = Some x \<longleftrightarrow> (k, x) \<in> set sh"
  by (simp add: shash_ok_def shash_find_data_def)

lemma any_cached_member_at:
  "shash_ok (all_ports s) \<Longrightarrow>
     any_cached_member E db s vid \<longleftrightarrow> (\<exists>k p. port_at s k = Some p \<and> cached_member E db vid p)"
  by (auto simp: any_cached_member_def find_in_set)

lemma find_map_values:
  "shash_find_data (map (\<lambda>(k, p). (k, f p)) sh) k = map_option f (shash_find_data sh k)"
  by (induction sh) (auto simp: shash_find_data_def)

lemma nodes_map_values [simp]: "shash_nodes (map (\<lambda>(k, p). (k, f p)) sh) = shash_nodes sh"
  by (induction sh) (auto simp: shash_nodes_def)

lemma shash_ok_nodes: "shash_ok sh = distinct (shash_nodes sh)"
  by (simp add: shash_ok_def shash_nodes_def)

lemma shash_ok_map_values [simp]: "shash_ok (map (\<lambda>(k, p). (k, f p)) sh) = shash_ok sh"
  by (simp only: shash_ok_nodes nodes_map_values)

lemma shash_nodes_put [simp]: "shash_nodes (shash_put k v sh) = shash_nodes sh"
  by (simp add: shash_nodes_def)

lemma shash_ok_put [simp]: "shash_ok (shash_put k v sh) = shash_ok sh"
  by (simp add: shash_ok_def)

lemma find_put:
  "shash_find_data (shash_put k v sh) k' =
     (if k' = k \<and> shash_find_data sh k \<noteq> None then Some v else shash_find_data sh k')"
  by (rule sd.lookup_put)

lemma lookup_by_vid_Some:
  assumes "cache_ok E s"
  shows "vlan_lookup_by_vid s vid = Some (k, v) \<longleftrightarrow> vlan_at s k = Some v \<and> vd_vid v = vid"
proof
  assume "vlan_lookup_by_vid s vid = Some (k, v)"
  then show "vlan_at s k = Some v \<and> vd_vid v = vid"
    using assms vlan_lookup_by_vid_SomeD [of s vid k v] by (auto simp: cache_ok_def find_in_set)
next
  assume *: "vlan_at s k = Some v \<and> vd_vid v = vid"
  have ok: "shash_ok (all_vlans s)" using assms by (simp add: cache_ok_def)
  show "vlan_lookup_by_vid s vid = Some (k, v)"
    unfolding vlan_lookup_by_vid_def
  proof (rule find_unique)
    show "(k, v) \<in> set (all_vlans s)" using * ok by (simp add: find_in_set)
    show "vd_vid (snd (k, v)) = vid" using * by simp
    fix n assume n: "n \<in> set (all_vlans s)" "vd_vid (snd n) = vid"
    then have "vlan_at s (fst n) = Some (snd n)" using ok by (simp add: find_in_set)
    with * n assms have "fst n = k" unfolding cache_ok_def by metis
    with \<open>vlan_at s (fst n) = Some (snd n)\<close> * show "n = (k, v)" by (cases n) simp
  qed
qed

lemma lookup_by_vid_None:
  assumes "cache_ok E s"
  shows "vlan_lookup_by_vid s vid = None \<longleftrightarrow> (\<forall>k v. vlan_at s k = Some v \<longrightarrow> vd_vid v \<noteq> vid)"
proof -
  have "shash_ok (all_vlans s)" using assms by (simp add: cache_ok_def)
  then show ?thesis by (auto simp: vlan_lookup_by_vid_None find_in_set)
qed

end
