(* ===== verification/Refresh.thy ===== *)
theory Refresh
  imports Vland_Spec
begin

text \<open>
  Refreshing VLANs. Both halves of \<^verbatim>\<open>update_port_cache\<close> walk over the VLANs of a bitmap and
  refresh each: recompute its membership, then handle its configuration. The contract they
  share is the locale \<open>vlan_refresh\<close>; its client lemma says what a whole walk achieves. Both
  loop bodies of the code are shown to keep the contract.
\<close>

section \<open>What a refresh may change\<close>

definition port_le :: "'b vland_env \<Rightarrow> 'b port_data \<Rightarrow> 'b port_data \<Rightarrow> bool" where
  "port_le E p p' \<longleftrightarrow> p' = p \<or>
     pd_trunk_all_vlans p \<and>
     (\<exists>b. p' = p\<lparr>pd_vlans_bitmap := b\<rparr> \<and> port_bits E p \<subseteq> bits (bmp E) b)"

definition vlan_le :: "vlan_data \<Rightarrow> vlan_data \<Rightarrow> bool" where
  "vlan_le v v' \<longleftrightarrow> vd_idl_cfg v' = vd_idl_cfg v \<and> vd_name v' = vd_name v \<and>
     vd_vid v' = vd_vid v \<and> vd_admin v' = vd_admin v"

definition shape :: "'b vland_env \<Rightarrow> 'b vland \<Rightarrow> 'b vland \<Rightarrow> bool" where
  "shape E s t \<longleftrightarrow>
     shash_nodes (all_ports t) = shash_nodes (all_ports s) \<and>
     shash_nodes (all_vlans t) = shash_nodes (all_vlans s) \<and>
     (\<forall>k. rel_option (port_le E) (port_at s k) (port_at t k)) \<and>
     (\<forall>k. rel_option vlan_le (vlan_at s k) (vlan_at t k)) \<and>
     all_vlans_bitmap t = all_vlans_bitmap s \<and> idl_seqno t = idl_seqno s \<and>
     system_configured t = system_configured s \<and>
     default_vlan_created t = default_vlan_created s"

lemma port_le_refl [simp]: "port_le E p p"
  by (simp add: port_le_def)

lemma port_le_trans: "port_le E p q \<Longrightarrow> port_le E q r \<Longrightarrow> port_le E p r"
  unfolding port_le_def by (elim disjE conjE exE) (simp_all, blast+)

lemma vlan_le_refl [simp]: "vlan_le v v"
  by (simp add: vlan_le_def)

lemma vlan_le_trans: "vlan_le u v \<Longrightarrow> vlan_le v w \<Longrightarrow> vlan_le u w"
  by (simp add: vlan_le_def)

lemma rel_option_transI:
  assumes "\<And>x y z. R x y \<Longrightarrow> R y z \<Longrightarrow> R x z"
    and "rel_option R a b" and "rel_option R b c"
  shows "rel_option R a c"
proof -
  have "transp R" using assms(1) by (rule transpI)
  then have "transp (rel_option R)" by (rule option.rel_transp)
  from this assms(2,3) show ?thesis by (rule transpD)
qed

lemma shape_refl [simp]: "shape E s s"
  by (simp add: shape_def option.rel_refl)

lemma shape_trans: "shape E s t \<Longrightarrow> shape E t u \<Longrightarrow> shape E s u"
proof -
  assume st: "shape E s t" and tu: "shape E t u"
  have "rel_option (port_le E) (port_at s k) (port_at u k)" for k
  proof (rule rel_option_transI)
    show "rel_option (port_le E) (port_at s k) (port_at t k)" using st by (simp add: shape_def)
    show "rel_option (port_le E) (port_at t k) (port_at u k)" using tu by (simp add: shape_def)
  qed (rule port_le_trans, assumption+)
  moreover have "rel_option vlan_le (vlan_at s k) (vlan_at u k)" for k
  proof (rule rel_option_transI)
    show "rel_option vlan_le (vlan_at s k) (vlan_at t k)" using st by (simp add: shape_def)
    show "rel_option vlan_le (vlan_at t k) (vlan_at u k)" using tu by (simp add: shape_def)
  qed (rule vlan_le_trans, assumption+)
  ultimately show ?thesis using st tu by (simp add: shape_def)
qed

lemma shape_port:
  "shape E s t \<Longrightarrow> port_at t k = Some p' \<Longrightarrow> \<exists>p. port_at s k = Some p \<and> port_le E p p'"
  unfolding shape_def by (metis option_rel_Some2)

lemma shape_port':
  "shape E s t \<Longrightarrow> port_at s k = Some p \<Longrightarrow> \<exists>p'. port_at t k = Some p' \<and> port_le E p p'"
  unfolding shape_def by (metis option_rel_Some1)

lemma shape_vlan:
  "shape E s t \<Longrightarrow> vlan_at t k = Some v' \<Longrightarrow> \<exists>v. vlan_at s k = Some v \<and> vlan_le v v'"
  unfolding shape_def by (metis option_rel_Some2)

lemma shape_vlan':
  "shape E s t \<Longrightarrow> vlan_at s k = Some v \<Longrightarrow> \<exists>v'. vlan_at t k = Some v' \<and> vlan_le v v'"
  unfolding shape_def by (metis option_rel_Some1)

lemma rel_option_None_iff: "rel_option R x y \<Longrightarrow> y = None \<longleftrightarrow> x = None"
  by (cases x; cases y) auto

lemma shape_port_None: "shape E s t \<Longrightarrow> port_at t k = None \<longleftrightarrow> port_at s k = None"
  by (rule rel_option_None_iff [of "port_le E"]) (simp add: shape_def)

lemma shape_vlan_None: "shape E s t \<Longrightarrow> vlan_at t k = None \<longleftrightarrow> vlan_at s k = None"
  by (rule rel_option_None_iff [of vlan_le]) (simp add: shape_def)

lemma port_le_fields:
  "port_le E p p' \<Longrightarrow> pd_name p' = pd_name p \<and> pd_trunk_all_vlans p' = pd_trunk_all_vlans p \<and>
     port_bits E p \<subseteq> port_bits E p' \<and> (\<not> pd_trunk_all_vlans p \<longrightarrow> p' = p)"
  by (auto simp: port_le_def)

lemma cached_member_le: "port_le E p p' \<Longrightarrow> cached_member E db vid p' = cached_member E db vid p"
  by (auto simp: port_le_def cached_member_def)

lemma shape_known_vids: "shape E s t \<Longrightarrow> known_vids t = known_vids s"
proof
  assume sh: "shape E s t"
  show "known_vids t \<subseteq> known_vids s"
    using shape_vlan [OF sh] by (fastforce simp: known_vids_def vlan_le_def)
  show "known_vids s \<subseteq> known_vids t"
  proof
    fix i assume "i \<in> known_vids s"
    then obtain k v where "vlan_at s k = Some v" "i = nat (vd_vid v)" by (auto simp: known_vids_def)
    moreover from shape_vlan' [OF sh this(1)] obtain v' where "vlan_at t k = Some v'" "vlan_le v v'"
      by blast
    ultimately have "vlan_at t k = Some v' \<and> i = nat (vd_vid v')" by (simp add: vlan_le_def)
    then show "i \<in> known_vids t" unfolding known_vids_def by blast
  qed
qed

lemma shape_cache_ok:
  assumes "shape E s t" and "cache_ok E s"
  shows "cache_ok E t"
proof -
  have ok: "shash_ok (all_ports t)" "shash_ok (all_vlans t)"
    using assms by (auto simp: shape_def cache_ok_def shash_ok_nodes)
  have ports: "pd_name p = k \<and> k \<noteq> DEFAULT_BRIDGE_NAME" if "port_at t k = Some p" for k p
  proof -
    from shape_port [OF assms(1) that] obtain q where "port_at s k = Some q" "port_le E q p"
      by blast
    with assms(2) port_le_fields [of E q p] show ?thesis by (simp add: cache_ok_def)
  qed
  have vlans: "vd_name v = k \<and> VALID_VID (vd_vid v)" if "vlan_at t k = Some v" for k v
  proof -
    from shape_vlan [OF assms(1) that] obtain u where "vlan_at s k = Some u" "vlan_le u v"
      by blast
    with assms(2) show ?thesis by (simp add: cache_ok_def vlan_le_def)
  qed
  have uniq: "k = k'" if "vlan_at t k = Some v" "vlan_at t k' = Some v'" "vd_vid v = vd_vid v'"
    for k k' v v'
  proof -
    from shape_vlan [OF assms(1) that(1)] obtain u where u: "vlan_at s k = Some u" "vlan_le u v"
      by blast
    from shape_vlan [OF assms(1) that(2)] obtain u' where u': "vlan_at s k' = Some u'" "vlan_le u' v'"
      by blast
    have "vd_vid u = vd_vid u'" using u u' that(3) by (simp add: vlan_le_def)
    with u(1) u'(1) assms(2) show ?thesis unfolding cache_ok_def by blast
  qed
  have "bits (bmp E) (all_vlans_bitmap t) = known_vids t"
    using assms by (simp add: shape_known_vids) (simp add: shape_def cache_ok_def)
  with ok ports vlans show ?thesis
    unfolding cache_ok_def by (intro conjI allI impI) (simp_all, rule uniq)
qed

lemma shape_linked: "shape E s t \<Longrightarrow> linked db s \<Longrightarrow> linked db t"
proof -
  assume sh: "shape E s t" and "linked db s"
  show ?thesis unfolding linked_def
  proof (intro allI impI)
    fix k v' assume "vlan_at t k = Some v'"
    with shape_vlan [OF sh] obtain v where "vlan_at s k = Some v" "vlan_le v v'" by blast
    then have eq: "vd_vid v' = vd_vid v" "vd_idl_cfg v' = vd_idl_cfg v" by (simp_all add: vlan_le_def)
    from \<open>linked db s\<close> \<open>vlan_at s k = Some v\<close> show "\<forall>row \<in> set (vlans db).
        v_name row = k \<or> v_id row = vd_vid v' \<or> v_row row = vd_idl_cfg v' \<longrightarrow>
        v_name row = k \<and> v_id row = vd_vid v' \<and> v_row row = vd_idl_cfg v'"
      unfolding eq linked_def by blast
  qed
qed

lemma shape_trunks_covered:
  assumes "shape E s t" and "trunks_covered E s"
  shows "trunks_covered E t"
  unfolding trunks_covered_def
proof (intro allI impI)
  fix k p' assume "port_at t k = Some p'" "pd_trunk_all_vlans p'"
  with shape_port [OF assms(1)] obtain p where "port_at s k = Some p" "port_le E p p'" by blast
  with \<open>pd_trunk_all_vlans p'\<close> assms show "known_vids t \<subseteq> port_bits E p'"
    using port_le_fields [of E p p'] by (auto simp: trunks_covered_def shape_known_vids)
qed

lemma shape_any_cached_member:
  assumes "shape E s t" and "cache_ok E s"
  shows "any_cached_member E db t vid = any_cached_member E db s vid"
proof -
  have ok: "shash_ok (all_ports s)" "shash_ok (all_ports t)"
    using assms shape_cache_ok [OF assms] by (simp_all add: cache_ok_def)
  show ?thesis unfolding any_cached_member_at [OF ok(1)] any_cached_member_at [OF ok(2)]
  proof
    assume "\<exists>k p. port_at t k = Some p \<and> cached_member E db vid p"
    then obtain k p where "port_at t k = Some p" "cached_member E db vid p" by blast
    with shape_port [OF assms(1)] cached_member_le
    show "\<exists>k p. port_at s k = Some p \<and> cached_member E db vid p" by blast
  next
    assume "\<exists>k p. port_at s k = Some p \<and> cached_member E db vid p"
    then obtain k p where "port_at s k = Some p" "cached_member E db vid p" by blast
    with shape_port' [OF assms(1)] cached_member_le
    show "\<exists>k p. port_at t k = Some p \<and> cached_member E db vid p" by blast
  qed
qed

section \<open>One refresh\<close>

lemma handle_vlan_config_effect:
  assumes "deref_vlan db row = Some r"
  obtains n v' ws where "handle_vlan_config U db row v = Some (n, v', ws)"
    and "vlan_le v v'" and "\<not> l3_internal r \<Longrightarrow> vlan_settled U db v'"
    and "vd_any_member_exists v' = vd_any_member_exists v \<or>
      vd_any_member_exists v' = effective_member U db v"
    and "l3_internal r \<Longrightarrow> v' = v"
    and "n = 0 \<longleftrightarrow> ws = []"
    and "ws = [] \<or> ws = state_writes row v'"
proof -
  show ?thesis
  proof (cases "l3_internal r")
    case True
    with assms that [of 0 v "[]"] show ?thesis by (simp add: handle_vlan_config_eq)
  next
    case False
    let ?e = "effective_member U db v"
    let ?t = "oper_table (vd_vid v) (vd_admin v) ?e"
    let ?v' = "v\<lparr>vd_any_member_exists := ?e, vd_op_state := fst ?t, vd_op_state_reason := snd ?t\<rparr>"
    have e: "effective_member U db ?v' = ?e" by (auto simp: effective_member_def)
    have "vlan_settled U db ?v'" unfolding vlan_settled_def e by simp
    with False assms show ?thesis
      by (intro that [of "if vlan_settled U db v then 0 else 1" ?v'
            "if vlan_settled U db v then [] else state_writes row ?v'"])
        (simp_all add: handle_vlan_config_eq Let_def vlan_le_def state_writes_def)
  qed
qed

text \<open>The membership pass keeps the shape of the state.\<close>

lemma add_trunked_vlan_le:
  assumes "env_ok E" and "VALID_VID vid"
  shows "port_le E p (add_trunked_vlan E db vid p)"
  using assms valid_vid_size [OF assms]
  by (auto simp: port_le_def add_trunked_vlan_def bitmap_simps)

lemma update_vlan_membership_shape:
  assumes "env_ok E" and "VALID_VID (vd_vid v)"
  shows "shape E s (snd (update_vlan_membership E db v s))"
  using add_trunked_vlan_le [OF assms]
  by (auto simp: update_vlan_membership_eq shape_def find_map_values option.rel_map
      intro: option.rel_refl_strong option.rel_refl)

lemma put_vlan_shape:
  assumes "vlan_at s k = Some v" and "vlan_le v v'"
  shows "shape E s ((put_vlan k v' s)\<lparr>txn_writes := ws\<rparr>)"
  using assms by (auto simp: shape_def frame_simps find_put intro: option.rel_refl)

lemma shape_txn_writes [simp]: "shape E s (t\<lparr>txn_writes := ws\<rparr>) = shape E s t"
  by (simp add: shape_def)

text \<open>
  Membership and configuration of one live VLAN: the run succeeds, the shape is kept, the VLAN
  ends with a correct flag and a settled state, and every other VLAN's data is untouched.
\<close>

lemma refresh_one:
  assumes env: "env_ok E" and ok: "cache_ok E s" and v: "vlan_at s k = Some v"
    and r: "deref_vlan db (vd_idl_cfg v) = Some r"
    and upd: "update_vlan_membership E db v s = (v1, s1)"
  obtains n v' ws where
    "configure_vlan E db (vd_idl_cfg v1) k v1 s1 =
      Some (n, (put_vlan k v' s1)\<lparr>txn_writes := txn_writes s1 @ ws\<rparr>)"
    "vlan_le v v'" "member_ok E db s v'" "state_ok E db v'"
proof -
  let ?acm = "any_cached_member E db s (vd_vid v)"
  have v1: "v1 = v\<lparr>vd_any_member_exists := ?acm\<rparr>"
    using upd by (simp add: update_vlan_membership_eq)
  then have r1: "deref_vlan db (vd_idl_cfg v1) = Some r" using r by simp
  obtain n v' ws where h: "handle_vlan_config (ops E) db (vd_idl_cfg v1) v1 = Some (n, v', ws)"
    and le: "vlan_le v1 v'" and set: "\<not> l3_internal r \<Longrightarrow> vlan_settled (ops E) db v'"
    and any: "vd_any_member_exists v' = vd_any_member_exists v1 \<or>
      vd_any_member_exists v' = effective_member (ops E) db v1"
    by (rule handle_vlan_config_effect [OF r1]) blast
  from le v1 have le': "vlan_le v v'" by (simp add: vlan_le_def)
  have "member_ok E db s v'"
    using any le' by (auto simp: member_ok_def v1 effective_member_def vlan_le_def)
  moreover have "state_ok E db v'"
    using set le' r by (auto simp: state_ok_def vlan_le_def)
  ultimately show thesis
    using h le' by (intro that) (auto simp: configure_vlan_def)
qed

section \<open>The contract and its client\<close>

text \<open>
  \<open>good g st vid\<close> says that the facet \<open>g\<close> of the VLAN is right in the state. A refresh makes
  every facet of its VLAN right and keeps each facet of each other VLAN as right as it was.
\<close>

locale vlan_refresh =
  fixes refresh :: "nat \<Rightarrow> 'st \<Rightarrow> 'st option"
    and inv :: "'st \<Rightarrow> bool"
    and ready :: "'st \<Rightarrow> nat \<Rightarrow> bool"
    and good :: "'g \<Rightarrow> 'st \<Rightarrow> nat \<Rightarrow> bool"
  assumes refresh_step: "inv st \<Longrightarrow> ready st vid \<Longrightarrow>
    \<exists>st'. refresh vid st = Some st' \<and> inv st' \<and> (\<forall>g. good g st' vid) \<and>
      (\<forall>g w. good g st w \<longrightarrow> good g st' w) \<and> (\<forall>w. ready st w \<longrightarrow> ready st' w)"
begin

text \<open>A walk over a list of VLANs returns, makes each of them good, and spoils no other.\<close>

lemma refresh_all:
  "inv st \<Longrightarrow> \<forall>v \<in> set vids. ready st v \<Longrightarrow>
    \<exists>st'. foldM refresh vids st = Some st' \<and> inv st' \<and> (\<forall>v \<in> set vids. \<forall>g. good g st' v) \<and>
      (\<forall>g w. good g st w \<longrightarrow> good g st' w)"
proof (induction vids arbitrary: st)
  case Nil
  then show ?case by simp
next
  case (Cons v vids)
  from refresh_step [of st v] Cons.prems obtain st1 where st1: "refresh v st = Some st1" "inv st1"
    "\<forall>g. good g st1 v" "\<forall>g w. good g st w \<longrightarrow> good g st1 w" "\<forall>w. ready st w \<longrightarrow> ready st1 w"
    by auto
  with Cons.IH [of st1] Cons.prems obtain st2 where "foldM refresh vids st1 = Some st2" "inv st2"
    "\<forall>v \<in> set vids. \<forall>g. good g st2 v" "\<forall>g w. good g st1 w \<longrightarrow> good g st2 w"
    by auto
  with st1 show ?case by auto
qed

end

section \<open>The code's loop bodies keep the contract\<close>

datatype facet = Member | State

fun facet_ok :: "'b vland_env \<Rightarrow> ovsdb \<Rightarrow> facet \<Rightarrow> 'b vland \<Rightarrow> vlan_data \<Rightarrow> bool" where
  "facet_ok E db Member s v = member_ok E db s v"
| "facet_ok E db State s v = state_ok E db v"

definition refresh_inv :: "'b vland_env \<Rightarrow> ovsdb \<Rightarrow> 'b vland \<Rightarrow> nat \<times> 'b vland \<Rightarrow> bool" where
  "refresh_inv E db s0 st \<longleftrightarrow>
     env_ok E \<and> wf_db db \<and> cache_ok E (snd st) \<and> linked db (snd st) \<and> shape E s0 (snd st)"

definition vid_live :: "ovsdb \<Rightarrow> nat \<times> 'b vland \<Rightarrow> nat \<Rightarrow> bool" where
  "vid_live db st vid \<longleftrightarrow>
     (\<forall>k v. vlan_at (snd st) k = Some v \<longrightarrow> vd_vid v = int vid \<longrightarrow> live db v)"

definition vid_good :: "'b vland_env \<Rightarrow> ovsdb \<Rightarrow> facet \<Rightarrow> nat \<times> 'b vland \<Rightarrow> nat \<Rightarrow> bool" where
  "vid_good E db g st vid \<longleftrightarrow>
     (\<forall>k v. vlan_at (snd st) k = Some v \<longrightarrow> vd_vid v = int vid \<longrightarrow> live db v \<longrightarrow>
        facet_ok E db g (snd st) v)"

lemma facet_ok_shape:
  assumes "shape E s t" and "cache_ok E s"
  shows "facet_ok E db g t v = facet_ok E db g s v"
  by (cases g) (simp_all add: member_ok_def shape_any_cached_member [OF assms])

lemma shape_refresh_inv:
  "refresh_inv E db s0 st \<Longrightarrow> shape E (snd st) (snd st') \<Longrightarrow> refresh_inv E db s0 st'"
  by (auto simp: refresh_inv_def intro: shape_cache_ok shape_linked shape_trans)

lemma shape_vid_live:
  assumes "shape E (snd st) (snd st')" and "vid_live db st w"
  shows "vid_live db st' w"
  unfolding vid_live_def
proof (intro allI impI)
  fix k v' assume "vlan_at (snd st') k = Some v'" "vd_vid v' = int w"
  with shape_vlan [OF assms(1)] obtain v where "vlan_at (snd st) k = Some v" "vlan_le v v'" by blast
  with assms(2) \<open>vd_vid v' = int w\<close> show "live db v'"
    by (auto simp: vid_live_def vlan_le_def live_def)
qed

text \<open>The state after one refresh: everything the contract asks.\<close>

lemma refresh_one_contract:
  assumes inv: "refresh_inv E db s0 (rc, s)" and v: "vlan_at s k = Some v" "vd_vid v = int vid"
    and s': "shape E s s'" "vlan_at s' k = Some v'" "member_ok E db s v'" "state_ok E db v'"
    and others: "\<And>k'. k' \<noteq> k \<Longrightarrow> vlan_at s' k' = vlan_at s k'"
  shows "refresh_inv E db s0 (rc', s') \<and> (\<forall>g. vid_good E db g (rc', s') vid) \<and>
    (\<forall>g w. vid_good E db g (rc, s) w \<longrightarrow> vid_good E db g (rc', s') w) \<and>
    (\<forall>w. vid_live db (rc, s) w \<longrightarrow> vid_live db (rc', s') w)"
proof -
  have ok: "cache_ok E s" using inv by (simp add: refresh_inv_def)
  have ok': "cache_ok E s'" by (rule shape_cache_ok [OF s'(1) ok])
  have le: "vlan_le v v'" using shape_vlan [OF s'(1,2)] v by simp
  have v'_ok: "facet_ok E db g s v'" for g using s' by (cases g) simp_all
  have "vid_good E db g (rc', s') vid" for g
    unfolding vid_good_def
  proof (intro allI impI)
    fix k1 v1 assume a: "vlan_at (snd (rc', s')) k1 = Some v1" "vd_vid v1 = int vid"
    with ok' s'(2) le v(2) have "k1 = k" by (auto simp: cache_ok_def vlan_le_def)
    with a s' v'_ok show "facet_ok E db g (snd (rc', s')) v1"
      by (simp add: facet_ok_shape [OF s'(1) ok])
  qed
  note good = this
  have "vid_good E db g (rc', s') w" if w: "vid_good E db g (rc, s) w" for g w
  proof (cases "w = vid")
    case True
    with good show ?thesis by simp
  next
    case False
    show ?thesis unfolding vid_good_def
    proof (intro allI impI)
      fix k1 v1 assume a: "vlan_at (snd (rc', s')) k1 = Some v1" "vd_vid v1 = int w" "live db v1"
      with False s'(2) le v(2) have "k1 \<noteq> k" by (auto simp: vlan_le_def)
      with a others have "vlan_at s k1 = Some v1" by simp
      with w a show "facet_ok E db g (snd (rc', s')) v1"
        by (simp add: vid_good_def facet_ok_shape [OF s'(1) ok])
    qed
  qed
  with good shape_refresh_inv [OF inv, of "(rc', s')"] shape_vid_live [of E "(rc, s)" "(rc', s')"] s'(1)
  show ?thesis by simp
qed

text \<open>One VLAN refreshed by the code: membership, then configuration.\<close>

lemma refresh_configured:
  assumes inv: "refresh_inv E db s0 (rc, s)" and v: "vlan_at s k = Some v" "vd_vid v = int vid"
    and r: "deref_vlan db (vd_idl_cfg v) = Some r"
  shows "\<exists>n s'. configure_vlan E db (vd_idl_cfg v) k (fst (update_vlan_membership E db v s))
      (snd (update_vlan_membership E db v s)) = Some (n, s') \<and>
    refresh_inv E db s0 (rc', s') \<and> (\<forall>g. vid_good E db g (rc', s') vid) \<and>
    (\<forall>g w. vid_good E db g (rc, s) w \<longrightarrow> vid_good E db g (rc', s') w) \<and>
    (\<forall>w. vid_live db (rc, s) w \<longrightarrow> vid_live db (rc', s') w)"
proof -
  have env: "env_ok E" and ok: "cache_ok E s" using inv by (simp_all add: refresh_inv_def)
  have vid: "VALID_VID (vd_vid v)" using ok v(1) by (simp add: cache_ok_def)
  obtain v1 s1 where upd: "update_vlan_membership E db v s = (v1, s1)" by fastforce
  have s1: "shape E s s1" using update_vlan_membership_shape [OF env vid, of s db] upd by simp
  have eq: "all_vlans s1 = all_vlans s" "vd_idl_cfg v1 = vd_idl_cfg v"
    using upd by (auto simp: update_vlan_membership_eq)
  from refresh_one [OF env ok v(1) r upd] obtain n v' ws where c:
    "configure_vlan E db (vd_idl_cfg v1) k v1 s1 =
      Some (n, (put_vlan k v' s1)\<lparr>txn_writes := txn_writes s1 @ ws\<rparr>)"
    and v': "vlan_le v v'" "member_ok E db s v'" "state_ok E db v'"
    by blast
  let ?s' = "(put_vlan k v' s1)\<lparr>txn_writes := txn_writes s1 @ ws\<rparr>"
  have "shape E s1 ?s'" by (rule put_vlan_shape) (use v(1) v'(1) eq in simp_all)
  with s1 have "shape E s ?s'" by (rule shape_trans)
  moreover have "vlan_at ?s' k = Some v'" using v(1) eq by (simp add: frame_simps find_put)
  ultimately have "refresh_inv E db s0 (rc', ?s') \<and> (\<forall>g. vid_good E db g (rc', ?s') vid) \<and>
      (\<forall>g w. vid_good E db g (rc, s) w \<longrightarrow> vid_good E db g (rc', ?s') w) \<and>
      (\<forall>w. vid_live db (rc, s) w \<longrightarrow> vid_live db (rc', ?s') w)"
    using v' eq by (intro refresh_one_contract [OF inv v]) (simp_all add: frame_simps find_put)
  with c upd eq show ?thesis by auto
qed

interpretation del: vlan_refresh "refresh_after_delete E db" "refresh_inv E db s0" "vid_live db"
    "vid_good E db" for E db s0
proof unfold_locales
  fix st vid assume inv: "refresh_inv E db s0 st" and live: "vid_live db st vid"
  obtain rc s where st: "st = (rc, s)" by fastforce
  have ok: "cache_ok E s" and wf: "wf_db db" using inv st by (simp_all add: refresh_inv_def)
  let ?goal = "\<lambda>st'. refresh_after_delete E db vid st = Some st' \<and> refresh_inv E db s0 st' \<and>
    (\<forall>g. vid_good E db g st' vid) \<and> (\<forall>g w. vid_good E db g st w \<longrightarrow> vid_good E db g st' w) \<and>
    (\<forall>w. vid_live db st w \<longrightarrow> vid_live db st' w)"
  show "\<exists>st'. ?goal st'"
  proof (cases "vlan_lookup_by_vid s (int vid)")
    case None
    then have "\<forall>k v. vlan_at s k = Some v \<longrightarrow> vd_vid v \<noteq> int vid"
      by (simp only: lookup_by_vid_None [OF ok])
    with None have "?goal st" using inv st by (simp add: refresh_after_delete_def vid_good_def)
    then show ?thesis ..
  next
    case (Some kv)
    then obtain k v where kv: "vlan_lookup_by_vid s (int vid) = Some (k, v)" by (cases kv) auto
    then have v: "vlan_at s k = Some v" "vd_vid v = int vid" by (simp_all add: lookup_by_vid_Some [OF ok])
    then obtain r where r: "deref_vlan db (vd_idl_cfg v) = Some r"
      using live st by (auto simp: vid_live_def live_deref)
    obtain v1 s1 where upd: "update_vlan_membership E db v s = (v1, s1)" by fastforce
    then have v1: "vd_idl_cfg v1 = vd_idl_cfg v" by (auto simp: update_vlan_membership_eq)
    from refresh_configured [OF inv [unfolded st] v r, of rc] upd obtain n s' where
      c: "configure_vlan E db (vd_idl_cfg v) k v1 s1 = Some (n, s')" by auto
    from refresh_configured [OF inv [unfolded st] v r, of "if n \<noteq> 0 then Suc rc else rc"] upd c
    have "?goal (if n \<noteq> 0 then Suc rc else rc, s')"
      unfolding st by (simp add: refresh_after_delete_def kv v1)
    then show ?thesis ..
  qed
qed

text \<open>
  The update loop's body walks over the VLAN rows; ids are distinct, so one row at most is not
  passed over.
\<close>

lemma refresh_after_update_eq:
  assumes "wf_db db"
  shows "refresh_after_update E db vid st =
    (case find (\<lambda>row. v_id row = int vid) (vlans db) of
       None \<Rightarrow> Some st
     | Some row \<Rightarrow> refresh_vlan_row E db vid row st)"
proof (cases "find (\<lambda>row. v_id row = int vid) (vlans db)")
  case None
  then have "foldM (refresh_vlan_row E db vid) (vlans db) st = Some st"
    by (intro foldM_skip) (auto simp: find_None refresh_vlan_row_def split: prod.splits)
  with None show ?thesis by (simp add: refresh_after_update_def)
next
  case (Some row)
  then have row: "row \<in> set (vlans db)" "v_id row = int vid" by (auto dest: find_SomeD)
  then obtain pre post where split: "vlans db = pre @ row # post" by (auto simp: in_set_conv_decomp)
  have "distinct (map v_id (pre @ row # post))" using assms split by (simp add: wf_db_def)
  then have other: "v_id x \<noteq> int vid" if "x \<in> set pre \<union> set post" for x
    using that row(2) by (force simp: image_iff)
  have "foldM (refresh_vlan_row E db vid) pre st = Some st"
    "foldM (refresh_vlan_row E db vid) post st' = Some st'" for st'
    using other by (auto intro!: foldM_skip simp: refresh_vlan_row_def split: prod.splits)
  then show ?thesis
    by (simp add: refresh_after_update_def split foldM_append Some [unfolded split] split: option.splits)
qed

interpretation upd: vlan_refresh "refresh_after_update E db" "refresh_inv E db s0" "\<lambda>_ _. True"
    "vid_good E db" for E db s0
proof unfold_locales
  fix st vid assume inv: "refresh_inv E db s0 st"
  obtain rc s where st: "st = (rc, s)" by fastforce
  have ok: "cache_ok E s" and wf: "wf_db db" and lnk: "linked db s" and env: "env_ok E"
    using inv st by (simp_all add: refresh_inv_def)
  let ?goal = "\<lambda>st'. refresh_after_update E db vid st = Some st' \<and> refresh_inv E db s0 st' \<and>
    (\<forall>g. vid_good E db g st' vid) \<and> (\<forall>g w. vid_good E db g st w \<longrightarrow> vid_good E db g st' w)"
  have "\<exists>st'. ?goal st'"
  proof (cases "find (\<lambda>row. v_id row = int vid) (vlans db)")
    case None
    have "\<not> live db v" if "vlan_at s k = Some v" "vd_vid v = int vid" for k v
    proof
      assume "live db v"
      then obtain row where "row \<in> set (vlans db)" "v_row row = vd_idl_cfg v"
        by (auto simp: live_def)
      with linkedD(2) [OF lnk that(1)] None that(2) show False by (auto simp: find_None)
    qed
    then have "?goal st" using inv st None
      by (auto simp: refresh_after_update_eq [OF wf] vid_good_def)
    then show ?thesis ..
  next
    case (Some row)
    then have row: "row \<in> set (vlans db)" "v_id row = int vid" by (auto dest: find_SomeD)
    show ?thesis
    proof (cases "vlan_lookup_by_vid s (int vid)")
      case None
      then have "\<forall>k v. vlan_at s k = Some v \<longrightarrow> vd_vid v \<noteq> int vid"
        by (simp only: lookup_by_vid_None [OF ok])
      with None have "?goal st" using inv st Some row by (simp add: refresh_after_update_eq [OF wf]
          refresh_vlan_row_def vid_good_def)
      then show ?thesis ..
    next
      case (Some kv)
      then obtain k v where kv: "vlan_lookup_by_vid s (int vid) = Some (k, v)" by (cases kv) auto
      then have v: "vlan_at s k = Some v" "vd_vid v = int vid"
        by (simp_all add: lookup_by_vid_Some [OF ok])
      with row have "v_row row = vd_idl_cfg v" using linkedD(3) [OF lnk v(1) row(1)] by simp
      with row wf have r: "deref_vlan db (vd_idl_cfg v) = Some row" by (simp add: deref_vlan_Some)
      have vid: "VALID_VID (vd_vid v)" using ok v(1) by (simp add: cache_ok_def)
      obtain v1 s1 where upd: "update_vlan_membership E db v s = (v1, s1)" by fastforce
      then have v1: "vd_idl_cfg v1 = vd_idl_cfg v" "vlan_le v v1"
        "vd_any_member_exists v1 = any_cached_member E db s (vd_vid v1)"
        and eq: "all_vlans s1 = all_vlans s"
        by (auto simp: update_vlan_membership_eq vlan_le_def)
      have s1: "shape E s s1" using update_vlan_membership_shape [OF env vid, of s db] upd by simp
      note find_row = \<open>find (\<lambda>row. v_id row = int vid) (vlans db) = Some row\<close>
      show ?thesis
      proof (cases "l3_internal row")
        case True
        have sh: "shape E s (put_vlan k v1 s1)"
          using shape_trans [OF s1 put_vlan_shape [of s1 k v v1 E "txn_writes s1"]] v(1) v1 eq
          by (simp add: put_vlan_def)
        have "member_ok E db s v1" using v1 by (simp add: member_ok_def)
        moreover have "state_ok E db v1" using r True v1 by (simp add: state_ok_def)
        ultimately have "?goal (rc, put_vlan k v1 s1)"
          using refresh_one_contract [OF inv [unfolded st] v sh, of v1 rc] v(1) eq True row
          by (simp add: refresh_after_update_eq [OF wf] find_row st refresh_vlan_row_def kv upd
              l3_internal_def frame_simps find_put)
        then show ?thesis ..
      next
        case False
        from refresh_configured [OF inv [unfolded st] v r, of rc] upd obtain n s' where
          c: "configure_vlan E db (vd_idl_cfg v) k v1 s1 = Some (n, s')" by auto
        from refresh_configured [OF inv [unfolded st] v r, of "if n \<noteq> 0 then Suc rc else rc"] upd c
          False row
        have "?goal (if n \<noteq> 0 then Suc rc else rc, s')"
          by (simp add: refresh_after_update_eq [OF wf] find_row st refresh_vlan_row_def kv
              l3_internal_def v1)
        then show ?thesis ..
      qed
    qed
  qed
  then show "\<exists>st'. refresh_after_update E db vid st = Some st' \<and> refresh_inv E db s0 st' \<and>
    (\<forall>g. vid_good E db g st' vid) \<and> (\<forall>g w. vid_good E db g st w \<longrightarrow> vid_good E db g st' w) \<and>
    (\<forall>w. True \<longrightarrow> True)" by simp
qed

end
