(* ===== verification/Port_Sync.thy ===== *)
theory Port_Sync
  imports Refresh
begin

text \<open>
  \<^verbatim>\<open>update_port_cache\<close> keeps the cached state in step with the database. The invariant
  \<open>tracked E db n P s\<close> allows a set \<open>P\<close> of ports whose change has not been processed yet: only
  VLANs that such a port touches may be out of date. Each step of the code takes one port out
  of \<open>P\<close>; when the function returns, \<open>P\<close> is empty.
\<close>

section \<open>The bitmap of a port row meets its specification\<close>

lemma port_trunks_Nil: "port_trunks U row = [] \<longleftrightarrow> n_vlan_trunks row = 0"
  by (simp add: port_trunks_def)

lemma construct_vlan_bitmap_fields:
  "pd_name (construct_vlan_bitmap E db b row p) = pd_name p"
  "pd_vlan_mode (construct_vlan_bitmap E db b row p) = row_vlan_mode row"
  "pd_native_vid (construct_vlan_bitmap E db b row p) = row_native_vid (ops E) row"
  "pd_trunk_all_vlans (construct_vlan_bitmap E db b row p) =
     (row_trunks_all row \<and> check_port_in_bridge db (p_name row))"
  by (auto simp: construct_vlan_bitmap_def Let_def row_trunks_all_def)

lemma construct_vlan_bitmap_bits:
  assumes "env_ok E"
  shows "port_bits E (construct_vlan_bitmap E db b row p) =
    (if row_trunks_all row then bits (bmp E) b \<union>
       (if VALID_VID (row_native_vid (ops E) row) then {nat (row_native_vid (ops E) row)} else {})
     else {i. i < bitmap_size E \<and> row_lists (ops E) row (int i)})"
proof -
  let ?nv = "row_native_vid (ops E) row"
  have nv: "nat ?nv < VLAN_BITMAP_SIZE (bmp E)" "c_size_t ?nv = nat ?nv" "0 \<le> ?nv"
    if "VALID_VID ?nv"
    using that valid_vid_size [OF assms that] by (simp_all add: VALID_VID_def)
  have ne: "port_trunks (ops E) row \<noteq> []" if "n_vlan_trunks row > 0"
    using that by (simp add: port_trunks_Nil)
  consider (trunks) "n_vlan_trunks row > 0" "row_vlan_mode row \<noteq> PORT_VLAN_MODE_ACCESS"
    | (access) "row_vlan_mode row = PORT_VLAN_MODE_ACCESS"
    | (all) "n_vlan_trunks row = 0" "row_vlan_mode row \<noteq> PORT_VLAN_MODE_ACCESS"
    by auto
  then show ?thesis
  proof cases
    case trunks
    then show ?thesis using nv ne assms
      by (auto simp: construct_vlan_bitmap_def Let_def row_trunks_all_def row_lists_def
          bitmap_simps bitmap_size_def)
  next
    case access
    then show ?thesis using nv assms
      by (auto simp: construct_vlan_bitmap_def Let_def row_trunks_all_def row_lists_def
          bitmap_simps bitmap_size_def)
  next
    case all
    then show ?thesis using nv assms
      by (auto simp: construct_vlan_bitmap_def Let_def row_trunks_all_def
          bitmap_simps bitmap_size_def)
  qed
qed

lemma construct_vlan_bitmap_synced:
  assumes "env_ok E"
  shows "port_synced E db row (construct_vlan_bitmap E db b row p)"
  by (simp add: port_synced_def construct_vlan_bitmap_fields construct_vlan_bitmap_bits [OF assms])

lemma port_synced_le: "port_synced E db row p \<Longrightarrow> port_le E p p' \<Longrightarrow> port_synced E db row p'"
  by (auto simp: port_synced_def port_le_def)

section \<open>The tracking invariant\<close>

text \<open>
  A port touches a VLAN when the VLAN is in the bitmap it has now or in the one its row will
  give it.
\<close>

definition touches :: "'b vland_env \<Rightarrow> ovsdb \<Rightarrow> 'b vland \<Rightarrow> string \<Rightarrow> vlan_data \<Rightarrow> bool" where
  "touches E db s k v \<longleftrightarrow>
     (\<exists>p. port_at s k = Some p \<and> nat (vd_vid v) \<in> port_bits E p) \<or>
     k \<noteq> DEFAULT_BRIDGE_NAME \<and>
       (\<exists>row \<in> set (ports db). p_name row = k \<and> row_lists (ops E) row (vd_vid v))"

definition covered :: "'b vland_env \<Rightarrow> ovsdb \<Rightarrow> string set \<Rightarrow> 'b vland \<Rightarrow> vlan_data \<Rightarrow> bool" where
  "covered E db P s v \<longleftrightarrow> (\<exists>k \<in> P. touches E db s k v)"

definition vlan_tracked ::
  "'b vland_env \<Rightarrow> ovsdb \<Rightarrow> 32 word \<Rightarrow> string set \<Rightarrow> 'b vland \<Rightarrow> vlan_data \<Rightarrow> ovsrec_vlan \<Rightarrow> bool" where
  "vlan_tracked E db n P s v row \<longleftrightarrow>
     (member_ok E db s v \<or> covered E db P s v) \<and>
     (state_ok E db v \<or> covered E db P s v \<or> row_changed db n (v_row row)) \<and>
     (vd_admin v = row_admin row \<or> row_changed db n (v_row row))"

definition port_row_named :: "ovsdb \<Rightarrow> string \<Rightarrow> bool" where
  "port_row_named db k \<longleftrightarrow> (\<exists>row \<in> set (ports db). p_name row = k)"

definition changed_ports :: "ovsdb \<Rightarrow> 32 word \<Rightarrow> string set" where
  "changed_ports db n = {k. \<exists>row \<in> set (ports db). p_name row = k \<and> row_changed db n (p_row row)}"

definition deleted_ports :: "ovsdb \<Rightarrow> string set" where
  "deleted_ports db = {k. \<not> port_row_named db k}"

definition tracked ::
  "'b vland_env \<Rightarrow> ovsdb \<Rightarrow> 32 word \<Rightarrow> string set \<Rightarrow> 'b vland \<Rightarrow> bool" where
  "tracked E db n P s \<longleftrightarrow>
     cache_ok E s \<and> linked db s \<and> trunks_covered E s \<and> idl_seqno s = n \<and>
     (\<forall>k p. port_at s k = Some p \<longrightarrow> k \<notin> P \<longrightarrow>
        (\<exists>row \<in> set (ports db). p_name row = k \<and> port_synced E db row p)) \<and>
     (\<forall>row \<in> set (vlans db). vlan_at s (v_name row) = None \<longrightarrow> row_changed db n (v_row row)) \<and>
     (\<forall>row \<in> set (ports db). p_name row \<noteq> DEFAULT_BRIDGE_NAME \<longrightarrow>
        port_at s (p_name row) = None \<longrightarrow> row_changed db n (p_row row)) \<and>
     (\<forall>k v. vlan_at s k = Some v \<longrightarrow>
        (\<forall>row \<in> set (vlans db). v_row row = vd_idl_cfg v \<longrightarrow> vlan_tracked E db n P s v row))"

text \<open>
  No port is deleted together with one of its VLANs: the pointer the daemon keeps for the VLAN
  would no longer be valid when \<^verbatim>\<open>del_old_port\<close> reads through it.
\<close>

definition no_dangling :: "'b vland_env \<Rightarrow> ovsdb \<Rightarrow> 'b vland \<Rightarrow> bool" where
  "no_dangling E db s \<longleftrightarrow>
     (\<forall>k p. port_at s k = Some p \<longrightarrow> \<not> port_row_named db k \<longrightarrow>
        (\<forall>k' v. vlan_at s k' = Some v \<longrightarrow> nat (vd_vid v) \<in> port_bits E p \<longrightarrow> live db v))"

lemma trackedD:
  assumes "tracked E db n P s"
  shows "cache_ok E s" "linked db s" "trunks_covered E s" "idl_seqno s = n"
    "port_at s k = Some p \<Longrightarrow> k \<notin> P \<Longrightarrow>
      \<exists>row \<in> set (ports db). p_name row = k \<and> port_synced E db row p"
    "row \<in> set (vlans db) \<Longrightarrow> vlan_at s (v_name row) = None \<Longrightarrow> row_changed db n (v_row row)"
    "prow \<in> set (ports db) \<Longrightarrow> p_name prow \<noteq> DEFAULT_BRIDGE_NAME \<Longrightarrow>
      port_at s (p_name prow) = None \<Longrightarrow> row_changed db n (p_row prow)"
    "vlan_at s k = Some v \<Longrightarrow> row \<in> set (vlans db) \<Longrightarrow> v_row row = vd_idl_cfg v \<Longrightarrow>
      vlan_tracked E db n P s v row"
  using assms unfolding tracked_def by blast+

text \<open>A port whose bitmap lacks a known VLAN is not a member of it.\<close>

lemma not_cached_member:
  assumes "env_ok E" and "cache_ok E s" and "vlan_at s k' = Some v"
    and "pd_trunk_all_vlans p \<Longrightarrow> known_vids s \<subseteq> port_bits E p"
    and "nat (vd_vid v) \<notin> port_bits E p"
  shows "\<not> cached_member E db (vd_vid v) p"
proof -
  have vid: "VALID_VID (vd_vid v)" using assms(2,3) by (simp add: cache_ok_def)
  have "nat (vd_vid v) \<in> known_vids s" using assms(3) by (auto simp: known_vids_def)
  then have "\<not> pd_trunk_all_vlans p" using assms(4,5) by blast
  moreover have "\<not> bitmap_is_set (bmp E) (pd_vlans_bitmap p) (c_size_t (vd_vid v))"
    using assms(5) valid_vid_size [OF assms(1) vid] vid by (simp add: bitmap_is_set_bits)
  ultimately show ?thesis by (simp add: cached_member_def)
qed

text \<open>Two tables that differ in one port, which is not a member in either.\<close>

lemma any_cached_member_except:
  assumes "shash_ok (all_ports s)" and "shash_ok (all_ports t)"
    and "\<And>k'. k' \<noteq> k \<Longrightarrow> port_at t k' = port_at s k'"
    and "\<And>p. port_at s k = Some p \<Longrightarrow> \<not> cached_member E db vid p"
    and "\<And>p. port_at t k = Some p \<Longrightarrow> \<not> cached_member E db vid p"
  shows "any_cached_member E db t vid = any_cached_member E db s vid"
  unfolding any_cached_member_at [OF assms(1)] any_cached_member_at [OF assms(2)]
  using assms(3-5) by metis

lemma touches_same:
  "port_at t k = port_at s k \<Longrightarrow> touches E db t k v = touches E db s k v"
  by (simp add: touches_def)

lemma shape_covered:
  assumes "shape E s t" and "covered E db P s v" and "vd_vid v' = vd_vid v"
  shows "covered E db P t v'"
proof -
  have "touches E db t k v'" if "touches E db s k v" for k
    unfolding touches_def assms(3)
  proof (cases "\<exists>p. port_at s k = Some p \<and> nat (vd_vid v) \<in> port_bits E p")
    case True
    then obtain p where p: "port_at s k = Some p" "nat (vd_vid v) \<in> port_bits E p" by blast
    from shape_port' [OF assms(1) p(1)] obtain p' where "port_at t k = Some p'" "port_le E p p'"
      by blast
    with p(2) port_le_fields [of E p p'] have
      "\<exists>p. port_at t k = Some p \<and> nat (vd_vid v) \<in> port_bits E p" by blast
    then show "(\<exists>p. port_at t k = Some p \<and> nat (vd_vid v) \<in> port_bits E p) \<or>
        k \<noteq> DEFAULT_BRIDGE_NAME \<and>
          (\<exists>row \<in> set (ports db). p_name row = k \<and> row_lists (ops E) row (vd_vid v))" ..
  next
    case False
    with that show "(\<exists>p. port_at t k = Some p \<and> nat (vd_vid v) \<in> port_bits E p) \<or>
        k \<noteq> DEFAULT_BRIDGE_NAME \<and>
          (\<exists>row \<in> set (ports db). p_name row = k \<and> row_lists (ops E) row (vd_vid v))"
      unfolding touches_def by blast
  qed
  with assms(2) show ?thesis by (auto simp: covered_def)
qed

text \<open>
  The common step: the ports of \<open>s\<close> change to those of \<open>s1\<close>, then the VLANs in \<open>M\<close> are
  refreshed. Membership and coverage of the VLANs outside \<open>M\<close> are not affected.
\<close>

lemma vlan_tracked_transfer:
  assumes sh: "shape E s1 s'" and ok1: "cache_ok E s1" and same: "all_vlans s1 = all_vlans s"
    and good: "\<forall>vid \<in> M. \<forall>g. vid_good E db g (rc', s') vid"
    and pres: "\<forall>g w. vid_good E db g (rc, s1) w \<longrightarrow> vid_good E db g (rc', s') w"
    and mem: "\<And>k v. vlan_at s k = Some v \<Longrightarrow> nat (vd_vid v) \<notin> M \<Longrightarrow>
      any_cached_member E db s1 (vd_vid v) = any_cached_member E db s (vd_vid v)"
    and cov: "\<And>k v. vlan_at s k = Some v \<Longrightarrow> nat (vd_vid v) \<notin> M \<Longrightarrow> covered E db P s v \<Longrightarrow>
      covered E db P' s1 v"
    and old: "\<And>k v row. vlan_at s k = Some v \<Longrightarrow> row \<in> set (vlans db) \<Longrightarrow>
      v_row row = vd_idl_cfg v \<Longrightarrow> vlan_tracked E db n P s v row"
    and v': "vlan_at s' k = Some v'" and row: "row \<in> set (vlans db)" "v_row row = vd_idl_cfg v'"
  shows "vlan_tracked E db n P' s' v' row"
proof -
  from shape_vlan [OF sh v'] same obtain v where v: "vlan_at s k = Some v" "vlan_le v v'" by auto
  then have eq: "vd_vid v' = vd_vid v" "vd_idl_cfg v' = vd_idl_cfg v" "vd_admin v' = vd_admin v"
    by (simp_all add: vlan_le_def)
  have "VALID_VID (vd_vid v)" using ok1 v(1) same by (simp add: cache_ok_def)
  then have vid: "vd_vid v = int (nat (vd_vid v))" by (simp add: VALID_VID_def)
  have live: "live db v" "live db v'" using row eq by (auto simp: live_def)
  have tr: "vlan_tracked E db n P s v row" using old [OF v(1) row(1)] row(2) eq by simp
  have uniq: "k1 = k" if "vlan_at s1 k1 = Some u" "vd_vid u = vd_vid v" for k1 u
    using that ok1 v(1) same unfolding cache_ok_def by metis
  show ?thesis
  proof (cases "nat (vd_vid v) \<in> M")
    case True
    then have "facet_ok E db g s' v'" for g
      using good v' eq vid live by (auto simp: vid_good_def)
    from this [of Member] this [of State] tr eq show ?thesis by (simp add: vlan_tracked_def)
  next
    case False
    have step: "facet_ok E db g s' v'" if "facet_ok E db g s1 v" for g
    proof -
      have "vid_good E db g (rc, s1) (nat (vd_vid v))"
        using that uniq v(1) same vid unfolding vid_good_def by auto
      then have "vid_good E db g (rc', s') (nat (vd_vid v))" using pres by blast
      with v' eq vid live show ?thesis by (auto simp: vid_good_def)
    qed
    have "member_ok E db s1 v = member_ok E db s v"
      using mem [OF v(1) False] by (simp add: member_ok_def)
    then have "member_ok E db s v \<Longrightarrow> member_ok E db s' v'" "state_ok E db v \<Longrightarrow> state_ok E db v'"
      using step [of Member] step [of State] by simp_all
    moreover have "covered E db P s v \<Longrightarrow> covered E db P' s' v'"
      using cov [OF v(1) False] shape_covered [OF sh _ eq(1)] by blast
    ultimately show ?thesis using tr eq by (auto simp: vlan_tracked_def)
  qed
qed

section \<open>Deleting stale ports\<close>

lemma find_collect_ports:
  "shash_find_data (collect_ports rank rows) k = find (\<lambda>r. p_name r = k) rows"
  using sd.lookup_collect [where name = p_name and dat = "\<lambda>r. r" and t = "[]" and rank = rank]
  by (simp add: collect_ports_def option.map_ident shash_find_data_def [of "[]"])

lemma shash_ok_collect_ports [simp]: "shash_ok (collect_ports rank rows)"
  unfolding collect_ports_def by (rule sd.ok_collect) simp

lemma find_named: "find (\<lambda>r. p_name r = k) (ports db) = None \<longleftrightarrow> \<not> port_row_named db k"
  by (auto simp: port_row_named_def find_None)

lemma shape_bits_known:
  assumes "shape E s1 s'" and "trunks_covered E s1" and "port_at s1 k = Some p"
    and "port_at s' k = Some p'" and "i \<in> known_vids s1"
  shows "i \<in> port_bits E p' \<longleftrightarrow> i \<in> port_bits E p"
proof -
  from shape_port [OF assms(1,4)] assms(3) have le: "port_le E p p'" by simp
  show ?thesis
  proof (cases "pd_trunk_all_vlans p")
    case True
    with assms(2,3,5) have "i \<in> port_bits E p" by (auto simp: trunks_covered_def)
    with port_le_fields [OF le] show ?thesis by blast
  next
    case False
    with port_le_fields [OF le] show ?thesis by simp
  qed
qed

lemma shape_no_dangling:
  assumes sh: "shape E s1 s'" and "trunks_covered E s1" and nd: "no_dangling E db s1"
  shows "no_dangling E db s'"
  unfolding no_dangling_def
proof (intro allI impI)
  fix k p' k' v'
  assume a: "port_at s' k = Some p'" "\<not> port_row_named db k" "vlan_at s' k' = Some v'"
    "nat (vd_vid v') \<in> port_bits E p'"
  from shape_port [OF sh a(1)] obtain p where p: "port_at s1 k = Some p" by blast
  from shape_vlan [OF sh a(3)] obtain v where v: "vlan_at s1 k' = Some v" "vlan_le v v'" by blast
  have "nat (vd_vid v) \<in> known_vids s1" using v(1) by (auto simp: known_vids_def)
  then have "nat (vd_vid v) \<in> port_bits E p"
    using shape_bits_known [OF sh assms(2) p a(1)] a(4) v(2) by (simp add: vlan_le_def)
  then have "live db v" using nd a(2) p v(1) unfolding no_dangling_def by blast
  with v(2) show "live db v'" by (simp add: live_def vlan_le_def)
qed

lemma del_old_port_tracked:
  assumes env: "env_ok E" and wf: "wf_db db" and tr: "tracked E db n P s"
    and p: "port_at s k = Some p" and del: "\<not> port_row_named db k" and nd: "no_dangling E db s"
  shows "\<exists>rc s'. del_old_port E db k s = Some (rc, s') \<and> tracked E db n (P - {k}) s' \<and>
    no_dangling E db s' \<and> (\<forall>k'. port_at s' k' = None \<longleftrightarrow> k' = k \<or> port_at s k' = None)"
proof -
  let ?s1 = "s\<lparr>all_ports := shash_delete k (all_ports s)\<rparr>"
  note tD = trackedD [OF tr]
  have at1: "port_at ?s1 k' = (if k' = k then None else port_at s k')" for k'
    by (simp add: sd.lookup_delete)
  have ok1: "cache_ok E ?s1"
    using cache_okD(1,3,4) [OF tD(1)]
    by (intro cache_ok_ports [OF tD(1)]) (auto simp: sd.lookup_delete sd.ok_delete split: if_splits)
  have cov1: "trunks_covered E ?s1"
    using tD(3) by (auto simp: trunks_covered_def sd.lookup_delete split: if_splits)
  have lnk1: "linked db ?s1" using tD(2) by simp
  have nd1: "no_dangling E db ?s1"
    unfolding no_dangling_def
  proof (intro allI impI)
    fix k1 p1 k2 v assume a: "port_at ?s1 k1 = Some p1" "\<not> port_row_named db k1"
      "vlan_at ?s1 k2 = Some v" "nat (vd_vid v) \<in> port_bits E p1"
    from a(1) have "port_at s k1 = Some p1" unfolding at1 by (simp split: if_split_asm)
    moreover from a(3) have "vlan_at s k2 = Some v" by simp
    ultimately show "live db v" using a(2,4) nd unfolding no_dangling_def by blast
  qed
  let ?M = "port_bits E p"
  have inv: "refresh_inv E db ?s1 (0, ?s1)" using env wf ok1 lnk1 by (simp add: refresh_inv_def)
  have ready: "\<forall>vid \<in> set (bitmap_ones (bmp E) (bitmap_size E) (pd_vlans_bitmap p)).
      vid_live db (0, ?s1) vid"
    using nd p del env by (auto simp: vid_live_def no_dangling_def bitmap_simps bitmap_size_def)
  from del.refresh_all [OF inv ready] env obtain rc s' where
    run: "foldM (refresh_after_delete E db)
        (bitmap_ones (bmp E) (bitmap_size E) (pd_vlans_bitmap p)) (0, ?s1) = Some (rc, s')"
    and inv': "refresh_inv E db ?s1 (rc, s')"
    and good: "\<forall>vid \<in> ?M. \<forall>g. vid_good E db g (rc, s') vid"
    and pres: "\<forall>g w. vid_good E db g (0, ?s1) w \<longrightarrow> vid_good E db g (rc, s') w"
    by (auto simp: bitmap_simps bitmap_size_def)
  have sh: "shape E ?s1 s'" using inv' by (simp add: refresh_inv_def)
  have mem: "any_cached_member E db ?s1 (vd_vid v) = any_cached_member E db s (vd_vid v)"
    if v: "vlan_at s k' = Some v" "nat (vd_vid v) \<notin> ?M" for k' v
  proof -
    have "\<not> cached_member E db (vd_vid v) p"
      using not_cached_member [OF env tD(1) v(1) _ v(2)] tD(3) p by (auto simp: trunks_covered_def)
    moreover have "shash_ok (all_ports s)" "shash_ok (all_ports ?s1)"
      using tD(1) ok1 by (simp_all add: cache_ok_def)
    ultimately show ?thesis
      by (intro any_cached_member_except [where k = k]) (use p at1 in \<open>auto split: if_splits\<close>)
  qed
  have vt: "vlan_tracked E db n (P - {k}) s' v' row"
    if "vlan_at s' k' = Some v'" "row \<in> set (vlans db)" "v_row row = vd_idl_cfg v'" for k' v' row
  proof (rule vlan_tracked_transfer [OF sh ok1 _ good pres mem _ tD(8) that])
    fix k' v assume "vlan_at s k' = Some v" "nat (vd_vid v) \<notin> ?M" "covered E db P s v"
    have "touches E db ?s1 j v" if "touches E db s j v" "j \<noteq> k" for j
      using that touches_same [of ?s1 j s E db v] at1 by simp
    moreover have "\<not> touches E db s k v"
      using \<open>nat (vd_vid v) \<notin> ?M\<close> p del by (auto simp: touches_def port_row_named_def)
    ultimately show "covered E db (P - {k}) ?s1 v"
      using \<open>covered E db P s v\<close> unfolding covered_def by blast
  qed simp_all
  have None': "port_at s' k' = None \<longleftrightarrow> k' = k \<or> port_at s k' = None" for k'
    unfolding shape_port_None [OF sh] at1 by simp
  have synced: "\<exists>row \<in> set (ports db). p_name row = k' \<and> port_synced E db row p'"
    if p': "port_at s' k' = Some p'" and "k' \<notin> P - {k}" for k' p'
  proof -
    from shape_port [OF sh p'] obtain q where q: "port_at ?s1 k' = Some q" "port_le E q p'" by blast
    then have "k' \<noteq> k" "port_at s k' = Some q" using at1 by (auto split: if_splits)
    with that(2) tD(5) [of k' q] port_synced_le [OF _ q(2)] show ?thesis by blast
  qed
  have vNone: "vlan_at s' k' = None \<longleftrightarrow> vlan_at s k' = None" for k'
    using shape_vlan_None [OF sh, of k'] by simp
  have "tracked E db n (P - {k}) s'"
    unfolding tracked_def
  proof (intro conjI allI impI ballI)
    show "cache_ok E s'" by (rule shape_cache_ok [OF sh ok1])
    show "linked db s'" by (rule shape_linked [OF sh lnk1])
    show "trunks_covered E s'" by (rule shape_trunks_covered [OF sh cov1])
    show "idl_seqno s' = n" using sh tD(4) by (simp add: shape_def)
  next
    fix row assume r: "row \<in> set (ports db)" "p_name row \<noteq> DEFAULT_BRIDGE_NAME"
      "port_at s' (p_name row) = None"
    with del None' have "port_at s (p_name row) = None" by (auto simp: port_row_named_def)
    with r tD(7) show "row_changed db n (p_row row)" by blast
  next
    fix row assume "row \<in> set (vlans db)" "vlan_at s' (v_name row) = None"
    with vNone tD(6) show "row_changed db n (v_row row)" by blast
  qed (use synced vt in blast)+
  moreover have "del_old_port E db k s = Some (rc, s')" using run p by (simp add: del_old_port_def)
  moreover have "no_dangling E db s'" by (rule shape_no_dangling [OF sh cov1 nd1])
  ultimately show ?thesis using None' by blast
qed

text \<open>Names under which there is neither a cached port nor a port row do not count.\<close>

lemma tracked_cached:
  assumes tr: "tracked E db n Q s" and sub: "P \<subseteq> Q"
    and out: "\<And>k. k \<in> Q \<Longrightarrow> k \<notin> P \<Longrightarrow>
      port_at s k = None \<and> (k = DEFAULT_BRIDGE_NAME \<or> \<not> port_row_named db k)"
  shows "tracked E db n P s"
proof -
  have "covered E db Q s v \<longleftrightarrow> covered E db P s v" for v
    using out sub by (fastforce simp: covered_def touches_def port_row_named_def)
  then have "vlan_tracked E db n Q s v row = vlan_tracked E db n P s v row" for v row
    by (simp add: vlan_tracked_def)
  with tr out show ?thesis unfolding tracked_def by fastforce
qed

lemma delete_stale_ports_tracked:
  assumes env: "env_ok E" and wf: "wf_db db" and nd: "no_dangling E db s"
    and tr: "tracked E db n (changed_ports db n \<union> deleted_ports db) s"
  shows "\<exists>rc s'. delete_stale_ports E db (collect_ports rank (ports db)) s = Some (rc, s') \<and>
    tracked E db n (changed_ports db n) s' \<and>
    (\<forall>k. port_at s' k \<noteq> None \<longrightarrow> port_row_named db k)"
proof -
  let ?idl = "collect_ports rank (ports db)"
  let ?f = "\<lambda>name (rc, s). case shash_find_data ?idl name of
      Some row \<Rightarrow> Some (rc, s)
    | None \<Rightarrow> (case del_old_port E db name s of
         None \<Rightarrow> None | Some (n, s) \<Rightarrow> Some (if n \<noteq> 0 then Suc rc else rc, s))"
  let ?P = "\<lambda>pre. changed_ports db n \<union> (deleted_ports db - set pre)"
  define I where "I pre st \<longleftrightarrow> tracked E db n (?P pre) (snd st) \<and> no_dangling E db (snd st) \<and>
      (\<forall>k. port_at (snd st) k = None \<longleftrightarrow>
         port_at s k = None \<or> k \<in> set pre \<and> \<not> port_row_named db k)"
    for pre :: "string list" and st :: "nat \<times> 'a vland"
  have "\<exists>st. foldM ?f (shash_nodes (all_ports s)) (0, s) = Some st \<and> I (shash_nodes (all_ports s)) st"
  proof (rule foldM_prefix)
    show "I [] (0, s)" using tr nd by (simp add: I_def)
  next
    fix pre k post st
    assume split: "shash_nodes (all_ports s) = pre @ k # post" and I: "I pre st"
    obtain rc t where st: "st = (rc, t)" by fastforce
    have ok: "shash_ok (all_ports s)" using trackedD(1) [OF tr] by (simp add: cache_ok_def)
    then have "distinct (pre @ k # post)" and "k \<in> set (shash_nodes (all_ports s))"
      using split by (simp_all add: shash_ok_nodes)
    then have k: "k \<notin> set pre" "port_at s k \<noteq> None" using sd.set_nodes [OF ok] by auto
    show "\<exists>u. ?f k st = Some u \<and> I (pre @ [k]) u"
    proof (cases "port_row_named db k")
      case True
      then have "?P (pre @ [k]) = ?P pre" by (auto simp: deleted_ports_def)
      then have "I (pre @ [k]) st" using I True by (auto simp: I_def)
      moreover have "?f k st = Some st"
        using True find_named [of k db] by (auto simp: st find_collect_ports split: option.split)
      ultimately show ?thesis by blast
    next
      case False
      have "port_at t k \<noteq> None" using I k st by (simp add: I_def)
      then obtain p where p: "port_at t k = Some p" by blast
      from I st have trk: "tracked E db n (?P pre) t" and ndt: "no_dangling E db t" by (simp_all add: I_def)
      from del_old_port_tracked [OF env wf trk p False ndt]
      obtain m t' where d: "del_old_port E db k t = Some (m, t')"
        "tracked E db n (?P pre - {k}) t'" "no_dangling E db t'"
        "\<forall>k'. port_at t' k' = None \<longleftrightarrow> k' = k \<or> port_at t k' = None" by blast
      have "?P pre - {k} = ?P (pre @ [k])"
        using False by (auto simp: changed_ports_def port_row_named_def)
      with d I st False k have "I (pre @ [k]) (if m \<noteq> 0 then Suc rc else rc, t')"
        by (auto simp: I_def)
      moreover have "?f k st = Some (if m \<noteq> 0 then Suc rc else rc, t')"
        using False d(1) by (simp add: st find_collect_ports find_named [symmetric])
      ultimately show ?thesis by blast
    qed
  qed
  then obtain rc s' where run: "foldM ?f (shash_nodes (all_ports s)) (0, s) = Some (rc, s')"
    and I: "I (shash_nodes (all_ports s)) (rc, s')" by auto
  have nodes: "set (shash_nodes (all_ports s)) = {k. port_at s k \<noteq> None}"
    using trackedD(1) [OF tr] by (intro sd.set_nodes) (simp add: cache_ok_def)
  have named: "\<forall>k. port_at s' k \<noteq> None \<longrightarrow> port_row_named db k"
    using I nodes by (auto simp: I_def)
  have "tracked E db n (changed_ports db n) s'"
  proof (rule tracked_cached)
    show "tracked E db n (?P (shash_nodes (all_ports s))) s'" using I by (simp add: I_def)
    show "port_at s' k = None \<and> (k = DEFAULT_BRIDGE_NAME \<or> \<not> port_row_named db k)"
      if "k \<in> ?P (shash_nodes (all_ports s))" "k \<notin> changed_ports db n" for k
      using that named by (auto simp: deleted_ports_def)
  qed auto
  with run named show ?thesis unfolding delete_stale_ports_def by blast
qed

section \<open>Adding ports\<close>

lemma add_new_port_fields [frame_simps]:
  "all_vlans (add_new_port E row s) = all_vlans s"
  "all_vlans_bitmap (add_new_port E row s) = all_vlans_bitmap s"
  "idl_seqno (add_new_port E row s) = idl_seqno s"
  "txn_writes (add_new_port E row s) = txn_writes s"
  "system_configured (add_new_port E row s) = system_configured s"
  "default_vlan_created (add_new_port E row s) = default_vlan_created s"
  by (simp_all add: add_new_port_def)

lemma port_at_add:
  "port_at s (p_name row) = None \<Longrightarrow>
   port_at (add_new_port E row s) k =
     (if k = p_name row then Some (new_port_data E row) else port_at s k)"
  by (simp add: add_new_port_def sd.lookup_add)

lemma add_new_port_tracked:
  assumes env: "env_ok E" and wf: "wf_db db" and tr: "tracked E db n (changed_ports db n) s"
    and row: "row \<in> set (ports db)" "p_name row \<noteq> DEFAULT_BRIDGE_NAME"
    and new: "port_at s (p_name row) = None"
  shows "tracked E db n (changed_ports db n) (add_new_port E row s)"
proof -
  let ?k = "p_name row" and ?P = "changed_ports db n"
  define ps where
    "ps = snd (shash_add_once (hash_rank E) (p_name row) (new_port_data E row) (all_ports s))"
  have eq: "add_new_port E row s = s\<lparr>all_ports := ps\<rparr>" by (simp add: ps_def add_new_port_def)
  note tD = trackedD [OF tr]
  have at: "port_at (s\<lparr>all_ports := ps\<rparr>) k = (if k = ?k then Some (new_port_data E row) else port_at s k)" for k
    using port_at_add [where E = E and row = row and k = k, OF new] by (simp only: eq)
  have find: "shash_find_data ps k = (if k = ?k then Some (new_port_data E row) else port_at s k)" for k
    using at [of k] by simp
  have new_bits: "port_bits E (new_port_data E row) = {}" "\<not> pd_trunk_all_vlans (new_port_data E row)"
    "pd_name (new_port_data E row) = ?k"
    using env by (simp_all add: new_port_data_def bitmap_size_def bitmap_simps)
  have inP: "?k \<in> ?P" using row new tD(7) by (auto simp: changed_ports_def)
  have okps: "shash_ok ps" using cache_okD(1) [OF tD(1)] by (simp add: ps_def sd.ok_add)
  have ok: "cache_ok E (s\<lparr>all_ports := ps\<rparr>)"
    by (rule cache_ok_ports [OF tD(1) okps])
      (use cache_okD(3,4) [OF tD(1)] new_bits(3) row(2) in \<open>auto simp: find split: if_splits\<close>)
  have mem: "any_cached_member E db (s\<lparr>all_ports := ps\<rparr>) (vd_vid v) = any_cached_member E db s (vd_vid v)"
    if v: "vlan_at s k' = Some v" for k' v
  proof (rule any_cached_member_except [where k = ?k])
    have "\<not> cached_member E db (vd_vid v) (new_port_data E row)"
      by (rule not_cached_member [OF env tD(1) v]) (use new_bits in auto)
    then show "\<not> cached_member E db (vd_vid v) p" if "port_at (s\<lparr>all_ports := ps\<rparr>) ?k = Some p" for p
      using that at by simp
  qed (use new okps at cache_okD(1) [OF tD(1)] in auto)
  have cov: "covered E db ?P (s\<lparr>all_ports := ps\<rparr>) v" if "covered E db ?P s v" for v
  proof -
    have "touches E db (s\<lparr>all_ports := ps\<rparr>) k v" if "touches E db s k v" for k
      using that new by (auto simp: touches_def find)
    with that show ?thesis unfolding covered_def by blast
  qed
  have vt: "vlan_tracked E db n ?P (s\<lparr>all_ports := ps\<rparr>) v vrow"
    if "vlan_at s k' = Some v" "vrow \<in> set (vlans db)" "v_row vrow = vd_idl_cfg v" for k' v vrow
    using tD(8) [OF that] cov [of v] mem [OF that(1)] by (auto simp: vlan_tracked_def member_ok_def)
  show ?thesis unfolding eq tracked_def
  proof (intro conjI allI impI ballI)
    show "cache_ok E (s\<lparr>all_ports := ps\<rparr>)" by (rule ok)
    show "linked db (s\<lparr>all_ports := ps\<rparr>)" using tD(2) by simp
    show "trunks_covered E (s\<lparr>all_ports := ps\<rparr>)"
      using tD(3) new_bits(2) by (auto simp: trunks_covered_def find split: if_splits)
    show "idl_seqno (s\<lparr>all_ports := ps\<rparr>) = n" using tD(4) by simp
  next
    fix k p assume "port_at (s\<lparr>all_ports := ps\<rparr>) k = Some p" "k \<notin> ?P"
    with inP have "port_at s k = Some p" by (auto simp: find split: if_splits)
    with tD(5) \<open>k \<notin> ?P\<close> show "\<exists>row \<in> set (ports db). p_name row = k \<and> port_synced E db row p" by blast
  next
    fix r assume "r \<in> set (vlans db)" "vlan_at (s\<lparr>all_ports := ps\<rparr>) (v_name r) = None"
    then show "row_changed db n (v_row r)" using tD(6) by simp
  next
    fix r assume r: "r \<in> set (ports db)" "p_name r \<noteq> DEFAULT_BRIDGE_NAME"
      "port_at (s\<lparr>all_ports := ps\<rparr>) (p_name r) = None"
    then have "port_at s (p_name r) = None" by (auto simp: find split: if_splits)
    with r(1,2) tD(7) show "row_changed db n (p_row r)" by blast
  next
    fix k v r assume "vlan_at (s\<lparr>all_ports := ps\<rparr>) k = Some v" "r \<in> set (vlans db)"
      "v_row r = vd_idl_cfg v"
    then show "vlan_tracked E db n ?P (s\<lparr>all_ports := ps\<rparr>) v r" using vt by simp
  qed
qed

lemma collect_ports_nodes:
  assumes "(name, row) \<in> set (collect_ports rank rows)"
  shows "row \<in> set rows \<and> p_name row = name"
proof -
  from assms have "shash_find_data (collect_ports rank rows) name = Some row"
    by (simp add: find_in_set)
  then show ?thesis by (auto simp: find_collect_ports dest: find_SomeD)
qed

lemma add_missing_ports_tracked:
  assumes env: "env_ok E" and wf: "wf_db db" and tr: "tracked E db n (changed_ports db n) s"
  shows "tracked E db n (changed_ports db n) (add_missing_ports E (collect_ports rank (ports db)) s) \<and>
    (\<forall>k. port_at (add_missing_ports E (collect_ports rank (ports db)) s) k \<noteq> None \<longleftrightarrow>
       port_at s k \<noteq> None \<or> port_row_named db k \<and> k \<noteq> DEFAULT_BRIDGE_NAME)"
proof -
  let ?idl = "collect_ports rank (ports db)"
  define I where "I pre t \<longleftrightarrow> tracked E db n (changed_ports db n) t \<and>
      (\<forall>k. port_at t k \<noteq> None \<longleftrightarrow>
         port_at s k \<noteq> None \<or> k \<in> fst ` set pre \<and> k \<noteq> DEFAULT_BRIDGE_NAME)"
    for pre :: "ovsrec_port shash" and t :: "'a vland"
  have "I ?idl (add_missing_ports E ?idl s)"
    unfolding add_missing_ports_def
  proof (rule foldl_prefix)
    show "I [] s" using tr by (simp add: I_def)
  next
    fix pre x post t assume split: "?idl = pre @ x # post" and I: "I pre t"
    obtain name row where x: "x = (name, row)" by fastforce
    have row: "row \<in> set (ports db)" "p_name row = name"
      using collect_ports_nodes [of name row rank "ports db"] split x by auto
    show "I (pre @ [x]) (case x of (name, row) \<Rightarrow>
        if port_at t name = None \<and> name \<noteq> DEFAULT_BRIDGE_NAME then add_new_port E row t else t)"
    proof (cases "port_at t name = None \<and> name \<noteq> DEFAULT_BRIDGE_NAME")
      case True
      then have "tracked E db n (changed_ports db n) (add_new_port E row t)"
        using I row by (intro add_new_port_tracked [OF env wf]) (simp_all add: I_def)
      moreover have "port_at (add_new_port E row t) k \<noteq> None \<longleftrightarrow> k = name \<or> port_at t k \<noteq> None" for k
        using port_at_add [of t row E k] True row by simp
      moreover have "fst ` set (pre @ [x]) = insert name (fst ` set pre)" using x by simp
      ultimately have "I (pre @ [x]) (add_new_port E row t)"
        using I True by (simp only: I_def) blast
      then show ?thesis using True x by simp
    next
      case False
      moreover have "fst ` set (pre @ [x]) = insert name (fst ` set pre)" using x by simp
      ultimately have "I (pre @ [x]) t" using I by (simp only: I_def) blast
      moreover have "(case x of (name, row) \<Rightarrow>
          if port_at t name = None \<and> name \<noteq> DEFAULT_BRIDGE_NAME then add_new_port E row t else t) = t"
        unfolding x using False by (simp only: prod.case if_False)
      ultimately show ?thesis by (simp only:)
    qed
  qed
  moreover have "k \<in> fst ` set ?idl \<longleftrightarrow> port_row_named db k" for k
  proof -
    have "k \<in> fst ` set ?idl \<longleftrightarrow> shash_find_data ?idl k \<noteq> None"
      by (simp add: shash_find_data_def map_of_eq_None_iff)
    then show ?thesis using find_named [of k db] by (simp add: find_collect_ports)
  qed
  ultimately show ?thesis by (simp add: I_def)
qed

end
