(* ===== verification/Port_Update.thy ===== *)
theory Port_Update
  imports Port_Sync
begin

text \<open>
  The last loop of \<^verbatim>\<open>update_port_cache\<close>: each changed row gives its port a new bitmap, and
  every VLAN of the old or the new bitmap is refreshed. With the deletions and additions of
  \<open>Port_Sync\<close> this gives the contract of the whole function.
\<close>

lemma update_port_tracked:
  assumes env: "env_ok E" and wf: "wf_db db" and tr: "tracked E db n P s"
    and p: "port_at s k = Some p" and row: "shash_find_data idl k = Some row"
    and rowk: "row \<in> set (ports db)" "p_name row = k" and ch: "row_changed db n (p_row row)"
  shows "\<exists>rc' s'. update_port E db idl k (rc, s) = Some (rc', s') \<and> tracked E db n (P - {k}) s' \<and>
    (\<forall>k'. port_at s' k' = None \<longleftrightarrow> port_at s k' = None)"
proof -
  note tD = trackedD [OF tr]
  define p' where "p' = construct_vlan_bitmap E db (all_vlans_bitmap s) row p"
  define ps where "ps = shash_put k p' (all_ports s)"
  let ?s1 = "s\<lparr>all_ports := ps\<rparr>"
  let ?M = "port_bits E p \<union> port_bits E p'"
  have find: "shash_find_data ps k' = (if k' = k then Some p' else port_at s k')" for k'
    using p by (simp add: ps_def find_put)
  have okps: "shash_ok ps" using cache_okD(1) [OF tD(1)] by (simp add: ps_def)
  have p'_name: "pd_name p' = k" "k \<noteq> DEFAULT_BRIDGE_NAME"
    using cache_okD(3,4) [OF tD(1) p] by (simp_all add: p'_def construct_vlan_bitmap_fields)
  have p'_cov: "known_vids s \<subseteq> port_bits E p'" if "pd_trunk_all_vlans p'"
    using that cache_okD(8) [OF tD(1)]
    by (auto simp: p'_def construct_vlan_bitmap_fields construct_vlan_bitmap_bits [OF env])
  have ok1: "cache_ok E ?s1"
    by (rule cache_ok_ports [OF tD(1) okps])
      (use cache_okD(3,4) [OF tD(1)] p'_name in \<open>auto simp: find split: if_splits\<close>)
  have cov1: "trunks_covered E ?s1"
    using tD(3) p'_cov by (auto simp: trunks_covered_def find split: if_splits)
  have lnk1: "linked db ?s1" using tD(2) by simp
  have inv: "refresh_inv E db ?s1 (rc, ?s1)" using env wf ok1 lnk1 by (simp add: refresh_inv_def)
  let ?ones = "bitmap_ones (bmp E) (bitmap_size E)
      (bitmap_or (bmp E) (pd_vlans_bitmap p) (pd_vlans_bitmap p') (bitmap_size E))"
  have ones: "set ?ones = ?M" using env by (simp add: bitmap_simps bitmap_size_def)
  from upd.refresh_all [OF inv, of ?ones] obtain rc' s' where
    run: "foldM (refresh_after_update E db) ?ones (rc, ?s1) = Some (rc', s')"
    and inv': "refresh_inv E db ?s1 (rc', s')"
    and good: "\<forall>vid \<in> ?M. \<forall>g. vid_good E db g (rc', s') vid"
    and pres: "\<forall>g w. vid_good E db g (rc, ?s1) w \<longrightarrow> vid_good E db g (rc', s') w"
    using ones by auto
  have sh: "shape E ?s1 s'" using inv' by (simp add: refresh_inv_def)
  have mem: "any_cached_member E db ?s1 (vd_vid v) = any_cached_member E db s (vd_vid v)"
    if v: "vlan_at s k' = Some v" "nat (vd_vid v) \<notin> ?M" for k' v
  proof (rule any_cached_member_except [where k = k])
    show "\<not> cached_member E db (vd_vid v) q" if "port_at s k = Some q" for q
      using that p v(2) tD(3)
      by (intro not_cached_member [OF env tD(1) v(1)]) (auto simp: trunks_covered_def)
    show "\<not> cached_member E db (vd_vid v) q" if "port_at ?s1 k = Some q" for q
      using that v(2) p'_cov by (intro not_cached_member [OF env tD(1) v(1)]) (auto simp: find)
  qed (use okps find cache_okD(1) [OF tD(1)] in simp_all)
  have untouched: "\<not> touches E db s k v"
    if v: "vlan_at s k' = Some v" "nat (vd_vid v) \<notin> ?M" for k' v
  proof -
    have vid: "VALID_VID (vd_vid v)" by (rule cache_okD(6) [OF tD(1) v(1)])
    then have sz: "nat (vd_vid v) < bitmap_size E" "0 \<le> vd_vid v"
      using valid_vid_size [OF env vid] by (simp_all add: bitmap_size_def VALID_VID_def)
    have "nat (vd_vid v) \<in> known_vids s" using v(1) by (auto simp: known_vids_def)
    then have "\<not> row_lists (ops E) row (vd_vid v)"
      using v(2) sz cache_okD(8) [OF tD(1)]
      by (auto simp: p'_def construct_vlan_bitmap_bits [OF env] split: if_splits)
    moreover have "r = row" if "r \<in> set (ports db)" "p_name r = k" for r
      using that rowk wf by (intro distinct_map_eq [of p_name "ports db"]) (simp_all add: wf_db_def)
    ultimately show ?thesis using p v(2) by (auto simp: touches_def)
  qed
  have vt: "vlan_tracked E db n (P - {k}) s' v' vrow"
    if "vlan_at s' k' = Some v'" "vrow \<in> set (vlans db)" "v_row vrow = vd_idl_cfg v'" for k' v' vrow
  proof (rule vlan_tracked_transfer [OF sh ok1 _ good pres mem _ tD(8) that])
    fix k' v assume v: "vlan_at s k' = Some v" "nat (vd_vid v) \<notin> ?M" "covered E db P s v"
    have "touches E db ?s1 j v" if "touches E db s j v" "j \<noteq> k" for j
      using that touches_same [of ?s1 j s E db v] by (simp add: find)
    moreover have "\<not> touches E db s k v" using untouched [OF v(1,2)] .
    ultimately show "covered E db (P - {k}) ?s1 v" using v(3) unfolding covered_def by blast
  qed simp_all
  have None': "port_at s' k' = None \<longleftrightarrow> port_at s k' = None" for k'
    unfolding shape_port_None [OF sh] using p by (simp add: find)
  have synced: "\<exists>row \<in> set (ports db). p_name row = k' \<and> port_synced E db row q'"
    if q': "port_at s' k' = Some q'" and "k' \<notin> P - {k}" for k' q'
  proof (cases "k' = k")
    case True
    with shape_port [OF sh q'] have le: "port_le E p' q'" by (auto simp: find)
    have "port_synced E db row p'"
      unfolding p'_def by (rule construct_vlan_bitmap_synced [OF env])
    from this le have "port_synced E db row q'" by (rule port_synced_le)
    with rowk True show ?thesis by blast
  next
    case False
    from shape_port [OF sh q'] obtain q where q: "port_at ?s1 k' = Some q" "port_le E q q'" by blast
    with False have "port_at s k' = Some q" by (simp add: find)
    with that(2) False tD(5) [of k' q] port_synced_le [OF _ q(2)] show ?thesis by blast
  qed
  have vNone: "vlan_at s' k' = None \<longleftrightarrow> vlan_at s k' = None" for k'
    using shape_vlan_None [OF sh, of k'] by simp
  have "tracked E db n (P - {k}) s'"
    unfolding tracked_def
  proof (intro conjI allI impI ballI)
    show "cache_ok E s'" by (rule shape_cache_ok [OF sh ok1])
    show "linked db s'" by (rule shape_linked [OF sh lnk1])
    show "trunks_covered E s'" by (rule shape_trunks_covered [OF sh cov1])
    show "idl_seqno s' = n" using sh tD(4) by (simp add: shape_def)
  next
    fix r assume r: "r \<in> set (ports db)" "p_name r \<noteq> DEFAULT_BRIDGE_NAME" "port_at s' (p_name r) = None"
    with None' have "port_at s (p_name r) = None" by blast
    with r tD(7) show "row_changed db n (p_row r)" by blast
  next
    fix r assume "r \<in> set (vlans db)" "vlan_at s' (v_name r) = None"
    with vNone tD(6) show "row_changed db n (v_row r)" by blast
  qed (use synced vt in blast)+
  moreover have "update_port E db idl k (rc, s) = Some (rc', s')"
    using run p row ch tD(4) by (simp add: update_port_def p'_def ps_def put_port_def Let_def)
  ultimately show ?thesis using None' by blast
qed

section \<open>The whole walk\<close>

lemma update_changed_ports_tracked:
  assumes env: "env_ok E" and wf: "wf_db db" and tr: "tracked E db n (changed_ports db n) s"
    and all: "\<forall>k. port_at s k \<noteq> None \<longleftrightarrow> port_row_named db k \<and> k \<noteq> DEFAULT_BRIDGE_NAME"
  shows "\<exists>rc' s'. update_changed_ports E db (collect_ports rank (ports db)) (rc, s) = Some (rc', s') \<and>
    tracked E db n {} s' \<and> (\<forall>k. port_at s' k = None \<longleftrightarrow> port_at s k = None)"
proof -
  let ?idl = "collect_ports rank (ports db)"
  let ?ks = "shash_nodes (all_ports s)"
  let ?P = "\<lambda>pre. changed_ports db n - set pre"
  define I where "I pre st \<longleftrightarrow> tracked E db n (?P pre) (snd st) \<and>
      (\<forall>k. port_at (snd st) k = None \<longleftrightarrow> port_at s k = None)"
    for pre :: "string list" and st :: "nat \<times> 'a vland"
  have nodes: "set ?ks = {k. port_at s k \<noteq> None}"
    using trackedD(1) [OF tr] by (intro sd.set_nodes) (simp add: cache_ok_def)
  have "\<exists>st. foldM (update_port E db ?idl) ?ks (rc, s) = Some st \<and> I ?ks st"
  proof (rule foldM_prefix)
    show "I [] (rc, s)" using tr by (simp add: I_def)
  next
    fix pre k post st assume split: "?ks = pre @ k # post" and I: "I pre st"
    obtain m t where st: "st = (m, t)" by fastforce
    have "k \<in> set ?ks" using split by simp
    then have sk: "port_at s k \<noteq> None" using nodes by blast
    with I st obtain p where p: "port_at t k = Some p" by (fastforce simp: I_def)
    from sk all have "port_row_named db k" by blast
    then obtain row where row: "shash_find_data ?idl k = Some row"
      using find_named [of k db] by (auto simp: find_collect_ports)
    then have rowk: "row \<in> set (ports db)" "p_name row = k"
      by (auto simp: find_collect_ports dest: find_SomeD)
    from I st have trt: "tracked E db n (?P pre) t" by (simp add: I_def)
    show "\<exists>u. update_port E db ?idl k st = Some u \<and> I (pre @ [k]) u"
    proof (cases "row_changed db n (p_row row)")
      case True
      from update_port_tracked [OF env wf trt p row rowk True, of m] obtain m' t' where
        "update_port E db ?idl k (m, t) = Some (m', t')" "tracked E db n (?P pre - {k}) t'"
        "\<forall>k'. port_at t' k' = None \<longleftrightarrow> port_at t k' = None" by blast
      moreover have "?P pre - {k} = ?P (pre @ [k])" by auto
      ultimately show ?thesis using I st by (auto simp: I_def)
    next
      case False
      have "r = row" if "r \<in> set (ports db)" "p_name r = k" for r
        using that rowk wf by (intro distinct_map_eq [of p_name "ports db"]) (simp_all add: wf_db_def)
      with False have "k \<notin> changed_ports db n" by (auto simp: changed_ports_def)
      then have "?P (pre @ [k]) = ?P pre" by auto
      moreover have "update_port E db ?idl k st = Some st"
        using False p row trackedD(4) [OF trt] by (simp add: update_port_def st)
      ultimately show ?thesis using I by (simp add: I_def)
    qed
  qed
  then obtain rc' s' where run: "foldM (update_port E db ?idl) ?ks (rc, s) = Some (rc', s')"
    and "I ?ks (rc', s')" by fastforce
  then have I: "tracked E db n (?P ?ks) s'" "\<forall>k. port_at s' k = None \<longleftrightarrow> port_at s k = None"
    unfolding I_def by simp_all
  have out: "port_at s' k = None \<and> (k = DEFAULT_BRIDGE_NAME \<or> \<not> port_row_named db k)"
    if "k \<in> ?P ?ks" for k using that nodes I(2) all by blast
  have "tracked E db n {} s'" by (rule tracked_cached [OF I(1)]) (use out in blast)+
  with run I(2) show ?thesis by (auto simp: update_changed_ports_def)
qed

section \<open>The contract of the port half\<close>

lemma update_port_cache_tracked:
  assumes env: "env_ok E" and wf: "wf_db db" and nd: "no_dangling E db s"
    and tr: "tracked E db n (changed_ports db n \<union> deleted_ports db) s"
  shows "\<exists>rc s'. update_port_cache E db s = Some (rc, s') \<and> tracked E db n {} s' \<and>
    (\<forall>k. port_at s' k \<noteq> None \<longleftrightarrow> port_row_named db k \<and> k \<noteq> DEFAULT_BRIDGE_NAME)"
proof -
  let ?idl = "collect_ports (hash_rank E) (ports db)"
  from delete_stale_ports_tracked [OF env wf nd tr, of "hash_rank E"] obtain rc s1 where
    d: "delete_stale_ports E db ?idl s = Some (rc, s1)" "tracked E db n (changed_ports db n) s1"
      "\<forall>k. port_at s1 k \<noteq> None \<longrightarrow> port_row_named db k" by blast
  let ?s2 = "add_missing_ports E ?idl s1"
  from add_missing_ports_tracked [OF env wf d(2), of "hash_rank E"] have
    a: "tracked E db n (changed_ports db n) ?s2"
      "\<forall>k. port_at ?s2 k \<noteq> None \<longleftrightarrow> port_at s1 k \<noteq> None \<or> port_row_named db k \<and> k \<noteq> DEFAULT_BRIDGE_NAME"
    by blast+
  have nb: "port_at s1 DEFAULT_BRIDGE_NAME = None"
    using cache_okD(4) [OF trackedD(1) [OF d(2)], of DEFAULT_BRIDGE_NAME]
    by (cases "port_at s1 DEFAULT_BRIDGE_NAME") simp_all
  then have all: "\<forall>k. port_at ?s2 k \<noteq> None \<longleftrightarrow> port_row_named db k \<and> k \<noteq> DEFAULT_BRIDGE_NAME"
    using a(2) d(3) by metis
  from update_changed_ports_tracked [OF env wf a(1) all, of "hash_rank E" rc] obtain rc' s' where
    u: "update_changed_ports E db ?idl (rc, ?s2) = Some (rc', s')" "tracked E db n {} s'"
      "\<forall>k. port_at s' k = None \<longleftrightarrow> port_at ?s2 k = None" by blast
  have "\<forall>k. port_at s' k \<noteq> None \<longleftrightarrow> port_row_named db k \<and> k \<noteq> DEFAULT_BRIDGE_NAME"
    using u(3) all by metis
  with d(1) u(1,2) show ?thesis by (simp add: update_port_cache_def Let_def)
qed

text \<open>
  Once every port is synced, membership in the cache is membership in the database.
\<close>

lemma cached_member_spec:
  assumes env: "env_ok E" and "port_synced E db row p" and "pd_name p = p_name row"
    and vid: "VALID_VID vid"
  shows "cached_member E db vid p \<longleftrightarrow> spec_member (ops E) db row vid"
proof -
  have sz: "nat vid < VLAN_BITMAP_SIZE (bmp E)" by (rule valid_vid_size [OF env vid])
  have "0 \<le> vid" using vid by (simp add: VALID_VID_def)
  then have bit: "bitmap_is_set (bmp E) (pd_vlans_bitmap p) (c_size_t vid) \<longleftrightarrow> row_lists (ops E) row vid"
    if "\<not> row_trunks_all row"
    using that assms(2) sz vid by (simp add: port_synced_def bitmap_is_set_bits bitmap_size_def)
  have all: "pd_trunk_all_vlans p = (row_trunks_all row \<and> check_port_in_bridge db (p_name row))"
    using assms(2) by (simp add: port_synced_def)
  show ?thesis unfolding cached_member_def spec_member_def all assms(3) using bit by blast
qed

lemma any_cached_member_spec:
  assumes env: "env_ok E" and wf: "wf_db db" and tr: "tracked E db n {} s"
    and all: "\<forall>k. port_at s k \<noteq> None \<longleftrightarrow> port_row_named db k \<and> k \<noteq> DEFAULT_BRIDGE_NAME"
    and vid: "VALID_VID vid"
  shows "any_cached_member E db s vid = spec_any_member (ops E) db vid"
proof -
  note tD = trackedD [OF tr]
  have ok: "shash_ok (all_ports s)" by (rule cache_okD(1) [OF tD(1)])
  have at: "\<exists>row \<in> set (ports db). p_name row = k \<and> port_synced E db row p \<and> pd_name p = p_name row"
    if "port_at s k = Some p" for k p
    using tD(5) [OF that] cache_okD(3) [OF tD(1) that] by auto
  show ?thesis unfolding any_cached_member_at [OF ok] spec_any_member_def list_ex_iff
  proof
    assume "\<exists>k p. port_at s k = Some p \<and> cached_member E db vid p"
    then obtain k p where p: "port_at s k = Some p" "cached_member E db vid p" by blast
    from at [OF p(1)] obtain row where row: "row \<in> set (ports db)" "p_name row = k"
      "port_synced E db row p" "pd_name p = p_name row" by blast
    then show "\<exists>row \<in> set (ports db). p_name row \<noteq> DEFAULT_BRIDGE_NAME \<and> spec_member (ops E) db row vid"
      using cached_member_spec [OF env row(3,4) vid] p cache_okD(4) [OF tD(1) p(1)] by blast
  next
    assume "\<exists>row \<in> set (ports db). p_name row \<noteq> DEFAULT_BRIDGE_NAME \<and> spec_member (ops E) db row vid"
    then obtain row where row: "row \<in> set (ports db)" "p_name row \<noteq> DEFAULT_BRIDGE_NAME"
      "spec_member (ops E) db row vid" by blast
    then have "port_at s (p_name row) \<noteq> None" using all by (auto simp: port_row_named_def)
    then obtain p where p: "port_at s (p_name row) = Some p" by blast
    from at [OF p] obtain row' where row': "row' \<in> set (ports db)" "p_name row' = p_name row"
      "port_synced E db row' p" "pd_name p = p_name row'" by blast
    then have "row' = row" using row(1) wf distinct_map_eq [of p_name "ports db"] by (auto simp: wf_db_def)
    with row' have "cached_member E db vid p"
      using cached_member_spec [OF env row'(3,4) vid] row(3) by simp
    with p show "\<exists>k p. port_at s k = Some p \<and> cached_member E db vid p" by blast
  qed
qed

end
