(* ===== verification/Vlan_Sync.thy ===== *)
theory Vlan_Sync
  imports Port_Update
begin

text \<open>
  \<^verbatim>\<open>update_vlan_cache\<close>: removing a VLAN takes its bit from the ports that trunk all VLANs, adding
  one gives it to them, and a changed row has its administrative state stored and its
  configuration handled. Each step keeps the tracking invariant; after the last one every
  cached VLAN is right.
\<close>

section \<open>Rewriting the ports that trunk all VLANs\<close>

definition retrunk :: "('b port_data \<Rightarrow> 'b port_data) \<Rightarrow> bool" where
  "retrunk f \<longleftrightarrow> (\<forall>p. pd_name (f p) = pd_name p \<and> pd_trunk_all_vlans (f p) = pd_trunk_all_vlans p \<and>
     (\<not> pd_trunk_all_vlans p \<longrightarrow> f p = p))"

lemma retrunk_untrunk: "retrunk (untrunk_vlan E vid)"
  by (simp add: retrunk_def untrunk_vlan_def)

lemma retrunk_add: "retrunk (add_trunked_vlan E db vid)"
  by (simp add: retrunk_def) (simp add: add_trunked_vlan_def)

lemma retrunk_cached_member: "retrunk f \<Longrightarrow> cached_member E db vid (f p) = cached_member E db vid p"
  by (cases "pd_trunk_all_vlans p") (simp_all add: retrunk_def cached_member_def)

lemma retrunk_any:
  assumes "retrunk f" and "all_ports t = map (\<lambda>(k, p). (k, f p)) (all_ports s)"
  shows "any_cached_member E db t vid = any_cached_member E db s vid"
  using assms retrunk_cached_member [OF assms(1)]
  by (force simp: any_cached_member_def)

lemma retrunk_synced:
  assumes "retrunk f" and "port_synced E db row p"
  shows "port_synced E db row (f p)"
proof (cases "pd_trunk_all_vlans p")
  case True
  with assms show ?thesis by (simp add: port_synced_def retrunk_def)
next
  case False
  with assms show ?thesis by (simp add: retrunk_def)
qed

lemma retrunk_tracked:
  assumes tr: "tracked E db n {} s" and f: "retrunk f"
    and ports: "all_ports t = map (\<lambda>(k, p). (k, f p)) (all_ports s)"
    and seq: "idl_seqno t = n"
    and okv: "shash_ok (all_vlans t)"
    and vl: "\<And>k v. vlan_at t k = Some v \<Longrightarrow> vd_name v = k \<and> VALID_VID (vd_vid v)"
    and uniq: "\<And>k k' v v'. vlan_at t k = Some v \<Longrightarrow> vlan_at t k' = Some v' \<Longrightarrow>
      vd_vid v = vd_vid v' \<Longrightarrow> k = k'"
    and bm: "bits (bmp E) (all_vlans_bitmap t) = known_vids t"
    and lnk: "linked db t"
    and cov: "\<And>k p. port_at s k = Some p \<Longrightarrow> pd_trunk_all_vlans p \<Longrightarrow> known_vids t \<subseteq> port_bits E (f p)"
    and missing: "\<And>row. row \<in> set (vlans db) \<Longrightarrow> vlan_at t (v_name row) = None \<Longrightarrow>
      row_changed db n (v_row row)"
    and vt: "\<And>k v row. vlan_at t k = Some v \<Longrightarrow> row \<in> set (vlans db) \<Longrightarrow> v_row row = vd_idl_cfg v \<Longrightarrow>
      vlan_tracked E db n {} s v row"
  shows "tracked E db n {} t"
proof -
  note tD = trackedD [OF tr]
  have at: "port_at t k = map_option f (port_at s k)" for k
    by (simp add: ports find_map_values)
  have atD: "\<exists>p. port_at s k = Some p \<and> q = f p" if "port_at t k = Some q" for k q
    using that by (auto simp: at)
  have fD: "pd_name (f p) = pd_name p" "pd_trunk_all_vlans (f p) = pd_trunk_all_vlans p" for p
    using f by (simp_all add: retrunk_def)
  have "shash_ok (all_ports t)" using cache_okD(1) [OF tD(1)] by (simp add: ports)
  moreover have "pd_name q = k \<and> k \<noteq> DEFAULT_BRIDGE_NAME" if "port_at t k = Some q" for k q
  proof -
    from atD [OF that] obtain p where p: "port_at s k = Some p" "q = f p" by blast
    show ?thesis using cache_okD(3) [OF tD(1) p(1)] cache_okD(4) [OF tD(1) p(1)] p(2) fD by simp
  qed
  ultimately have ok: "cache_ok E t"
    unfolding cache_ok_def using okv vl uniq bm by blast
  have tcov: "trunks_covered E t"
    unfolding trunks_covered_def
  proof (intro allI impI)
    fix k q assume "port_at t k = Some q" "pd_trunk_all_vlans q"
    with atD fD obtain p where "port_at s k = Some p" "q = f p" "pd_trunk_all_vlans p" by metis
    with cov show "known_vids t \<subseteq> port_bits E q" by simp
  qed
  have sync: "\<exists>row \<in> set (ports db). p_name row = k \<and> port_synced E db row q" if "port_at t k = Some q" for k q
    using atD [OF that] tD(5) retrunk_synced [OF f] by blast
  have "vlan_tracked E db n {} t v row" if "vlan_tracked E db n {} s v row" for v row
    using that retrunk_any [OF f ports, of E db]
    by (simp add: vlan_tracked_def covered_def member_ok_def)
  with vt have "\<forall>k v. vlan_at t k = Some v \<longrightarrow>
      (\<forall>row \<in> set (vlans db). v_row row = vd_idl_cfg v \<longrightarrow> vlan_tracked E db n {} t v row)" by blast
  moreover have "\<forall>row \<in> set (ports db). p_name row \<noteq> DEFAULT_BRIDGE_NAME \<longrightarrow>
      port_at t (p_name row) = None \<longrightarrow> row_changed db n (p_row row)" using tD(7) at by simp
  ultimately show ?thesis
    unfolding tracked_def using ok lnk tcov seq sync missing by blast
qed

section \<open>Deleting stale VLANs\<close>

definition vlan_row_named :: "ovsdb \<Rightarrow> string \<Rightarrow> bool" where
  "vlan_row_named db k \<longleftrightarrow> (\<exists>row \<in> set (vlans db). v_name row = k)"

lemma known_vids_delete:
  assumes ok: "cache_ok E s" and v: "vlan_at s k = Some v"
    and at: "\<And>k'. vlan_at t k' = (if k' = k then None else vlan_at s k')"
  shows "known_vids t = known_vids s - {nat (vd_vid v)}"
proof -
  have "nat (vd_vid u) \<noteq> nat (vd_vid v)" if "vlan_at s j = Some u" "j \<noteq> k" for j u
  proof
    assume "nat (vd_vid u) = nat (vd_vid v)"
    then have "vd_vid u = vd_vid v"
      using cache_okD(6) [OF ok that(1)] cache_okD(6) [OF ok v] by (simp add: valid_vid_nat_inject)
    with cache_okD(7) [OF ok that(1) v] that(2) show False by simp
  qed
  note other = this
  have tv: "vlan_at t j = Some u \<longleftrightarrow> j \<noteq> k \<and> vlan_at s j = Some u" for j u by (simp add: at)
  show ?thesis
  proof (rule set_eqI)
    fix i
    have "i \<in> known_vids t \<longleftrightarrow> (\<exists>j u. j \<noteq> k \<and> vlan_at s j = Some u \<and> i = nat (vd_vid u))"
      unfolding known_vids_def tv by blast
    also have "\<dots> \<longleftrightarrow> (\<exists>j u. vlan_at s j = Some u \<and> i = nat (vd_vid u)) \<and> i \<noteq> nat (vd_vid v)"
      using other v by (metis option.inject)
    also have "\<dots> \<longleftrightarrow> i \<in> known_vids s - {nat (vd_vid v)}"
      unfolding known_vids_def by blast
    finally show "i \<in> known_vids t \<longleftrightarrow> i \<in> known_vids s - {nat (vd_vid v)}" .
  qed
qed

lemma del_old_vlan_tracked:
  assumes env: "env_ok E" and tr: "tracked E db n {} s" and del: "\<not> vlan_row_named db k"
    and v: "vlan_at s k = Some v"
  shows "tracked E db n {} (del_old_vlan E k s)"
    and "vlan_at (del_old_vlan E k s) k' = (if k' = k then None else vlan_at s k')"
    and "port_at (del_old_vlan E k s) j = None \<longleftrightarrow> port_at s j = None"
proof -
  note tD = trackedD [OF tr]
  let ?t = "del_old_vlan E k s" and ?vid = "vd_vid v"
  have valid: "VALID_VID ?vid" by (rule cache_okD(6) [OF tD(1) v])
  have sz: "nat ?vid < VLAN_BITMAP_SIZE (bmp E)" by (rule valid_vid_size [OF env valid])
  have t: "all_ports ?t = map (\<lambda>(k, p). (k, untrunk_vlan E ?vid p)) (all_ports s)"
    "all_vlans ?t = shash_delete k (all_vlans s)" "idl_seqno ?t = idl_seqno s"
    "all_vlans_bitmap ?t = bitmap_set (bmp E) (all_vlans_bitmap s) (c_size_t ?vid) False"
    using v by (simp_all add: del_old_vlan_def)
  have at: "vlan_at ?t k' = (if k' = k then None else vlan_at s k')" for k'
    by (simp add: t sd.lookup_delete)
  then show "vlan_at ?t k' = (if k' = k then None else vlan_at s k')" .
  show "port_at ?t j = None \<longleftrightarrow> port_at s j = None" by (simp add: t find_map_values)
  have known: "known_vids ?t = known_vids s - {nat ?vid}"
    by (rule known_vids_delete [OF tD(1) v at])
  have atD: "vlan_at s k' = Some u" if "vlan_at ?t k' = Some u" for k' u
    using that unfolding at by (simp split: if_splits)
  show "tracked E db n {} ?t"
  proof (rule retrunk_tracked [OF tr retrunk_untrunk t(1)])
    show "idl_seqno ?t = n" using tD(4) t by simp
    show "shash_ok (all_vlans ?t)" using cache_okD(2) [OF tD(1)] by (simp add: t sd.ok_delete)
    show "bits (bmp E) (all_vlans_bitmap ?t) = known_vids ?t"
      using env sz valid cache_okD(8) [OF tD(1)] by (simp add: t known bitmap_simps)
    show "linked db ?t" using tD(2) atD unfolding linked_def by blast
    show "known_vids ?t \<subseteq> port_bits E (untrunk_vlan E ?vid p)"
      if "port_at s k' = Some p" "pd_trunk_all_vlans p" for k' p
      using that tD(3) env sz valid
      by (auto simp: known untrunk_vlan_def trunks_covered_def bitmap_simps)
    show "row_changed db n (v_row row)"
      if "row \<in> set (vlans db)" "vlan_at ?t (v_name row) = None" for row
    proof -
      have "v_name row \<noteq> k" using that(1) del by (auto simp: vlan_row_named_def)
      with that tD(6) show ?thesis by (simp add: at)
    qed
    show "vd_name u = k' \<and> VALID_VID (vd_vid u)" if "vlan_at ?t k' = Some u" for k' u
      using atD [OF that] cache_okD(5,6) [OF tD(1)] by blast
    show "k1 = k2" if "vlan_at ?t k1 = Some v1" "vlan_at ?t k2 = Some v2" "vd_vid v1 = vd_vid v2"
      for k1 k2 v1 v2
      by (rule cache_okD(7) [OF tD(1) atD [OF that(1)] atD [OF that(2)] that(3)])
    show "vlan_tracked E db n {} s u row"
      if "vlan_at ?t k' = Some u" "row \<in> set (vlans db)" "v_row row = vd_idl_cfg u" for k' u row
      by (rule tD(8) [OF atD [OF that(1)] that(2,3)])
  qed
qed

lemma find_collect_vlans:
  "shash_find_data (collect_vlans rank rows) k = find (\<lambda>r. v_name r = k) rows"
  using sd.lookup_collect [where name = v_name and dat = "\<lambda>r. r" and t = "[]" and rank = rank]
  by (simp add: collect_vlans_def option.map_ident shash_find_data_def [of "[]"])

lemma shash_ok_collect_vlans [simp]: "shash_ok (collect_vlans rank rows)"
  unfolding collect_vlans_def by (rule sd.ok_collect) simp

lemma find_vlan_named: "find (\<lambda>r. v_name r = k) (vlans db) = None \<longleftrightarrow> \<not> vlan_row_named db k"
  by (auto simp: vlan_row_named_def find_None)

lemma delete_stale_vlans_tracked:
  assumes env: "env_ok E" and tr: "tracked E db n {} s"
  shows "tracked E db n {} (delete_stale_vlans E (collect_vlans rank (vlans db)) s) \<and>
    (\<forall>k. vlan_at (delete_stale_vlans E (collect_vlans rank (vlans db)) s) k =
       (if vlan_row_named db k then vlan_at s k else None)) \<and>
    (\<forall>j. port_at (delete_stale_vlans E (collect_vlans rank (vlans db)) s) j = None \<longleftrightarrow> port_at s j = None)"
proof -
  let ?idl = "collect_vlans rank (vlans db)" and ?ks = "shash_nodes (all_vlans s)"
  let ?f = "\<lambda>s name. case shash_find_data ?idl name of Some row \<Rightarrow> s | None \<Rightarrow> del_old_vlan E name s"
  have ok: "shash_ok (all_vlans s)" using trackedD(1) [OF tr] by (rule cache_okD)
  define I where "I pre t \<longleftrightarrow> tracked E db n {} t \<and>
      (\<forall>k. vlan_at t k = (if k \<in> set pre \<and> \<not> vlan_row_named db k then None else vlan_at s k)) \<and>
      (\<forall>j. port_at t j = None \<longleftrightarrow> port_at s j = None)" for pre :: "string list" and t :: "'a vland"
  have "I ?ks (foldl ?f s ?ks)"
  proof (rule foldl_prefix)
    show "I [] s" using tr by (simp add: I_def)
  next
    fix pre k post t assume split: "?ks = pre @ k # post" and I: "I pre t"
    have k: "k \<notin> set pre" "vlan_at s k \<noteq> None"
      using split sd.set_nodes [OF ok] sd.distinct_nodes [OF ok] by auto
    show "I (pre @ [k]) (?f t k)"
    proof (cases "vlan_row_named db k")
      case True
      then have "?f t k = t"
        using find_vlan_named [of k db] by (auto simp: find_collect_vlans split: option.split)
      with True I show ?thesis by (simp add: I_def)
    next
      case False
      then have f: "?f t k = del_old_vlan E k t"
        using find_vlan_named [of k db] by (simp add: find_collect_vlans)
      have "vlan_at t k = vlan_at s k" using I k by (simp add: I_def)
      with k obtain v where v: "vlan_at t k = Some v" by auto
      have trt: "tracked E db n {} t" using I by (simp add: I_def)
      note d = del_old_vlan_tracked [OF env trt False v]
      show ?thesis unfolding f I_def d(2,3) using d(1) I False by (simp add: I_def)
    qed
  qed
  moreover have "vlan_at s k = None" if "k \<notin> set ?ks" for k
    using that sd.set_nodes [OF ok] by auto
  ultimately show ?thesis unfolding delete_stale_vlans_def I_def by auto
qed

end
