(* ===== verification/Vlan_Update.thy ===== *)
theory Vlan_Update
  imports Vlan_Sync
begin

text \<open>
  Adding VLANs and handling changed rows, and the contract of the whole of
  \<^verbatim>\<open>update_vlan_cache\<close>: it returns in a state that is in sync with the database.
\<close>

section \<open>Adding missing VLANs\<close>

lemma add_new_vlan_eq:
  fixes E :: "'b vland_env" and db :: ovsdb
  assumes "vlan_at s (v_name row) = None" and "VALID_VID (v_id row)"
  defines "v \<equiv> (parse_vlan_data row)\<lparr>vd_any_member_exists := any_cached_member E db s (v_id row)\<rparr>"
  shows "all_ports (add_new_vlan E db row s) =
      map (\<lambda>(k, p). (k, add_trunked_vlan E db (v_id row) p)) (all_ports s)"
    and "vlan_at (add_new_vlan E db row s) k = (if k = v_name row then Some v else vlan_at s k)"
    and "shash_ok (all_vlans s) \<Longrightarrow> shash_ok (all_vlans (add_new_vlan E db row s))"
    and "all_vlans_bitmap (add_new_vlan E db row s) =
      bitmap_set (bmp E) (all_vlans_bitmap s) (nat (v_id row)) True"
    and "idl_seqno (add_new_vlan E db row s) = idl_seqno s"
    and "txn_writes (add_new_vlan E db row s) = txn_writes s"
    and "system_configured (add_new_vlan E db row s) = system_configured s"
    and "default_vlan_created (add_new_vlan E db row s) = default_vlan_created s"
proof -
  define sh where
    "sh = snd (shash_add_once (hash_rank E) (v_name row) (parse_vlan_data row) (all_vlans s))"
  have add: "shash_add_once (hash_rank E) (v_name row) (parse_vlan_data row) (all_vlans s) = (True, sh)"
    using assms(1) sd.add_fst [of "hash_rank E" "v_name row" "parse_vlan_data row" "all_vlans s"]
    by (simp add: sh_def prod_eq_iff)
  have vid: "vd_vid (parse_vlan_data row) = v_id row" "c_size_t (v_id row) = nat (v_id row)"
    using assms(2) by (simp_all add: parse_vlan_data_def)
  have eq: "add_new_vlan E db row s =
      put_vlan (v_name row) v (s\<lparr>all_vlans := sh,
        all_vlans_bitmap := bitmap_set (bmp E) (all_vlans_bitmap s) (nat (v_id row)) True,
        all_ports := map (\<lambda>(k, p). (k, add_trunked_vlan E db (v_id row) p)) (all_ports s)\<rparr>)"
    by (simp add: add_new_vlan_def add update_vlan_membership_eq vid v_def any_cached_member_def Let_def)
  have find: "shash_find_data sh k = (if k = v_name row then Some (parse_vlan_data row) else vlan_at s k)" for k
    using assms(1) by (simp add: sh_def sd.lookup_add)
  show "all_ports (add_new_vlan E db row s) =
      map (\<lambda>(k, p). (k, add_trunked_vlan E db (v_id row) p)) (all_ports s)"
    and "vlan_at (add_new_vlan E db row s) k = (if k = v_name row then Some v else vlan_at s k)"
    and "shash_ok (all_vlans s) \<Longrightarrow> shash_ok (all_vlans (add_new_vlan E db row s))"
    and "all_vlans_bitmap (add_new_vlan E db row s) =
      bitmap_set (bmp E) (all_vlans_bitmap s) (nat (v_id row)) True"
    and "idl_seqno (add_new_vlan E db row s) = idl_seqno s"
    and "txn_writes (add_new_vlan E db row s) = txn_writes s"
    and "system_configured (add_new_vlan E db row s) = system_configured s"
    and "default_vlan_created (add_new_vlan E db row s) = default_vlan_created s"
    by (simp_all add: eq frame_simps find_put find) (simp add: sh_def sd.ok_add)
qed

lemma add_new_vlan_tracked:
  assumes env: "env_ok E" and wf: "wf_db db" and tr: "tracked E db n {} s"
    and row: "row \<in> set (vlans db)" and new: "vlan_at s (v_name row) = None"
  shows "tracked E db n {} (add_new_vlan E db row s)"
proof -
  note tD = trackedD [OF tr]
  have valid: "VALID_VID (v_id row)" using wf row by (simp add: wf_db_def)
  have sz: "nat (v_id row) < VLAN_BITMAP_SIZE (bmp E)" by (rule valid_vid_size [OF env valid])
  let ?t = "add_new_vlan E db row s" and ?k = "v_name row"
  let ?v = "(parse_vlan_data row)\<lparr>vd_any_member_exists := any_cached_member E db s (v_id row)\<rparr>"
  note t = add_new_vlan_eq [where E = E and db = db, OF new valid]
  have v: "vd_name ?v = ?k" "vd_vid ?v = v_id row" "vd_idl_cfg ?v = v_row row"
    using valid by (simp_all add: parse_vlan_data_def)
  have atD: "k = ?k \<and> u = ?v \<or> k \<noteq> ?k \<and> vlan_at s k = Some u" if "vlan_at ?t k = Some u" for k u
    using that unfolding t(2) by (simp split: if_splits)
  have at_iff: "vlan_at ?t k = Some u \<longleftrightarrow> k = ?k \<and> u = ?v \<or> k \<noteq> ?k \<and> vlan_at s k = Some u" for k u
    unfolding t(2) by auto
  have same: "r = row" if "r \<in> set (vlans db)" "v_name r = ?k \<or> v_id r = v_id row \<or> v_row r = v_row row" for r
    using that row wf distinct_map_eq [of v_name "vlans db" r row] distinct_map_eq [of v_id "vlans db" r row]
      distinct_map_eq [of v_row "vlans db" r row] unfolding wf_db_def by blast
  have fresh: "vd_vid u \<noteq> v_id row" if "vlan_at s k = Some u" for k u
  proof
    assume "vd_vid u = v_id row"
    with linkedD(1) [OF tD(2) that row] that new show False by simp
  qed
  have known: "known_vids ?t = insert (nat (v_id row)) (known_vids s)"
  proof (rule set_eqI)
    fix i
    have "i \<in> known_vids ?t \<longleftrightarrow> (\<exists>k u. vlan_at ?t k = Some u \<and> i = nat (vd_vid u))"
      unfolding known_vids_def by blast
    also have "\<dots> \<longleftrightarrow> i = nat (v_id row) \<or> (\<exists>k u. vlan_at s k = Some u \<and> i = nat (vd_vid u))"
      using at_iff v(2) new by (metis option.distinct(1))
    also have "\<dots> \<longleftrightarrow> i \<in> insert (nat (v_id row)) (known_vids s)" unfolding known_vids_def by blast
    finally show "i \<in> known_vids ?t \<longleftrightarrow> i \<in> insert (nat (v_id row)) (known_vids s)" .
  qed
  show ?thesis
  proof (rule retrunk_tracked [OF tr retrunk_add t(1)])
    show "idl_seqno ?t = n" using tD(4) t(5) by simp
    show "shash_ok (all_vlans ?t)" by (rule t(3) [OF cache_okD(2) [OF tD(1)]])
    show "vd_name u = k \<and> VALID_VID (vd_vid u)" if "vlan_at ?t k = Some u" for k u
      using atD [OF that] v valid cache_okD(5,6) [OF tD(1)] by metis
    show "k1 = k2" if "vlan_at ?t k1 = Some v1" "vlan_at ?t k2 = Some v2" "vd_vid v1 = vd_vid v2"
      for k1 k2 v1 v2
      using atD [OF that(1)] atD [OF that(2)] that(3) v(2) fresh cache_okD(7) [OF tD(1)] by metis
    show "bits (bmp E) (all_vlans_bitmap ?t) = known_vids ?t"
      using env sz cache_okD(8) [OF tD(1)] by (simp add: t(4) known bitmap_simps)
    show "linked db ?t"
      unfolding linked_def
    proof (intro allI impI ballI)
      fix k u r assume a: "vlan_at ?t k = Some u" "r \<in> set (vlans db)"
        "v_name r = k \<or> v_id r = vd_vid u \<or> v_row r = vd_idl_cfg u"
      from atD [OF a(1)] show "v_name r = k \<and> v_id r = vd_vid u \<and> v_row r = vd_idl_cfg u"
      proof
        assume "k = ?k \<and> u = ?v"
        with a(2,3) same [of r] v show ?thesis by simp
      next
        assume "k \<noteq> ?k \<and> vlan_at s k = Some u"
        with linkedD [OF tD(2) _ a(2,3)] show ?thesis by blast
      qed
    qed
    show "known_vids ?t \<subseteq> port_bits E (add_trunked_vlan E db (v_id row) p)"
      if p: "port_at s k = Some p" "pd_trunk_all_vlans p" for k p
    proof -
      from tD(5) [OF p(1)] obtain r where "p_name r = k" "port_synced E db r p" by blast
      with p(2) cache_okD(3) [OF tD(1) p(1)] have "check_port_in_bridge db (pd_name p)"
        by (simp add: port_synced_def)
      moreover have "known_vids s \<subseteq> port_bits E p" using tD(3) p unfolding trunks_covered_def by blast
      ultimately show ?thesis
        using p(2) env sz valid by (auto simp: known add_trunked_vlan_def bitmap_simps)
    qed
    show "row_changed db n (v_row r)" if "r \<in> set (vlans db)" "vlan_at ?t (v_name r) = None" for r
      using that tD(6) [of r] unfolding t(2) by (simp split: if_splits)
    show "vlan_tracked E db n {} s u r"
      if a: "vlan_at ?t k = Some u" "r \<in> set (vlans db)" "v_row r = vd_idl_cfg u" for k u r
      using atD [OF a(1)]
    proof
      assume ku: "k = ?k \<and> u = ?v"
      with a(2,3) v same [of r] have "r = row" by simp
      with tD(6) [OF row new] ku v(2) show ?thesis by (simp add: vlan_tracked_def member_ok_def)
    next
      assume "k \<noteq> ?k \<and> vlan_at s k = Some u"
      with tD(8) a(2,3) show ?thesis by blast
    qed
  qed
qed

lemma collect_vlans_nodes:
  assumes "(name, row) \<in> set (collect_vlans rank rows)"
  shows "row \<in> set rows \<and> v_name row = name"
proof -
  from assms have "shash_find_data (collect_vlans rank rows) name = Some row"
    by (simp add: find_in_set)
  then show ?thesis by (auto simp: find_collect_vlans dest: find_SomeD)
qed

lemma add_missing_vlans_tracked:
  assumes env: "env_ok E" and wf: "wf_db db" and tr: "tracked E db n {} s"
  shows "tracked E db n {} (add_missing_vlans E db (collect_vlans rank (vlans db)) s) \<and>
    (\<forall>k. vlan_at (add_missing_vlans E db (collect_vlans rank (vlans db)) s) k \<noteq> None \<longleftrightarrow>
       vlan_at s k \<noteq> None \<or> vlan_row_named db k) \<and>
    (\<forall>j. port_at (add_missing_vlans E db (collect_vlans rank (vlans db)) s) j = None \<longleftrightarrow>
       port_at s j = None)"
proof -
  let ?idl = "collect_vlans rank (vlans db)"
  let ?f = "\<lambda>s (name, row). case vlan_at s name of Some new_vlan \<Rightarrow> s | None \<Rightarrow> add_new_vlan E db row s"
  define I where "I pre t \<longleftrightarrow> tracked E db n {} t \<and>
      (\<forall>k. vlan_at t k \<noteq> None \<longleftrightarrow> vlan_at s k \<noteq> None \<or> k \<in> fst ` set pre) \<and>
      (\<forall>j. port_at t j = None \<longleftrightarrow> port_at s j = None)"
    for pre :: "ovsrec_vlan shash" and t :: "'a vland"
  have "I ?idl (foldl ?f s ?idl)"
  proof (rule foldl_prefix)
    show "I [] s" using tr by (simp add: I_def)
  next
    fix pre x post t assume split: "?idl = pre @ x # post" and I: "I pre t"
    obtain name row where x: "x = (name, row)" by fastforce
    have row: "row \<in> set (vlans db)" "v_name row = name"
      using collect_vlans_nodes [of name row rank "vlans db"] split x by auto
    have valid: "VALID_VID (v_id row)" using wf row by (simp add: wf_db_def)
    have img: "fst ` set (pre @ [x]) = insert name (fst ` set pre)" using x by simp
    show "I (pre @ [x]) (?f t x)"
    proof (cases "vlan_at t name")
      case None
      then have new: "vlan_at t (v_name row) = None" using row(2) by simp
      note a = add_new_vlan_eq [where E = E and db = db, OF new valid]
      have It: "\<And>k. vlan_at t k \<noteq> None \<longleftrightarrow> vlan_at s k \<noteq> None \<or> k \<in> fst ` set pre"
        "\<And>j. port_at t j = None \<longleftrightarrow> port_at s j = None" using I by (simp_all add: I_def)
      have trt: "tracked E db n {} (add_new_vlan E db row t)"
        using I by (intro add_new_vlan_tracked [OF env wf _ row(1) new]) (simp add: I_def)
      have "vlan_at (add_new_vlan E db row t) k \<noteq> None \<longleftrightarrow>
          vlan_at s k \<noteq> None \<or> k \<in> insert name (fst ` set pre)" for k
      proof -
        have "vlan_at (add_new_vlan E db row t) k \<noteq> None \<longleftrightarrow> k = name \<or> vlan_at t k \<noteq> None"
          unfolding a(2) row(2) by simp
        then show ?thesis unfolding It(1) by blast
      qed
      moreover have "port_at (add_new_vlan E db row t) j = None \<longleftrightarrow> port_at s j = None" for j
        using It(2) [of j] unfolding a(1) find_map_values by simp
      ultimately have "I (pre @ [x]) (add_new_vlan E db row t)"
        using trt unfolding I_def img by (intro conjI allI)
      with None x show ?thesis by simp
    next
      case (Some u)
      have "I (pre @ [x]) t" using I Some unfolding I_def img by blast
      with Some x show ?thesis by simp
    qed
  qed
  moreover have "k \<in> fst ` set ?idl \<longleftrightarrow> vlan_row_named db k" for k
  proof -
    have "k \<in> fst ` set ?idl \<longleftrightarrow> shash_find_data ?idl k \<noteq> None"
      by (simp add: shash_find_data_def map_of_eq_None_iff)
    then show ?thesis using find_vlan_named [of k db] by (simp add: find_collect_vlans)
  qed
  ultimately have fin: "I ?idl (foldl ?f s ?idl)" "\<And>k. k \<in> fst ` set ?idl \<longleftrightarrow> vlan_row_named db k"
    by blast+
  from fin(1) show ?thesis unfolding add_missing_vlans_def I_def fin(2) .
qed

section \<open>Handling changed rows\<close>

definition vlan_synced :: "'b vland_env \<Rightarrow> ovsdb \<Rightarrow> 'b vland \<Rightarrow> ovsrec_vlan \<Rightarrow> vlan_data \<Rightarrow> bool" where
  "vlan_synced E db s row v \<longleftrightarrow> member_ok E db s v \<and> state_ok E db v \<and> vd_admin v = row_admin row"

lemma any_cached_member_ports:
  "all_ports t = all_ports s \<Longrightarrow> any_cached_member E db t vid = any_cached_member E db s vid"
  by (simp add: any_cached_member_def)

lemma update_vlan_tracked:
  assumes env: "env_ok E" and wf: "wf_db db" and tr: "tracked E db n {} s"
    and v: "vlan_at s k = Some v" and row: "shash_find_data idl k = Some row"
    and rowk: "row \<in> set (vlans db)" "v_name row = k" and ch: "row_changed db n (v_row row)"
  obtains m s' v' where "update_vlan E db idl k (rc, s) = Some (m, s')" "tracked E db n {} s'"
    "all_ports s' = all_ports s" "vlan_synced E db s' row v'"
    "\<And>k'. vlan_at s' k' = (if k' = k then Some v' else vlan_at s k')"
proof -
  note tD = trackedD [OF tr]
  let ?va = "v\<lparr>vd_admin := row_admin row\<rparr>"
  have lnk: "v_id row = vd_vid v" "v_row row = vd_idl_cfg v"
    using linkedD(2,3) [OF tD(2) v rowk(1)] rowk(2) by simp_all
  have d: "deref_vlan db (v_row row) = Some row" using rowk(1) wf by (simp add: deref_vlan_Some)
  obtain m v' ws where h: "handle_vlan_config (ops E) db (v_row row) ?va = Some (m, v', ws)"
    and le: "vlan_le ?va v'" and set: "\<not> l3_internal row \<Longrightarrow> vlan_settled (ops E) db v'"
    and any: "vd_any_member_exists v' = vd_any_member_exists ?va \<or>
      vd_any_member_exists v' = effective_member (ops E) db ?va"
    by (rule handle_vlan_config_effect [OF d]) blast
  let ?t = "(put_vlan k v' s)\<lparr>txn_writes := txn_writes s @ ws\<rparr>"
  have eq: "vd_name v' = vd_name v" "vd_vid v' = vd_vid v" "vd_idl_cfg v' = vd_idl_cfg v"
    "vd_admin v' = row_admin row" using le by (simp_all add: vlan_le_def)
  have at: "vlan_at ?t k' = (if k' = k then Some v' else vlan_at s k')" for k'
    using v by (simp add: frame_simps find_put)
  have ports: "all_ports ?t = all_ports s" by (simp add: frame_simps)
  have mem: "member_ok E db s v" using tD(8) [OF v rowk(1)] lnk by (simp add: vlan_tracked_def covered_def)
  then have mem': "member_ok E db s v'"
    using any eq by (auto simp: member_ok_def effective_member_def)
  have st': "state_ok E db v'" using set d eq lnk by (auto simp: state_ok_def)
  have atD: "\<exists>u'. vlan_at s k' = Some u' \<and> vd_name u = vd_name u' \<and> vd_vid u = vd_vid u' \<and>
      vd_idl_cfg u = vd_idl_cfg u'" if "vlan_at ?t k' = Some u" for k' u
    using that v eq unfolding at by (cases "k' = k") simp_all
  have known: "known_vids ?t = known_vids s"
  proof (rule set_eqI)
    fix i
    have "(\<exists>k' u. vlan_at ?t k' = Some u \<and> i = nat (vd_vid u)) \<longleftrightarrow>
        (\<exists>k' u. vlan_at s k' = Some u \<and> i = nat (vd_vid u))"
    proof
      assume "\<exists>k' u. vlan_at ?t k' = Some u \<and> i = nat (vd_vid u)"
      then show "\<exists>k' u. vlan_at s k' = Some u \<and> i = nat (vd_vid u)" using atD by fastforce
    next
      assume "\<exists>k' u. vlan_at s k' = Some u \<and> i = nat (vd_vid u)"
      then obtain k' u where u: "vlan_at s k' = Some u" "i = nat (vd_vid u)" by blast
      have "vlan_at ?t k' = Some (if k' = k then v' else u)" unfolding at using u(1) by simp
      moreover have "vd_vid (if k' = k then v' else u) = vd_vid u" using u(1) v eq(2) by auto
      ultimately show "\<exists>k' u. vlan_at ?t k' = Some u \<and> i = nat (vd_vid u)" using u(2) by metis
    qed
    then show "i \<in> known_vids ?t \<longleftrightarrow> i \<in> known_vids s" unfolding known_vids_def by blast
  qed
  have "tracked E db n {} ?t"
  proof (rule retrunk_tracked [OF tr])
    show "retrunk (\<lambda>p. p)" by (simp add: retrunk_def)
    show "all_ports ?t = map (\<lambda>(k, p). (k, p)) (all_ports s)" by (simp add: frame_simps)
    show "idl_seqno ?t = n" using tD(4) by (simp add: frame_simps)
    show "shash_ok (all_vlans ?t)" using cache_okD(2) [OF tD(1)] by (simp add: frame_simps)
    show "vd_name u = k' \<and> VALID_VID (vd_vid u)" if "vlan_at ?t k' = Some u" for k' u
      using atD [OF that] cache_okD(5,6) [OF tD(1)] by metis
    show "k1 = k2" if "vlan_at ?t k1 = Some v1" "vlan_at ?t k2 = Some v2" "vd_vid v1 = vd_vid v2"
      for k1 k2 v1 v2
      using atD [OF that(1)] atD [OF that(2)] that(3) cache_okD(7) [OF tD(1)] by metis
    show "bits (bmp E) (all_vlans_bitmap ?t) = known_vids ?t"
      using cache_okD(8) [OF tD(1)] by (simp only: known) (simp add: frame_simps)
    show "linked db ?t" using tD(2) atD unfolding linked_def by metis
    show "known_vids ?t \<subseteq> port_bits E p" if "port_at s k' = Some p" "pd_trunk_all_vlans p" for k' p
      using tD(3) that unfolding known trunks_covered_def by blast
    show "row_changed db n (v_row r)" if "r \<in> set (vlans db)" "vlan_at ?t (v_name r) = None" for r
      using that tD(6) unfolding at by (simp split: if_splits)
    show "vlan_tracked E db n {} s u r"
      if a: "vlan_at ?t k' = Some u" "r \<in> set (vlans db)" "v_row r = vd_idl_cfg u" for k' u r
    proof (cases "k' = k")
      case True
      with a(1) at have "u = v'" by simp
      with a(3) eq lnk ch mem' st' show ?thesis by (simp add: vlan_tracked_def)
    next
      case False
      with a(1) at have "vlan_at s k' = Some u" by simp
      with tD(8) a(2,3) show ?thesis by blast
    qed
  qed
  moreover have "vlan_synced E db ?t row v'"
    using mem' st' eq any_cached_member_ports [OF ports, of E db]
    by (simp add: vlan_synced_def member_ok_def)
  moreover have "update_vlan E db idl k (rc, s) = Some (if m \<noteq> 0 then Suc rc else rc, ?t)"
    using h v row ch tD(4) by (simp add: update_vlan_def configure_vlan_def)
  ultimately show thesis using that ports at by blast
qed

end
