(* ===== verification/Reconfigure.thy ===== *)
theory Reconfigure
  imports Vlan_Update
begin

text \<open>
  \<^verbatim>\<open>vland_reconfigure\<close> runs the port half and then the VLAN half. Its contract: from a state
  that was in sync with the previous replica, a replica reached by tracked changes leaves it
  in sync with the new one, and in sync means that every VLAN row has the state and the reason
  the specification gives it.
\<close>

section \<open>In sync with a database\<close>

definition in_sync :: "'b vland_env \<Rightarrow> ovsdb \<Rightarrow> 'b vland \<Rightarrow> bool" where
  "in_sync E db s \<longleftrightarrow>
     cache_ok E s \<and> linked db s \<and> trunks_covered E s \<and>
     (\<forall>k. port_at s k \<noteq> None \<longleftrightarrow> port_row_named db k \<and> k \<noteq> DEFAULT_BRIDGE_NAME) \<and>
     (\<forall>k p. port_at s k = Some p \<longrightarrow>
        (\<exists>row \<in> set (ports db). p_name row = k \<and> port_synced E db row p)) \<and>
     (\<forall>k. vlan_at s k \<noteq> None \<longleftrightarrow> vlan_row_named db k) \<and>
     (\<forall>k v row. vlan_at s k = Some v \<longrightarrow> row \<in> set (vlans db) \<longrightarrow> v_name row = k \<longrightarrow>
        vlan_synced E db s row v)"

lemma in_syncD:
  assumes "in_sync E db s"
  shows "cache_ok E s" "linked db s" "trunks_covered E s"
    "port_at s k \<noteq> None \<longleftrightarrow> port_row_named db k \<and> k \<noteq> DEFAULT_BRIDGE_NAME"
    "port_at s k = Some p \<Longrightarrow> \<exists>row \<in> set (ports db). p_name row = k \<and> port_synced E db row p"
    "vlan_at s k \<noteq> None \<longleftrightarrow> vlan_row_named db k"
    "vlan_at s k = Some v \<Longrightarrow> row \<in> set (vlans db) \<Longrightarrow> v_name row = k \<Longrightarrow> vlan_synced E db s row v"
  using assms unfolding in_sync_def by blast+

text \<open>What a daemon that is in sync holds for a VLAN row.\<close>

lemma in_sync_vlan:
  assumes env: "env_ok E" and wf: "wf_db db" and s: "in_sync E db s" and row: "row \<in> set (vlans db)"
  obtains v where "vlan_at s (v_name row) = Some v" "vd_vid v = v_id row" "vd_idl_cfg v = v_row row"
    "vd_admin v = row_admin row"
    "effective_member (ops E) db v \<longleftrightarrow> spec_any_member (ops E) db (v_id row) \<or>
       v_id row = DEFAULT_VID \<and> vland_default_vlan_member_port (ops E) db"
    "\<not> l3_internal row \<Longrightarrow> (vd_op_state v, vd_op_state_reason v) = spec_oper (ops E) db row"
proof -
  note D = in_syncD [OF s]
  have "vlan_row_named db (v_name row)" using row by (auto simp: vlan_row_named_def)
  with D(6) obtain v where v: "vlan_at s (v_name row) = Some v" by blast
  have l: "v_id row = vd_vid v" "v_row row = vd_idl_cfg v" using linkedD(2,3) [OF D(2) v row] by simp_all
  have sy: "vlan_synced E db s row v" by (rule D(7) [OF v row refl])
  have valid: "VALID_VID (v_id row)" using wf row by (simp add: wf_db_def)
  have tr: "tracked E db (idl_seqno s) {} s"
    unfolding tracked_def
  proof (intro conjI allI impI ballI)
    fix r assume "r \<in> set (vlans db)" "vlan_at s (v_name r) = None"
    with D(6) [of "v_name r"] show "row_changed db (idl_seqno s) (v_row r)"
      by (auto simp: vlan_row_named_def)
  next
    fix r assume "r \<in> set (ports db)" "p_name r \<noteq> DEFAULT_BRIDGE_NAME" "port_at s (p_name r) = None"
    with D(4) [of "p_name r"] show "row_changed db (idl_seqno s) (p_row r)"
      by (auto simp: port_row_named_def)
  next
    fix k u r assume a: "vlan_at s k = Some u" "r \<in> set (vlans db)" "v_row r = vd_idl_cfg u"
    with linkedD(1) [OF D(2) a(1,2)] D(7) [OF a(1,2)] show "vlan_tracked E db (idl_seqno s) {} s u r"
      by (simp add: vlan_tracked_def vlan_synced_def)
  qed (use D in auto)
  have acm: "any_cached_member E db s (v_id row) = spec_any_member (ops E) db (v_id row)"
    by (rule any_cached_member_spec [OF env wf tr _ valid]) (use D(4) in blast)
  have eff: "effective_member (ops E) db v \<longleftrightarrow> spec_any_member (ops E) db (v_id row) \<or>
       v_id row = DEFAULT_VID \<and> vland_default_vlan_member_port (ops E) db"
    using sy acm l by (auto simp: vlan_synced_def member_ok_def effective_member_def)
  have d: "deref_vlan db (vd_idl_cfg v) = Some row" using row wf l by (simp add: deref_vlan_Some)
  have "(vd_op_state v, vd_op_state_reason v) = spec_oper (ops E) db row" if "\<not> l3_internal row"
    using sy d that eff l by (simp add: vlan_synced_def state_ok_def vlan_settled_def spec_oper_def)
  with v l sy eff that show thesis by (simp add: vlan_synced_def)
qed

section \<open>The contract of the VLAN half\<close>

lemma update_changed_vlans_sync:
  assumes env: "env_ok E" and wf: "wf_db db" and tr: "tracked E db n {} s"
    and rows: "\<forall>k. vlan_at s k \<noteq> None \<longleftrightarrow> vlan_row_named db k"
    and prows: "\<forall>k. port_at s k \<noteq> None \<longleftrightarrow> port_row_named db k \<and> k \<noteq> DEFAULT_BRIDGE_NAME"
  shows "\<exists>rc s'. update_changed_vlans E db (collect_vlans rank (vlans db)) s = Some (rc, s') \<and>
    in_sync E db s' \<and> idl_seqno s' = n"
proof -
  let ?idl = "collect_vlans rank (vlans db)" and ?ks = "shash_nodes (all_vlans s)"
  have ok: "shash_ok (all_vlans s)" using trackedD(1) [OF tr] by (rule cache_okD)
  define J where "J k t \<longleftrightarrow> (\<forall>v row. vlan_at t k = Some v \<longrightarrow> row \<in> set (vlans db) \<longrightarrow>
      v_name row = k \<longrightarrow> vlan_synced E db t row v)" for k and t :: "'a vland"
  define I where "I pre st \<longleftrightarrow> tracked E db n {} (snd st) \<and> all_ports (snd st) = all_ports s \<and>
      (\<forall>k. vlan_at (snd st) k \<noteq> None \<longleftrightarrow> vlan_at s k \<noteq> None) \<and> (\<forall>k \<in> set pre. J k (snd st))"
    for pre :: "string list" and st :: "nat \<times> 'a vland"
  have "\<exists>st. foldM (update_vlan E db ?idl) ?ks (0, s) = Some st \<and> I ?ks st"
  proof (rule foldM_prefix)
    show "I [] (0, s)" using tr by (simp add: I_def)
  next
    fix pre k post st assume split: "?ks = pre @ k # post" and I: "I pre st"
    obtain m t where st: "st = (m, t)" by fastforce
    have trt: "tracked E db n {} t" and pt: "all_ports t = all_ports s"
      and at: "\<And>k. vlan_at t k \<noteq> None \<longleftrightarrow> vlan_at s k \<noteq> None" and Jt: "\<forall>k \<in> set pre. J k t"
      using I st by (simp_all add: I_def)
    have k: "k \<notin> set pre" "vlan_at s k \<noteq> None"
      using split sd.set_nodes [OF ok] sd.distinct_nodes [OF ok] by auto
    with at obtain v where v: "vlan_at t k = Some v" by blast
    from k(2) rows have "vlan_row_named db k" by blast
    then obtain row where row: "shash_find_data ?idl k = Some row"
      using find_vlan_named [of k db] by (auto simp: find_collect_vlans)
    then have rowk: "row \<in> set (vlans db)" "v_name row = k"
      by (auto simp: find_collect_vlans dest: find_SomeD)
    have same: "r = row" if "r \<in> set (vlans db)" "v_name r = k" for r
      using that rowk wf by (intro distinct_map_eq [of v_name "vlans db"]) (simp_all add: wf_db_def)
    show "\<exists>u. update_vlan E db ?idl k st = Some u \<and> I (pre @ [k]) u"
    proof (cases "row_changed db n (v_row row)")
      case True
      from update_vlan_tracked [OF env wf trt v row rowk True, of m] obtain m' t' v' where
        u: "update_vlan E db ?idl k (m, t) = Some (m', t')" "tracked E db n {} t'"
        "all_ports t' = all_ports t" "vlan_synced E db t' row v'"
        "\<And>k'. vlan_at t' k' = (if k' = k then Some v' else vlan_at t k')" by metis
      have "J k t'" using u(4,5) same by (auto simp: J_def)
      moreover have "J j t'" if "j \<in> set pre" for j
        using that k(1) Jt u(5) any_cached_member_ports [OF u(3), of E db]
        by (auto simp: J_def vlan_synced_def member_ok_def)
      ultimately have "I (pre @ [k]) (m', t')"
        using u(2,3) pt at k(2) by (simp add: I_def u(5))
      with u(1) st show ?thesis by blast
    next
      case False
      have "update_vlan E db ?idl k st = Some st"
        using False v row trackedD(4) [OF trt] by (simp add: update_vlan_def st)
      moreover have "J k t"
        unfolding J_def
      proof (intro allI impI)
        fix u r assume a: "vlan_at t k = Some u" "r \<in> set (vlans db)" "v_name r = k"
        then have "r = row" using same by simp
        moreover have "v_row r = vd_idl_cfg u"
          using linkedD(3) [OF trackedD(2) [OF trt] a(1,2)] a(3) by simp
        ultimately show "vlan_synced E db t r u"
          using trackedD(8) [OF trt a(1,2)] False by (simp add: vlan_synced_def vlan_tracked_def covered_def)
      qed
      ultimately show ?thesis using I st by (auto simp: I_def)
    qed
  qed
  then obtain rc s' where run: "foldM (update_vlan E db ?idl) ?ks (0, s) = Some (rc, s')" "I ?ks (rc, s')"
    by fastforce
  have I: "tracked E db n {} s'" "all_ports s' = all_ports s"
    "\<And>k. vlan_at s' k \<noteq> None \<longleftrightarrow> vlan_at s k \<noteq> None" "\<forall>k \<in> set ?ks. J k s'"
    using run(2) by (simp_all add: I_def)
  note tD = trackedD [OF I(1)]
  have "in_sync E db s'"
    unfolding in_sync_def
  proof (intro conjI allI impI)
    fix k show "port_at s' k \<noteq> None \<longleftrightarrow> port_row_named db k \<and> k \<noteq> DEFAULT_BRIDGE_NAME"
      using prows I(2) by simp
    show "vlan_at s' k \<noteq> None \<longleftrightarrow> vlan_row_named db k" using rows I(3) by blast
    show "\<exists>row \<in> set (ports db). p_name row = k \<and> port_synced E db row p" if "port_at s' k = Some p" for p
      using tD(5) [OF that] by simp
    show "vlan_synced E db s' row v"
      if a: "vlan_at s' k = Some v" "row \<in> set (vlans db)" "v_name row = k" for v row
    proof -
      have "vlan_at s k \<noteq> None" using a(1) I(3) by blast
      then have "k \<in> set ?ks" using sd.set_nodes [OF ok] by blast
      with I(4) a show ?thesis unfolding J_def by blast
    qed
  qed (use tD in simp_all)
  with run(1) tD(4) show ?thesis by (auto simp: update_changed_vlans_def)
qed

lemma update_vlan_cache_sync:
  assumes env: "env_ok E" and wf: "wf_db db" and tr: "tracked E db n {} s"
    and prows: "\<forall>k. port_at s k \<noteq> None \<longleftrightarrow> port_row_named db k \<and> k \<noteq> DEFAULT_BRIDGE_NAME"
  shows "\<exists>rc s'. update_vlan_cache E db s = Some (rc, s') \<and> in_sync E db s' \<and> idl_seqno s' = n"
proof -
  let ?idl = "collect_vlans (hash_rank E) (vlans db)"
  let ?s1 = "delete_stale_vlans E ?idl s"
  let ?s2 = "add_missing_vlans E db ?idl ?s1"
  have d: "tracked E db n {} ?s1"
    "\<forall>k. vlan_at ?s1 k = (if vlan_row_named db k then vlan_at s k else None)"
    "\<forall>j. port_at ?s1 j = None \<longleftrightarrow> port_at s j = None"
    using delete_stale_vlans_tracked [OF env tr, of "hash_rank E"] by blast+
  have a: "tracked E db n {} ?s2"
    "\<forall>k. vlan_at ?s2 k \<noteq> None \<longleftrightarrow> vlan_at ?s1 k \<noteq> None \<or> vlan_row_named db k"
    "\<forall>j. port_at ?s2 j = None \<longleftrightarrow> port_at ?s1 j = None"
    using add_missing_vlans_tracked [OF env wf d(1), of "hash_rank E"] by blast+
  have "\<forall>k. vlan_at ?s2 k \<noteq> None \<longleftrightarrow> vlan_row_named db k" using a(2) d(2) by simp
  moreover have "\<forall>k. port_at ?s2 k \<noteq> None \<longleftrightarrow> port_row_named db k \<and> k \<noteq> DEFAULT_BRIDGE_NAME"
    using a(3) d(3) prows by simp
  ultimately show ?thesis
    using update_changed_vlans_sync [OF env wf a(1), of "hash_rank E"]
    by (simp add: update_vlan_cache_def Let_def)
qed

section \<open>The whole reconfiguration\<close>

definition vland_reconfigure :: "'b vland_env \<Rightarrow> ovsdb \<Rightarrow> 'b vland \<Rightarrow> (nat \<times> 'b vland) option" where
  "vland_reconfigure E db s =
     (let new_idl_seqno = seqno db
      in if new_idl_seqno = idl_seqno s then Some (0, s)
         else
           case update_port_cache E db s of
             None \<Rightarrow> None
           | Some (n, s) \<Rightarrow>
               (let rc = (if n \<noteq> 0 then 1 else 0)
                in case update_vlan_cache E db s of
                     None \<Rightarrow> None
                   | Some (m, s) \<Rightarrow>
                       Some (if m \<noteq> 0 then Suc rc else rc, s\<lparr>idl_seqno := new_idl_seqno\<rparr>)))"

text \<open>
  A new replica reached by tracked changes: every row that differs from the previous replica
  is reported as changed (and so is a port that enters or leaves the bridge), VLAN rows keep
  name, id and address together, no port goes away together with one of its VLANs, and the
  default member test changes only through a port that touches the default VLAN.
\<close>

definition vlan_config_columns ::
  "ovsrec_vlan \<Rightarrow> row_ref \<times> string \<times> int \<times> string option \<times> smap" where
  "vlan_config_columns row = (v_row row, v_name row, v_id row, v_admin row, v_internal_usage row)"

definition tracks :: "'b vland_env \<Rightarrow> ovsdb \<Rightarrow> 'b vland \<Rightarrow> ovsdb \<Rightarrow> bool" where
  "tracks E db s db' \<longleftrightarrow>
     wf_db db' \<and> linked db' s \<and> no_dangling E db' s \<and>
     (\<forall>row \<in> set (ports db'). \<not> row_changed db' (idl_seqno s) (p_row row) \<longrightarrow>
        row \<in> set (ports db) \<and>
        check_port_in_bridge db' (p_name row) = check_port_in_bridge db (p_name row)) \<and>
     (\<forall>row \<in> set (vlans db'). \<not> row_changed db' (idl_seqno s) (v_row row) \<longrightarrow>
        vlan_config_columns row \<in> vlan_config_columns ` set (vlans db)) \<and>
     (\<forall>k v. vlan_at s k = Some v \<longrightarrow> vd_vid v = DEFAULT_VID \<longrightarrow>
        vland_default_vlan_member_port (ops E) db' = vland_default_vlan_member_port (ops E) db \<or>
        covered E db' (changed_ports db' (idl_seqno s) \<union> deleted_ports db') s v)"

lemma tracksD:
  assumes "tracks E db s db'"
  shows "wf_db db'" "linked db' s" "no_dangling E db' s"
    "row \<in> set (ports db') \<Longrightarrow> \<not> row_changed db' (idl_seqno s) (p_row row) \<Longrightarrow>
       row \<in> set (ports db) \<and>
       check_port_in_bridge db' (p_name row) = check_port_in_bridge db (p_name row)"
    "vrow \<in> set (vlans db') \<Longrightarrow> \<not> row_changed db' (idl_seqno s) (v_row vrow) \<Longrightarrow>
       \<exists>old \<in> set (vlans db). v_row old = v_row vrow \<and> v_name old = v_name vrow \<and>
         v_id old = v_id vrow \<and> row_admin old = row_admin vrow \<and> l3_internal old = l3_internal vrow"
    "vlan_at s k = Some v \<Longrightarrow> vd_vid v = DEFAULT_VID \<Longrightarrow>
       vland_default_vlan_member_port (ops E) db' = vland_default_vlan_member_port (ops E) db \<or>
       covered E db' (changed_ports db' (idl_seqno s) \<union> deleted_ports db') s v"
proof -
  show "\<exists>old \<in> set (vlans db). v_row old = v_row vrow \<and> v_name old = v_name vrow \<and>
         v_id old = v_id vrow \<and> row_admin old = row_admin vrow \<and> l3_internal old = l3_internal vrow"
    if "vrow \<in> set (vlans db')" "\<not> row_changed db' (idl_seqno s) (v_row vrow)"
  proof -
    from assms that have "vlan_config_columns vrow \<in> vlan_config_columns ` set (vlans db)"
      unfolding tracks_def by blast
    then show ?thesis by (auto simp: vlan_config_columns_def row_admin_def l3_internal_def)
  qed
qed (use assms in \<open>unfold tracks_def, blast+\<close>)

lemma cached_member_bridge:
  "check_port_in_bridge db' (pd_name p) = check_port_in_bridge db (pd_name p) \<Longrightarrow>
     cached_member E db' vid p = cached_member E db vid p"
  by (simp add: cached_member_def)

lemma in_sync_tracked:
  assumes env: "env_ok E" and wf: "wf_db db" and s: "in_sync E db s" and tr: "tracks E db s db'"
  shows "tracked E db' (idl_seqno s) (changed_ports db' (idl_seqno s) \<union> deleted_ports db') s"
proof -
  let ?n = "idl_seqno s"
  let ?P = "changed_ports db' ?n \<union> deleted_ports db'"
  note D = in_syncD [OF s] and T = tracksD [OF tr]
  have okp: "shash_ok (all_ports s)" by (rule cache_okD(1) [OF D(1)])
  have kept: "\<exists>row \<in> set (ports db'). p_name row = k \<and> row \<in> set (ports db) \<and>
      \<not> row_changed db' ?n (p_row row) \<and> check_port_in_bridge db' k = check_port_in_bridge db k"
    if "k \<notin> ?P" for k
    using that T(4) by (auto simp: changed_ports_def deleted_ports_def port_row_named_def)
  have acm: "any_cached_member E db' s (vd_vid v) = any_cached_member E db s (vd_vid v)"
    if v: "vlan_at s k = Some v" "\<not> covered E db' ?P s v" for k v
  proof -
    have "cached_member E db' (vd_vid v) p = cached_member E db (vd_vid v) p"
      if p: "port_at s j = Some p" for j p
    proof (cases "j \<in> ?P")
      case True
      with v(2) p have "nat (vd_vid v) \<notin> port_bits E p" by (auto simp: covered_def touches_def)
      then have "\<not> cached_member E d (vd_vid v) p" for d
        using D(3) p by (intro not_cached_member [OF env D(1) v(1)]) (auto simp: trunks_covered_def)
      then show ?thesis by simp
    next
      case False
      with kept [of j] cache_okD(3) [OF D(1) p] show ?thesis by (intro cached_member_bridge) auto
    qed
    then show ?thesis unfolding any_cached_member_at [OF okp] by metis
  qed
  have vt: "vlan_tracked E db' ?n ?P s v row"
    if v: "vlan_at s k = Some v" "row \<in> set (vlans db')" "v_row row = vd_idl_cfg v" for k v row
  proof (cases "covered E db' ?P s v")
    case True
    have "vd_admin v = row_admin row \<or> row_changed db' ?n (v_row row)"
    proof (rule disjCI)
      assume "\<not> row_changed db' ?n (v_row row)"
      with T(5) [OF v(2)] obtain old where old: "old \<in> set (vlans db)" "v_row old = v_row row"
        "row_admin old = row_admin row" by blast
      then have "v_name old = k" using linkedD(1) [OF D(2) v(1) old(1)] v(3) by simp
      with D(7) [OF v(1) old(1)] old(3) show "vd_admin v = row_admin row" by (simp add: vlan_synced_def)
    qed
    with True show ?thesis by (simp add: vlan_tracked_def)
  next
    case False
    have dflt: "vland_default_vlan_member_port (ops E) db' = vland_default_vlan_member_port (ops E) db"
      if "vd_vid v = DEFAULT_VID" using T(6) [OF v(1) that] False by blast
    have "vlan_row_named db k" using v(1) D(6) by blast
    then obtain r where r: "r \<in> set (vlans db)" "v_name r = k" by (auto simp: vlan_row_named_def)
    from D(7) [OF v(1) r] have sy: "member_ok E db s v" "state_ok E db v" "vd_admin v = row_admin r"
      by (simp_all add: vlan_synced_def)
    have mem: "member_ok E db' s v"
      using sy(1) acm [OF v(1) False] dflt by (auto simp: member_ok_def)
    have rest: "state_ok E db' v \<and> vd_admin v = row_admin row" if nc: "\<not> row_changed db' ?n (v_row row)"
    proof -
      from T(5) [OF v(2) nc] obtain old where old: "old \<in> set (vlans db)" "v_row old = v_row row"
        "row_admin old = row_admin row" "l3_internal old = l3_internal row" by blast
      then have "v_name old = k" using linkedD(1) [OF D(2) v(1) old(1)] v(3) by simp
      then have "old = r" using old(1) r wf distinct_map_eq [of v_name "vlans db"] by (auto simp: wf_db_def)
      have d: "deref_vlan db' (vd_idl_cfg v) = Some row" "deref_vlan db (vd_idl_cfg v) = Some old"
        using v T(1) wf old by (simp_all add: deref_vlan_Some)
      have "effective_member (ops E) db' v = effective_member (ops E) db v"
        using dflt by (auto simp: effective_member_def)
      then have "state_ok E db' v" using sy(2) d old(4) by (simp add: state_ok_def vlan_settled_def)
      with sy(3) \<open>old = r\<close> old(3) show ?thesis by simp
    qed
    from mem rest show ?thesis by (auto simp: vlan_tracked_def)
  qed
  show ?thesis
    unfolding tracked_def
  proof (intro conjI allI impI ballI)
    fix k p assume a: "port_at s k = Some p" "k \<notin> ?P"
    from D(5) [OF a(1)] obtain row where row: "row \<in> set (ports db)" "p_name row = k" "port_synced E db row p"
      by blast
    from kept [OF a(2)] obtain row' where row': "row' \<in> set (ports db')" "p_name row' = k"
      "row' \<in> set (ports db)" "check_port_in_bridge db' k = check_port_in_bridge db k" by blast
    then have "row' = row" using row wf distinct_map_eq [of p_name "ports db"] by (auto simp: wf_db_def)
    with row row' have "port_synced E db' row' p" by (simp add: port_synced_def)
    with row' show "\<exists>row \<in> set (ports db'). p_name row = k \<and> port_synced E db' row p" by blast
  next
    fix row assume a: "row \<in> set (vlans db')" "vlan_at s (v_name row) = None"
    show "row_changed db' ?n (v_row row)"
    proof (rule ccontr)
      assume "\<not> row_changed db' ?n (v_row row)"
      with T(5) [OF a(1)] have "vlan_row_named db (v_name row)" by (auto simp: vlan_row_named_def)
      with D(6) a(2) show False by blast
    qed
  next
    fix row assume a: "row \<in> set (ports db')" "p_name row \<noteq> DEFAULT_BRIDGE_NAME" "port_at s (p_name row) = None"
    show "row_changed db' ?n (p_row row)"
    proof (rule ccontr)
      assume "\<not> row_changed db' ?n (p_row row)"
      with T(4) [OF a(1)] have "port_row_named db (p_name row)" by (auto simp: port_row_named_def)
      with D(4) [of "p_name row"] a(2,3) show False by blast
    qed
  qed (use D T(2) vt in simp_all)
qed

lemma in_sync_seqno [simp]: "in_sync E db (s\<lparr>idl_seqno := n\<rparr>) = in_sync E db s"
  by (simp add: in_sync_def cache_ok_def known_vids_def linked_def trunks_covered_def vlan_synced_def
      member_ok_def any_cached_member_def)

lemma vland_reconfigure_sync:
  assumes env: "env_ok E" and wf: "wf_db db" and s: "in_sync E db s" and tr: "tracks E db s db'"
    and new: "seqno db' \<noteq> idl_seqno s"
  shows "\<exists>rc s'. vland_reconfigure E db' s = Some (rc, s') \<and> in_sync E db' s' \<and> idl_seqno s' = seqno db'"
proof -
  note T = tracksD [OF tr]
  from update_port_cache_tracked [OF env T(1,3) in_sync_tracked [OF env wf s tr]] obtain rc s1 where
    p: "update_port_cache E db' s = Some (rc, s1)" "tracked E db' (idl_seqno s) {} s1"
      "\<forall>k. port_at s1 k \<noteq> None \<longleftrightarrow> port_row_named db' k \<and> k \<noteq> DEFAULT_BRIDGE_NAME" by blast
  from update_vlan_cache_sync [OF env T(1) p(2,3)] obtain rc' s2 where
    "update_vlan_cache E db' s1 = Some (rc', s2)" "in_sync E db' s2" by blast
  with p(1) new show ?thesis by (simp add: vland_reconfigure_def)
qed

end
