(* ===== verification/Publication.thy ===== *)
theory Publication
  imports Reconfigure
begin

text \<open>
  What the daemon writes. The result of each function counts the VLANs it published, so the
  caller commits exactly when something was written; and the write-only columns of the
  database, with the pending writes applied, always show the state the cache holds.
\<close>

section \<open>The result says whether anything was written\<close>

fun output_write :: "db_write \<Rightarrow> bool" where
  "output_write (Vlan_Set_Hw_Vlan_Config _ _) = True"
| "output_write (Vlan_Set_Oper_State _ _) = True"
| "output_write (Vlan_Set_Oper_State_Reason _ _) = True"
| "output_write _ = False"

text \<open>A write to an output column of a VLAN row that exists and is not used for an L3 port.\<close>

definition publishes :: "ovsdb \<Rightarrow> db_write \<Rightarrow> bool" where
  "publishes db w \<longleftrightarrow> output_write w \<and>
     (\<exists>row. deref_vlan db (written_row w) = Some row \<and> \<not> l3_internal row)"

text \<open>The globals a reconfiguration leaves alone.\<close>

definition run_flags :: "'b vland \<Rightarrow> bool \<times> bool" where
  "run_flags s = (system_configured s, default_vlan_created s)"

lemma run_flags_update [simp]:
  "run_flags (s\<lparr>txn_writes := ws\<rparr>) = run_flags s" "run_flags (s\<lparr>all_ports := ps\<rparr>) = run_flags s"
  "run_flags (s\<lparr>all_vlans := vs\<rparr>) = run_flags s" "run_flags (s\<lparr>all_vlans_bitmap := b\<rparr>) = run_flags s"
  "run_flags (s\<lparr>idl_seqno := n\<rparr>) = run_flags s"
  "run_flags (put_vlan k v s) = run_flags s" "run_flags (put_port k p s) = run_flags s"
  by (simp_all add: run_flags_def frame_simps)

definition logs :: "ovsdb \<Rightarrow> nat \<times> 'b vland \<Rightarrow> nat \<times> 'b vland \<Rightarrow> bool" where
  "logs db st st' \<longleftrightarrow>
     (\<exists>ws. txn_writes (snd st') = txn_writes (snd st) @ ws \<and> fst st \<le> fst st' \<and>
        (fst st' = fst st \<longleftrightarrow> ws = []) \<and>
        (\<forall>w \<in> set ws. publishes db w)) \<and>
     run_flags (snd st') = run_flags (snd st)"

lemma logs_refl: "txn_writes t = txn_writes s \<Longrightarrow> run_flags t = run_flags s \<Longrightarrow> logs db (n, s) (n, t)"
  by (simp add: logs_def)

lemma logs_trans: "logs db a b \<Longrightarrow> logs db b c \<Longrightarrow> logs db a c"
  unfolding logs_def
  by (elim exE conjE, rule conjI) (rename_tac u v, rule_tac x = "u @ v" in exI, auto)

lemma foldM_logs:
  assumes "foldM f xs s = Some t" and "\<And>x a b. f x a = Some b \<Longrightarrow> logs db a b"
  shows "logs db s t"
  using assms(1) by (rule foldM_result_inv) (use assms(2) logs_refl logs_trans in \<open>fastforce simp: logs_def\<close>)+

lemma configure_vlan_logs:
  assumes "configure_vlan E db row k v s = Some (n, s')" and "txn_writes s = txn_writes s0"
    and "run_flags s = run_flags s0"
  shows "logs db (rc, s0) (if n \<noteq> 0 then Suc rc else rc, s')"
proof -
  from assms(1) obtain v' ws where h: "handle_vlan_config (ops E) db row v = Some (n, v', ws)"
    and s': "s' = (put_vlan k v' s)\<lparr>txn_writes := txn_writes s @ ws\<rparr>"
    by (auto simp: configure_vlan_def split: option.splits prod.splits)
  from h have "(n = 0 \<longleftrightarrow> ws = []) \<and> (\<forall>w \<in> set ws. publishes db w)"
    by (auto simp: handle_vlan_config_def state_writes_def publishes_def l3_internal_def Let_def
        split: option.splits prod.splits if_splits)
  with s' assms(2,3) show ?thesis by (auto simp: logs_def)
qed

lemma configure_vlan_logs0:
  "configure_vlan E db row k v s = Some (0, s') \<Longrightarrow> txn_writes s = txn_writes s0 \<Longrightarrow>
     run_flags s = run_flags s0 \<Longrightarrow>
     logs db (rc, s0) (rc, s')"
  using configure_vlan_logs [of E db row k v s 0 s' s0 rc] by simp

lemma configure_vlan_logs1:
  "configure_vlan E db row k v s = Some (n, s') \<Longrightarrow> 0 < n \<Longrightarrow> txn_writes s = txn_writes s0 \<Longrightarrow>
     run_flags s = run_flags s0 \<Longrightarrow>
     logs db (rc, s0) (Suc rc, s')"
  using configure_vlan_logs [of E db row k v s n s' s0 rc] by simp

lemmas configure_logs = configure_vlan_logs0 configure_vlan_logs1

lemma update_vlan_membership_writes:
  "update_vlan_membership E db v s = (v', s') \<Longrightarrow>
     txn_writes s' = txn_writes s \<and> run_flags s' = run_flags s"
  by (auto simp: update_vlan_membership_eq)

lemma refresh_after_delete_logs: "refresh_after_delete E db vid st = Some st' \<Longrightarrow> logs db st st'"
  by (cases st)
    (auto simp: refresh_after_delete_def logs_refl dest: update_vlan_membership_writes
      intro: configure_logs split: option.splits prod.splits if_splits)

lemma refresh_vlan_row_logs: "refresh_vlan_row E db vid vrow st = Some st' \<Longrightarrow> logs db st st'"
  by (cases st)
    (auto simp: refresh_vlan_row_def logs_refl frame_simps dest: update_vlan_membership_writes
      intro: logs_refl configure_logs split: option.splits prod.splits if_splits)

lemma refresh_after_update_logs: "refresh_after_update E db vid st = Some st' \<Longrightarrow> logs db st st'"
  unfolding refresh_after_update_def by (erule foldM_logs) (rule refresh_vlan_row_logs)

lemma update_port_logs:
  assumes "update_port E db idl k st = Some st'"
  shows "logs db st st'"
proof -
  obtain rc s where st: "st = (rc, s)" by fastforce
  have walk: "logs db (rc, s) st'"
    if "foldM (refresh_after_update E db) vids (rc, put_port k p s) = Some st'" for vids p
    using foldM_logs [OF that refresh_after_update_logs] by (simp add: logs_def frame_simps)
  show ?thesis
    using assms walk by (auto simp: st update_port_def Let_def logs_refl split: option.splits if_splits)
qed

lemma del_old_port_logs:
  assumes "del_old_port E db k s = Some (n, s')"
  shows "logs db (0, s) (n, s')"
proof (cases "port_at s k")
  case None
  with assms show ?thesis by (simp add: del_old_port_def logs_refl)
next
  case (Some p)
  with assms have "foldM (refresh_after_delete E db)
      (bitmap_ones (bmp E) (bitmap_size E) (pd_vlans_bitmap p))
      (0, s\<lparr>all_ports := shash_delete k (all_ports s)\<rparr>) = Some (n, s')"
    by (simp add: del_old_port_def)
  then have "logs db (0, s\<lparr>all_ports := shash_delete k (all_ports s)\<rparr>) (n, s')"
    by (rule foldM_logs) (rule refresh_after_delete_logs)
  then show ?thesis by (simp add: logs_def)
qed

lemma logs_shift0: "logs db (0, s) (0, t) \<Longrightarrow> logs db (rc, s) (rc, t)"
  by (simp add: logs_def)

lemma logs_shift1: "logs db (0, s) (n, t) \<Longrightarrow> 0 < n \<Longrightarrow> logs db (rc, s) (Suc rc, t)"
  by (auto simp: logs_def)

lemma delete_stale_ports_logs:
  assumes "delete_stale_ports E db idl s = Some st'"
  shows "logs db (0, s) st'"
  using assms unfolding delete_stale_ports_def
proof (rule foldM_logs)
  fix k :: string and a b :: "nat \<times> 'a vland"
  assume "(case a of (rc, s) \<Rightarrow> case shash_find_data idl k of
      Some row \<Rightarrow> Some (rc, s)
    | None \<Rightarrow> (case del_old_port E db k s of
         None \<Rightarrow> None | Some (n, s) \<Rightarrow> Some (if n \<noteq> 0 then Suc rc else rc, s))) = Some b"
  then show "logs db a b"
    by (cases a) (auto simp: logs_refl dest!: del_old_port_logs split: option.splits prod.splits
        intro: logs_shift0 logs_shift1)
qed

lemma add_missing_ports_writes [frame_simps]:
  "txn_writes (add_missing_ports E idl s) = txn_writes s"
  "run_flags (add_missing_ports E idl s) = run_flags s"
  unfolding add_missing_ports_def
  by (induction idl arbitrary: s) (auto simp: frame_simps add_new_port_def split: prod.splits)

lemma update_port_cache_logs:
  assumes "update_port_cache E db s = Some st'"
  shows "logs db (0, s) st'"
proof -
  let ?idl = "collect_ports (hash_rank E) (ports db)"
  from assms obtain rc s1 where d: "delete_stale_ports E db ?idl s = Some (rc, s1)"
    and u: "update_changed_ports E db ?idl (rc, add_missing_ports E ?idl s1) = Some st'"
    by (auto simp: update_port_cache_def Let_def split: option.splits)
  have "logs db (rc, add_missing_ports E ?idl s1) st'"
    using u unfolding update_changed_ports_def by (auto intro: foldM_logs update_port_logs)
  with delete_stale_ports_logs [OF d] show ?thesis
    by (auto simp: logs_def frame_simps)
qed

lemma del_old_vlan_writes [frame_simps]:
  "txn_writes (del_old_vlan E k s) = txn_writes s" "run_flags (del_old_vlan E k s) = run_flags s"
  by (simp_all add: del_old_vlan_def split: option.split)

lemma add_new_vlan_writes [frame_simps]:
  "txn_writes (add_new_vlan E db row s) = txn_writes s"
  "run_flags (add_new_vlan E db row s) = run_flags s"
  by (auto simp: add_new_vlan_def frame_simps Let_def update_vlan_membership_eq split: prod.splits)

lemma delete_stale_vlans_writes [frame_simps]:
  "txn_writes (delete_stale_vlans E idl s) = txn_writes s"
  "run_flags (delete_stale_vlans E idl s) = run_flags s"
proof -
  have "txn_writes (foldl (\<lambda>s name. case shash_find_data idl name of Some row \<Rightarrow> s
      | None \<Rightarrow> del_old_vlan E name s) s ks) = txn_writes s \<and>
      run_flags (foldl (\<lambda>s name. case shash_find_data idl name of Some row \<Rightarrow> s
      | None \<Rightarrow> del_old_vlan E name s) s ks) = run_flags s" for ks
    by (induction ks arbitrary: s) (auto simp: frame_simps split: option.splits)
  then show "txn_writes (delete_stale_vlans E idl s) = txn_writes s"
    "run_flags (delete_stale_vlans E idl s) = run_flags s"
    by (simp_all add: delete_stale_vlans_def)
qed

lemma add_missing_vlans_writes [frame_simps]:
  "txn_writes (add_missing_vlans E db idl s) = txn_writes s"
  "run_flags (add_missing_vlans E db idl s) = run_flags s"
  unfolding add_missing_vlans_def
  by (induction idl arbitrary: s) (auto simp: frame_simps split: prod.splits option.splits)

lemma update_vlan_logs: "update_vlan E db idl k st = Some st' \<Longrightarrow> logs db st st'"
  by (cases st)
    (auto simp: update_vlan_def logs_refl intro: configure_logs split: option.splits prod.splits if_splits)

lemma update_vlan_cache_logs:
  assumes "update_vlan_cache E db s = Some st'"
  shows "logs db (0, s) st'"
proof -
  let ?idl = "collect_vlans (hash_rank E) (vlans db)"
  let ?t = "add_missing_vlans E db ?idl (delete_stale_vlans E ?idl s)"
  from assms have "foldM (update_vlan E db ?idl) (shash_nodes (all_vlans ?t)) (0, ?t) = Some st'"
    by (simp add: update_vlan_cache_def update_changed_vlans_def Let_def)
  from foldM_logs [OF this update_vlan_logs] show ?thesis by (simp add: logs_def frame_simps)
qed

lemma vland_reconfigure_logs:
  assumes "vland_reconfigure E db s = Some (rc, s')"
  shows "\<exists>ws. txn_writes s' = txn_writes s @ ws \<and> (rc = 0 \<longleftrightarrow> ws = []) \<and>
    (\<forall>w \<in> set ws. publishes db w) \<and> run_flags s' = run_flags s"
proof (cases "seqno db = idl_seqno s")
  case True
  with assms show ?thesis by (simp add: vland_reconfigure_def)
next
  case False
  with assms obtain n s1 m s2 where u: "update_port_cache E db s = Some (n, s1)"
    "update_vlan_cache E db s1 = Some (m, s2)" "s' = s2\<lparr>idl_seqno := seqno db\<rparr>"
    "rc = 0 \<longleftrightarrow> n = 0 \<and> m = 0"
    by (auto simp: vland_reconfigure_def Let_def split: option.splits prod.splits if_splits)
  from update_port_cache_logs [OF u(1)] update_vlan_cache_logs [OF u(2)] u(3,4) show ?thesis
    by (auto simp: logs_def)
qed

section \<open>The columns show the cached state\<close>

text \<open>
  The three write-only columns of the VLAN rows as the database server holds them, and the
  effect of committed writes on them.
\<close>

type_synonym vlan_columns = "row_ref \<Rightarrow> smap \<times> string \<times> string"

fun apply_write :: "db_write \<Rightarrow> vlan_columns \<Rightarrow> vlan_columns" where
  "apply_write (Vlan_Set_Hw_Vlan_Config r m) c = c(r := (m, snd (c r)))"
| "apply_write (Vlan_Set_Oper_State r x) c = c(r := (fst (c r), x, snd (snd (c r))))"
| "apply_write (Vlan_Set_Oper_State_Reason r x) c = c(r := (fst (c r), fst (snd (c r)), x))"
| "apply_write _ c = c"

definition apply_writes :: "db_write list \<Rightarrow> vlan_columns \<Rightarrow> vlan_columns" where
  "apply_writes ws c = fold apply_write ws c"

lemma apply_writes_append [simp]: "apply_writes (us @ ws) c = apply_writes ws (apply_writes us c)"
  by (simp add: apply_writes_def)

lemma apply_writes_Nil [simp]: "apply_writes [] c = c"
  by (simp add: apply_writes_def)

definition shown :: "vlan_oper_state \<times> vlan_oper_state_reason \<Rightarrow> smap \<times> string \<times> string" where
  "shown st =
     (if fst st = VLAN_OPER_STATE_UP then [(''enable'', VLAN_HW_CONFIG_MAP_ENABLE_TRUE)] else [],
      vlan_oper_state_to_str (fst st), vlan_oper_state_reason_to_str (snd st))"

text \<open>The columns the specification asks for, from the state and reason it gives the row.\<close>

lemma spec_columns_eq:
  assumes "row \<in> set (vlans db)" and "VALID_VID (v_id row)"
  shows "shown (spec_oper U db row) = spec_columns U db row"
proof -
  have "v_id row = DEFAULT_VID \<and> vland_default_vlan_member_port U db \<longleftrightarrow>
      v_id row = 1 \<and> (\<exists>port \<in> set (ports db). refers_to_default U port)"
    using default_member_eq [OF assms(1)] by (auto simp: DEFAULT_VID_def)
  then show ?thesis
    by (simp add: shown_def spec_oper_def spec_columns_def oper_table_def row_admin_def Let_def
        has_member_eq [OF assms(2)] DEFAULT_VID_def split: option.split)
qed

lemma apply_state_writes:
  "apply_writes (state_writes r v) c = c(r := shown (vd_op_state v, vd_op_state_reason v))"
  by (simp add: apply_writes_def state_writes_def shown_def)

definition mirrored :: "vlan_columns \<Rightarrow> 'b vland \<Rightarrow> bool" where
  "mirrored c s \<longleftrightarrow>
     (\<forall>k v. vlan_at s k = Some v \<longrightarrow> vd_op_state v \<noteq> VLAN_OPER_STATE_UNKNOWN \<longrightarrow>
        apply_writes (txn_writes s) c (vd_idl_cfg v) = shown (vd_op_state v, vd_op_state_reason v))"

definition addr_distinct :: "'b vland \<Rightarrow> bool" where
  "addr_distinct s \<longleftrightarrow> (\<forall>k k' v v'. vlan_at s k = Some v \<longrightarrow> vlan_at s k' = Some v' \<longrightarrow>
     vd_idl_cfg v = vd_idl_cfg v' \<longrightarrow> k = k')"

definition mirror_inv :: "ovsdb \<Rightarrow> vlan_columns \<Rightarrow> 'b vland \<Rightarrow> bool" where
  "mirror_inv db c s \<longleftrightarrow> wf_db db \<and> linked db s \<and> addr_distinct s \<and> shash_ok (all_vlans s) \<and> mirrored c s"

lemma mirror_inv_same:
  assumes "all_vlans t = all_vlans s" and "txn_writes t = txn_writes s" and "mirror_inv db c s"
  shows "mirror_inv db c t"
  using assms(3) unfolding mirror_inv_def linked_def addr_distinct_def mirrored_def assms(1,2) .

lemma mirror_inv_put:
  assumes inv: "mirror_inv db c s" and v: "vlan_at s k = Some v"
    and same: "vd_idl_cfg v' = vd_idl_cfg v" "vd_vid v' = vd_vid v"
    and t: "all_vlans t = shash_put k v' (all_vlans s)" "txn_writes t = txn_writes s @ ws"
    and ws: "ws = [] \<and> vd_op_state v' = vd_op_state v \<and> vd_op_state_reason v' = vd_op_state_reason v \<or>
      ws = state_writes (vd_idl_cfg v) v'"
  shows "mirror_inv db c t"
proof -
  have at: "vlan_at t k' = (if k' = k then Some v' else vlan_at s k')" for k'
    using v by (simp add: t(1) find_put)
  have addr: "k' = k" if "vlan_at s k' = Some u" "vd_idl_cfg u = vd_idl_cfg v" for k' u
    using inv that v unfolding mirror_inv_def addr_distinct_def by blast
  have old: "\<exists>u'. vlan_at s k' = Some u' \<and> vd_idl_cfg u = vd_idl_cfg u' \<and> vd_vid u = vd_vid u'"
    if "vlan_at t k' = Some u" for k' u
    using that v same unfolding at by (cases "k' = k") simp_all
  have "linked db t" using inv old unfolding mirror_inv_def linked_def by metis
  moreover have "addr_distinct t" using inv old unfolding mirror_inv_def addr_distinct_def by metis
  moreover have "mirrored c t"
    unfolding mirrored_def
  proof (intro allI impI)
    fix k' u assume a: "vlan_at t k' = Some u" "vd_op_state u \<noteq> VLAN_OPER_STATE_UNKNOWN"
    show "apply_writes (txn_writes t) c (vd_idl_cfg u) = shown (vd_op_state u, vd_op_state_reason u)"
    proof (cases "k' = k")
      case True
      with a(1) at have u: "u = v'" by simp
      from ws show ?thesis
      proof
        assume "ws = [] \<and> vd_op_state v' = vd_op_state v \<and> vd_op_state_reason v' = vd_op_state_reason v"
        with a(2) u v inv same show ?thesis by (simp add: t(2) mirror_inv_def mirrored_def)
      next
        assume "ws = state_writes (vd_idl_cfg v) v'"
        with u same show ?thesis by (simp add: t(2) apply_state_writes)
      qed
    next
      case False
      with a(1) at have "vlan_at s k' = Some u" by simp
      with addr False have "vd_idl_cfg u \<noteq> vd_idl_cfg v" by blast
      moreover have "apply_writes (txn_writes s) c (vd_idl_cfg u) =
          shown (vd_op_state u, vd_op_state_reason u)"
        using inv a(2) \<open>vlan_at s k' = Some u\<close> by (simp add: mirror_inv_def mirrored_def)
      ultimately show ?thesis using ws by (auto simp: t(2) apply_state_writes)
    qed
  qed
  moreover have "wf_db db" "shash_ok (all_vlans t)" using inv by (simp_all add: mirror_inv_def t(1))
  ultimately show ?thesis unfolding mirror_inv_def by blast
qed

lemma configure_vlan_mirror:
  assumes inv: "mirror_inv db c s" and v: "vlan_at s k = Some v"
    and same: "vd_idl_cfg u = vd_idl_cfg v" "vd_vid u = vd_vid v"
      "vd_op_state u = vd_op_state v" "vd_op_state_reason u = vd_op_state_reason v"
    and conf: "configure_vlan E db (vd_idl_cfg v) k u s = Some (n, s')"
  shows "mirror_inv db c s'"
proof -
  from conf obtain v' ws where h: "handle_vlan_config (ops E) db (vd_idl_cfg v) u = Some (n, v', ws)"
    and s': "s' = (put_vlan k v' s)\<lparr>txn_writes := txn_writes s @ ws\<rparr>"
    by (auto simp: configure_vlan_def split: option.splits prod.splits)
  obtain r where r: "deref_vlan db (vd_idl_cfg v) = Some r"
    using h handle_vlan_config_None [of "ops E" db "vd_idl_cfg v" u] by fastforce
  have "vd_idl_cfg v' = vd_idl_cfg u \<and> vd_vid v' = vd_vid u \<and>
    (ws = [] \<and> vd_op_state v' = vd_op_state u \<and> vd_op_state_reason v' = vd_op_state_reason u \<or>
      ws = state_writes (vd_idl_cfg v) v')"
    using h by (auto simp: handle_vlan_config_def r calc_vlan_op_state_n_reason_eq Let_def
        split: prod.splits if_splits)
  then show ?thesis
    using same by (intro mirror_inv_put [OF inv v, of v' s' ws]) (auto simp: s' frame_simps)
qed

text \<open>Each step of the walk over the VLANs of a port keeps the mirror.\<close>

lemma lookup_by_vid_at:
  "shash_ok (all_vlans s) \<Longrightarrow> vlan_lookup_by_vid s vid = Some (k, v) \<Longrightarrow> vlan_at s k = Some v"
  by (auto simp: find_in_set dest: vlan_lookup_by_vid_SomeD)

lemma refresh_configure_mirror:
  assumes inv: "mirror_inv db c s" and look: "vlan_lookup_by_vid s vid = Some (k, v)"
    and upd: "update_vlan_membership E db v s = (v1, s1)"
  shows "mirror_inv db c (put_vlan k v1 s1)"
    and "configure_vlan E db (vd_idl_cfg v1) k v1 s1 = Some (n, s') \<Longrightarrow> mirror_inv db c s'"
proof -
  have v: "vlan_at s k = Some v" using inv look by (intro lookup_by_vid_at) (simp_all add: mirror_inv_def)
  have v1: "vd_idl_cfg v1 = vd_idl_cfg v" "vd_vid v1 = vd_vid v" "vd_op_state v1 = vd_op_state v"
    "vd_op_state_reason v1 = vd_op_state_reason v" and s1: "all_vlans s1 = all_vlans s"
    "txn_writes s1 = txn_writes s" using upd by (auto simp: update_vlan_membership_eq)
  show "mirror_inv db c (put_vlan k v1 s1)"
    by (rule mirror_inv_put [OF inv v, of v1 _ "[]"]) (simp_all add: v1 s1 frame_simps)
  show "mirror_inv db c s'" if "configure_vlan E db (vd_idl_cfg v1) k v1 s1 = Some (n, s')"
    using that v s1 v1
    by (intro configure_vlan_mirror [OF mirror_inv_same [OF s1 inv], of k v v1 E n]) simp_all
qed

lemma refresh_after_delete_mirror:
  "refresh_after_delete E db vid st = Some st' \<Longrightarrow> mirror_inv db c (snd st) \<Longrightarrow> mirror_inv db c (snd st')"
  by (cases st) (auto simp: refresh_after_delete_def split: option.splits prod.splits if_splits
      intro: refresh_configure_mirror(2))

lemma refresh_vlan_row_mirror:
  "refresh_vlan_row E db vid row st = Some st' \<Longrightarrow> mirror_inv db c (snd st) \<Longrightarrow> mirror_inv db c (snd st')"
  by (cases st) (auto simp: refresh_vlan_row_def split: option.splits prod.splits if_splits
      intro: refresh_configure_mirror)

lemma foldM_mirror:
  assumes "foldM f xs st = Some st'" and "mirror_inv db c (snd st)"
    and "\<And>x a b. f x a = Some b \<Longrightarrow> mirror_inv db c (snd a) \<Longrightarrow> mirror_inv db c (snd b)"
  shows "mirror_inv db c (snd st')"
  using assms(1) by (rule foldM_result_inv) (use assms(2,3) in blast)+

lemma refresh_after_update_mirror:
  "refresh_after_update E db vid st = Some st' \<Longrightarrow> mirror_inv db c (snd st) \<Longrightarrow> mirror_inv db c (snd st')"
  unfolding refresh_after_update_def by (erule foldM_mirror) (auto intro: refresh_vlan_row_mirror)

lemma update_port_mirror:
  assumes "update_port E db idl k st = Some st'" and "mirror_inv db c (snd st)"
  shows "mirror_inv db c (snd st')"
proof -
  obtain rc s where st: "st = (rc, s)" by fastforce
  have "mirror_inv db c (put_port k p s)" for p
    by (rule mirror_inv_same [OF _ _ assms(2)]) (simp_all add: st frame_simps)
  then have "mirror_inv db c (snd st')"
    if "foldM (refresh_after_update E db) vids (rc, put_port k p s) = Some st'" for vids p
    using foldM_mirror [OF that _ refresh_after_update_mirror] by simp
  then show ?thesis
    using assms by (auto simp: st update_port_def Let_def split: option.splits if_splits)
qed

lemma del_old_port_mirror:
  assumes "del_old_port E db k s = Some (n, s')" and "mirror_inv db c s"
  shows "mirror_inv db c s'"
proof (cases "port_at s k")
  case None
  with assms show ?thesis by (simp add: del_old_port_def)
next
  case (Some p)
  let ?s1 = "s\<lparr>all_ports := shash_delete k (all_ports s)\<rparr>"
  have "mirror_inv db c ?s1" by (rule mirror_inv_same [OF _ _ assms(2)]) simp_all
  moreover from assms Some have "foldM (refresh_after_delete E db)
      (bitmap_ones (bmp E) (bitmap_size E) (pd_vlans_bitmap p)) (0, ?s1) = Some (n, s')"
    by (simp add: del_old_port_def)
  ultimately show ?thesis using foldM_mirror [OF _ _ refresh_after_delete_mirror] by fastforce
qed

lemma delete_stale_ports_mirror:
  assumes "delete_stale_ports E db idl s = Some st'" and "mirror_inv db c s"
  shows "mirror_inv db c (snd st')"
  using assms(1) unfolding delete_stale_ports_def
proof (rule foldM_mirror)
  fix k :: string and a b :: "nat \<times> 'a vland"
  assume "(case a of (rc, s) \<Rightarrow> case shash_find_data idl k of
      Some row \<Rightarrow> Some (rc, s)
    | None \<Rightarrow> (case del_old_port E db k s of
         None \<Rightarrow> None | Some (n, s) \<Rightarrow> Some (if n \<noteq> 0 then Suc rc else rc, s))) = Some b"
    "mirror_inv db c (snd a)"
  then show "mirror_inv db c (snd b)"
    by (cases a) (auto dest: del_old_port_mirror split: option.splits prod.splits)
qed (use assms(2) in simp)

lemma update_port_cache_mirror:
  assumes "update_port_cache E db s = Some st'" and "mirror_inv db c s"
  shows "mirror_inv db c (snd st')"
proof -
  let ?idl = "collect_ports (hash_rank E) (ports db)"
  from assms obtain rc s1 where d: "delete_stale_ports E db ?idl s = Some (rc, s1)"
    and u: "update_changed_ports E db ?idl (rc, add_missing_ports E ?idl s1) = Some st'"
    by (auto simp: update_port_cache_def Let_def split: option.splits)
  have av: "all_vlans (add_missing_ports E idl t) = all_vlans t" for idl and t :: "'a vland"
    unfolding add_missing_ports_def
    by (induction idl arbitrary: t) (auto simp: frame_simps split: prod.splits)
  have "mirror_inv db c s1" using delete_stale_ports_mirror [OF d assms(2)] by simp
  then have "mirror_inv db c (add_missing_ports E ?idl s1)"
    by (rule mirror_inv_same [OF av add_missing_ports_writes(1)])
  with u show ?thesis unfolding update_changed_ports_def
    by (auto elim!: foldM_mirror intro: update_port_mirror)
qed

section \<open>The VLAN half keeps the mirror\<close>

lemma del_old_vlan_mirror:
  assumes "mirror_inv db c s"
  shows "mirror_inv db c (del_old_vlan E k s)"
proof (cases "vlan_at s k")
  case None
  with assms show ?thesis by (simp add: del_old_vlan_def)
next
  case (Some v)
  let ?t = "del_old_vlan E k s"
  have at: "vlan_at ?t k' = (if k' = k then None else vlan_at s k')" for k'
    using Some by (simp add: del_old_vlan_def sd.lookup_delete)
  have old: "vlan_at s k' = Some u" if "vlan_at ?t k' = Some u" for k' u
    using that unfolding at by (simp split: if_splits)
  have "shash_ok (all_vlans ?t)"
    using assms Some by (simp add: del_old_vlan_def mirror_inv_def sd.ok_delete)
  then show ?thesis
    using assms old unfolding mirror_inv_def linked_def addr_distinct_def mirrored_def
    by (simp only: del_old_vlan_writes(1)) blast
qed

lemma add_new_vlan_mirror:
  assumes inv: "mirror_inv db c s" and row: "row \<in> set (vlans db)" and new: "vlan_at s (v_name row) = None"
  shows "mirror_inv db c (add_new_vlan E db row s)"
proof -
  have wf: "wf_db db" and lnk: "linked db s" and addr: "addr_distinct s"
    and ok: "shash_ok (all_vlans s)" and mir: "mirrored c s" using inv by (simp_all add: mirror_inv_def)
  have valid: "VALID_VID (v_id row)" using wf row by (simp add: wf_db_def)
  let ?t = "add_new_vlan E db row s" and ?k = "v_name row"
  let ?v = "(parse_vlan_data row)\<lparr>vd_any_member_exists := any_cached_member E db s (v_id row)\<rparr>"
  note t = add_new_vlan_eq [where E = E and db = db, OF new valid]
  have v: "vd_vid ?v = v_id row" "vd_idl_cfg ?v = v_row row" "vd_op_state ?v = VLAN_OPER_STATE_UNKNOWN"
    using valid by (simp_all add: parse_vlan_data_def)
  have at: "k = ?k \<and> u = ?v \<or> k \<noteq> ?k \<and> vlan_at s k = Some u" if "vlan_at ?t k = Some u" for k u
    using that unfolding t(2) by (simp split: if_splits)
  have fresh: "vd_idl_cfg u \<noteq> v_row row" if "vlan_at s k = Some u" for k u
  proof
    assume "vd_idl_cfg u = v_row row"
    with linkedD(1) [OF lnk that row] that new show False by simp
  qed
  have same: "r = row" if "r \<in> set (vlans db)" "v_name r = ?k \<or> v_id r = v_id row \<or> v_row r = v_row row" for r
    using that row wf distinct_map_eq [of v_name "vlans db" r row] distinct_map_eq [of v_id "vlans db" r row]
      distinct_map_eq [of v_row "vlans db" r row] unfolding wf_db_def by blast
  have "linked db ?t"
    unfolding linked_def
  proof (intro allI impI ballI)
    fix k u r assume a: "vlan_at ?t k = Some u" "r \<in> set (vlans db)"
      "v_name r = k \<or> v_id r = vd_vid u \<or> v_row r = vd_idl_cfg u"
    from at [OF a(1)] show "v_name r = k \<and> v_id r = vd_vid u \<and> v_row r = vd_idl_cfg u"
    proof
      assume "k = ?k \<and> u = ?v"
      with a(2,3) same [of r] v show ?thesis by simp
    next
      assume "k \<noteq> ?k \<and> vlan_at s k = Some u"
      with linkedD [OF lnk _ a(2,3)] show ?thesis by blast
    qed
  qed
  moreover have "addr_distinct ?t"
    unfolding addr_distinct_def
  proof (intro allI impI)
    fix k1 k2 v1 v2 assume a: "vlan_at ?t k1 = Some v1" "vlan_at ?t k2 = Some v2"
      "vd_idl_cfg v1 = vd_idl_cfg v2"
    from at [OF a(1)] at [OF a(2)] a(3) show "k1 = k2"
      using fresh v(2) addr unfolding addr_distinct_def by metis
  qed
  moreover have "mirrored c ?t"
    unfolding mirrored_def t(6)
  proof (intro allI impI)
    fix k u assume a: "vlan_at ?t k = Some u" "vd_op_state u \<noteq> VLAN_OPER_STATE_UNKNOWN"
    with at [OF a(1)] v(3) have "vlan_at s k = Some u" by auto
    with a(2) mir show "apply_writes (txn_writes s) c (vd_idl_cfg u) =
        shown (vd_op_state u, vd_op_state_reason u)" by (simp add: mirrored_def)
  qed
  ultimately show ?thesis using wf t(3) [OF ok] unfolding mirror_inv_def by blast
qed

lemma update_vlan_mirror:
  assumes "update_vlan E db (collect_vlans rank (vlans db)) k st = Some st'" and inv: "mirror_inv db c (snd st)"
  shows "mirror_inv db c (snd st')"
proof -
  obtain rc s where st: "st = (rc, s)" by fastforce
  from assms(1) obtain row v where row: "find (\<lambda>r. v_name r = k) (vlans db) = Some row"
    and v: "vlan_at s k = Some v"
    by (auto simp: st update_vlan_def find_collect_vlans split: option.splits)
  then have "row \<in> set (vlans db)" "v_name row = k" by (auto dest: find_SomeD)
  then have "v_row row = vd_idl_cfg v"
    using inv v by (intro linkedD(3) [of db s k v row]) (simp_all add: st mirror_inv_def)
  note addr = this
  have invs: "mirror_inv db c s" using inv by (simp add: st)
  have keep: "mirror_inv db c s'"
    if "configure_vlan E db (v_row row) k (v\<lparr>vd_admin := row_admin row\<rparr>) s = Some (n, s')" for n s'
    by (rule configure_vlan_mirror [OF invs v _ _ _ _ that [unfolded addr]]) simp_all
  show ?thesis
    using assms row v keep
    by (auto simp: st update_vlan_def find_collect_vlans split: option.splits prod.splits if_splits)
qed

lemma update_vlan_cache_mirror:
  assumes "update_vlan_cache E db s = Some st'" and "mirror_inv db c s"
  shows "mirror_inv db c (snd st')"
proof -
  let ?idl = "collect_vlans (hash_rank E) (vlans db)"
  let ?s1 = "delete_stale_vlans E ?idl s"
  let ?s2 = "add_missing_vlans E db ?idl ?s1"
  have "mirror_inv db c ?s1"
    unfolding delete_stale_vlans_def
    by (rule foldl_prefix [where I = "\<lambda>_. mirror_inv db c"])
      (use assms(2) in \<open>auto split: option.splits intro: del_old_vlan_mirror\<close>)
  then have "mirror_inv db c ?s2"
    unfolding add_missing_vlans_def
  proof (rule foldl_prefix [where I = "\<lambda>_. mirror_inv db c"])
    fix pre x post and t :: "'a vland" assume split: "?idl = pre @ x # post" and I: "mirror_inv db c t"
    obtain name row where x: "x = (name, row)" by fastforce
    have "row \<in> set (vlans db)" "v_name row = name"
      using collect_vlans_nodes [of name row "hash_rank E" "vlans db"] split x by auto
    with I x show "mirror_inv db c (case x of (name, row) \<Rightarrow>
        case vlan_at t name of Some new_vlan \<Rightarrow> t | None \<Rightarrow> add_new_vlan E db row t)"
      by (auto split: option.split intro: add_new_vlan_mirror)
  qed
  moreover from assms(1) have "foldM (update_vlan E db ?idl) (shash_nodes (all_vlans ?s2)) (0, ?s2) = Some st'"
    by (simp add: update_vlan_cache_def update_changed_vlans_def Let_def)
  ultimately show ?thesis using foldM_mirror [OF _ _ update_vlan_mirror] by fastforce
qed

lemma vland_reconfigure_mirror:
  assumes "vland_reconfigure E db s = Some (rc, s')" and "mirror_inv db c s"
  shows "mirror_inv db c s'"
proof (cases "seqno db = idl_seqno s")
  case True
  with assms show ?thesis by (simp add: vland_reconfigure_def)
next
  case False
  with assms(1) obtain n s1 m s2 where u: "update_port_cache E db s = Some (n, s1)"
    "update_vlan_cache E db s1 = Some (m, s2)" "s' = s2\<lparr>idl_seqno := seqno db\<rparr>"
    by (auto simp: vland_reconfigure_def Let_def split: option.splits prod.splits if_splits)
  have "mirror_inv db c s1" using update_port_cache_mirror [OF u(1) assms(2)] by (simp only: snd_conv)
  from update_vlan_cache_mirror [OF u(2) this] have "mirror_inv db c s2" by (simp only: snd_conv)
  then show ?thesis unfolding u(3) by (rule mirror_inv_same [rotated 2]) simp_all
qed

end
