(* ===== verification/C_Strings.thy ===== *)
theory C_Strings
  imports Vland_Prelude
begin

text \<open>
  The conversions between integers and strings the sources use: \<^verbatim>\<open>%d\<close> (and \<^verbatim>\<open>%ld\<close>), \<^verbatim>\<open>atoi\<close> and
  the padding of \<^verbatim>\<open>%-Ns\<close>; and character buffers with their terminating null: what \<^verbatim>\<open>xcalloc\<close>
  allocates, what \<^verbatim>\<open>snprintf\<close> puts into it, and what reading it as a string gives.
\<close>

section \<open>Strings and numbers\<close>

text \<open>\<^verbatim>\<open>%d\<close> and \<^verbatim>\<open>%ld\<close>.\<close>

function dec_nat :: "nat \<Rightarrow> string" where
  "dec_nat n = (if n < 10 then [char_of (n + 48)] else dec_nat (n div 10) @ [char_of (n mod 10 + 48)])"
  by pat_completeness auto
termination by (relation "measure id") auto

declare dec_nat.simps [simp del]

definition dec :: "int \<Rightarrow> string" where
  "dec x = (if x < 0 then ''-'' @ dec_nat (nat (- x)) else dec_nat (nat x))"

text \<open>
  \<^verbatim>\<open>atoi\<close>: leading blanks, an optional sign, the digits that follow. The value is unbounded: C leaves
  a number outside \<^verbatim>\<open>int\<close> undefined, and the syntax of every command admits at most four digits.
\<close>

definition digit_value :: "char \<Rightarrow> int" where
  "digit_value c = int (of_char c) - 48"

definition is_digit :: "char \<Rightarrow> bool" where
  "is_digit c \<longleftrightarrow> 0 \<le> digit_value c \<and> digit_value c < 10"

definition atoi_digits :: "string \<Rightarrow> int" where
  "atoi_digits xs = foldl (\<lambda>n c. 10 * n + digit_value c) 0 (takeWhile is_digit xs)"

definition is_space :: "char \<Rightarrow> bool" where
  "is_space c \<longleftrightarrow> (of_char c :: nat) = 32 \<or> 9 \<le> (of_char c :: nat) \<and> (of_char c :: nat) \<le> 13"

definition atoi :: "string \<Rightarrow> int" where
  "atoi xs =
     (case dropWhile is_space xs of
        [] \<Rightarrow> 0
      | c # cs \<Rightarrow>
          if c = CHR ''-'' then - atoi_digits cs
          else if c = CHR ''+'' then atoi_digits cs
          else atoi_digits (c # cs))"

text \<open>Reading back a printed number.\<close>

lemma digit_of_nat:
  fixes d :: nat
  assumes "d < 10"
  shows "digit_value (char_of (d + 48)) = int d" and "is_digit (char_of (d + 48))"
    and "\<not> is_space (char_of (d + 48))"
    and "char_of (d + 48) \<noteq> CHR ''-''" and "char_of (d + 48) \<noteq> CHR ''+''"
proof -
  have v: "(of_char (char_of (d + 48) :: char) :: nat) = d + 48" using assms by simp
  show "char_of (d + 48) \<noteq> CHR ''-''"
  proof
    assume eq: "char_of (d + 48) = CHR ''-''"
    have "d + 48 = 45" using v unfolding eq by simp
    then show False by simp
  qed
  show "char_of (d + 48) \<noteq> CHR ''+''"
  proof
    assume eq: "char_of (d + 48) = CHR ''+''"
    have "d + 48 = 43" using v unfolding eq by simp
    then show False by simp
  qed
qed (use assms in \<open>simp_all add: digit_value_def is_digit_def is_space_def of_char_of\<close>)

lemma dec_nat_digits: "\<forall>c \<in> set (dec_nat n). is_digit c"
proof (induction n rule: dec_nat.induct)
  case (1 n)
  show ?case
  proof (cases "n < 10")
    case True
    then show ?thesis using digit_of_nat(2) [of n] by (simp add: dec_nat.simps)
  next
    case False
    then show ?thesis using 1 digit_of_nat(2) [of "n mod 10"] by (simp add: dec_nat.simps [of n])
  qed
qed

lemma atoi_digits_snoc:
  assumes "\<forall>c \<in> set xs. is_digit c" and "is_digit c"
  shows "atoi_digits (xs @ [c]) = 10 * atoi_digits xs + digit_value c"
proof -
  have t: "takeWhile is_digit (xs @ [c]) = xs @ [c]" "takeWhile is_digit xs = xs"
    using assms by (simp_all add: takeWhile_eq_all_conv)
  show ?thesis unfolding atoi_digits_def t by simp
qed

lemma atoi_digits_dec_nat: "atoi_digits (dec_nat n) = int n"
proof (induction n rule: dec_nat.induct)
  case (1 n)
  show ?case
  proof (cases "n < 10")
    case True
    then show ?thesis
      using digit_of_nat(1,2) [of n] atoi_digits_snoc [of "[]" "char_of (n + 48)"]
      by (simp add: dec_nat.simps [of n] atoi_digits_def)
  next
    case False
    then have "atoi_digits (dec_nat n) = 10 * int (n div 10) + int (n mod 10)"
      using 1 digit_of_nat(1,2) [of "n mod 10"] atoi_digits_snoc [OF dec_nat_digits]
      by (simp add: dec_nat.simps [of n])
    then show ?thesis using mult_div_mod_eq [of 10 n] by linarith
  qed
qed

lemma dec_nat_hd: "\<exists>(d :: nat) cs. dec_nat n = char_of (d + 48) # cs \<and> d < 10"
proof (induction n rule: dec_nat.induct)
  case (1 n)
  show ?case
  proof (cases "n < 10")
    case True
    then have "dec_nat n = char_of (n + 48) # []" by (simp add: dec_nat.simps [of n])
    with True show ?thesis by blast
  next
    case False
    with 1 obtain d :: nat and cs where "dec_nat (n div 10) = char_of (d + 48) # cs" "d < 10" by blast
    with False have "dec_nat n = char_of (d + 48) # (cs @ [char_of (n mod 10 + 48)])"
      by (simp add: dec_nat.simps [of n])
    with \<open>d < 10\<close> show ?thesis by blast
  qed
qed

lemma atoi_dec [simp]: "atoi (dec x) = x"
proof -
  have nat: "atoi (dec_nat n) = int n" for n
  proof -
    obtain d :: nat and cs where d: "dec_nat n = char_of (d + 48) # cs" "d < 10" using dec_nat_hd by blast
    with digit_of_nat [OF d(2)] show ?thesis
      using atoi_digits_dec_nat [of n] by (simp add: atoi_def)
  qed
  have "\<not> is_space CHR ''-''" by (simp add: is_space_def)
  then have "atoi (CHR ''-'' # dec_nat n) = - int n" for n
    by (simp add: atoi_def atoi_digits_dec_nat)
  with nat show ?thesis by (simp add: dec_def)
qed

lemma dec_no_null: "CHR 0x00 \<notin> set (dec x)"
proof -
  have "\<not> is_digit CHR 0x00" by (simp add: is_digit_def digit_value_def)
  then have "CHR 0x00 \<notin> set (dec_nat n)" for n using dec_nat_digits [of n] by blast
  then show ?thesis by (simp add: dec_def)
qed

section \<open>Buffers\<close>

text \<open>
  \<^verbatim>\<open>xcalloc(1, size)\<close>: a buffer of null bytes. \<^verbatim>\<open>snprintf(buf, size, "%s", str)\<close>: nothing when the size
  is 0, otherwise at most \<^verbatim>\<open>size - 1\<close> characters of the string \<^verbatim>\<open>str\<close> and a terminating null. A buffer
  read as a string ends at its first null; one without a null is not a string.
\<close>

definition xcalloc_chars :: "nat \<Rightarrow> string" where
  "xcalloc_chars n = replicate n CHR 0x00"

definition snprintf_s :: "string \<Rightarrow> nat \<Rightarrow> string \<Rightarrow> string" where
  "snprintf_s buf n str =
     (if n = 0 then buf
      else
        (let out = take (n - 1) (takeWhile (\<lambda>c. c \<noteq> CHR 0x00) str) @ [CHR 0x00]
         in out @ drop (length out) buf))"

definition c_string :: "string \<Rightarrow> string option" where
  "c_string buf =
     (if CHR 0x00 \<in> set buf then Some (takeWhile (\<lambda>c. c \<noteq> CHR 0x00) buf) else None)"

lemma snprintf_s_length: "length buf = n \<Longrightarrow> length (snprintf_s buf n str) = n"
  by (auto simp: snprintf_s_def Let_def)

lemma takeWhile_to_null: "CHR 0x00 \<notin> set xs \<Longrightarrow> takeWhile (\<lambda>c. c \<noteq> CHR 0x00) (xs @ CHR 0x00 # ys) = xs"
  by (induction xs) auto

lemma snprintf_s_read:
  assumes "0 < n"
  shows "c_string (snprintf_s buf n str) = Some (take (n - 1) (takeWhile (\<lambda>c. c \<noteq> CHR 0x00) str))"
proof -
  define out where "out = take (n - 1) (takeWhile (\<lambda>c. c \<noteq> CHR 0x00) str)"
  have "CHR 0x00 \<notin> set out" unfolding out_def by (auto dest!: in_set_takeD set_takeWhileD)
  moreover obtain rest where "snprintf_s buf n str = out @ CHR 0x00 # rest"
    using assms by (simp add: snprintf_s_def Let_def out_def)
  ultimately show ?thesis by (simp add: c_string_def takeWhile_to_null out_def)
qed

definition pad_right :: "nat \<Rightarrow> string \<Rightarrow> string" where
  "pad_right n xs = xs @ replicate (n - length xs) CHR '' ''"

end
