(* ===== verification/Column_Types.thy ===== *)
theory Column_Types
  imports Ovsdb_Schema Vlan_Bitmap
begin

text \<open>
  The types of the database columns the sources write, and when a write is of its column's type.
\<close>

section \<open>Types of the written columns\<close>

datatype db_value = String_Value string | Map_Value smap | Integer_Value int | Rows_Value "row_ref list"

datatype column_type =
  Enum_Column "string list" | String_Column | Range_Column int int
| Map_Column "string list" "string list" | Rows_Column

fun written_value :: "db_write \<Rightarrow> db_value option" where
  "written_value (Vlan_Set_Hw_Vlan_Config _ m) = Some (Map_Value m)"
| "written_value (Vlan_Set_Oper_State _ s) = Some (String_Value s)"
| "written_value (Vlan_Set_Oper_State_Reason _ s) = Some (String_Value s)"
| "written_value (Vlan_Insert _) = None"
| "written_value (Vlan_Set_Id _ n) = Some (Integer_Value n)"
| "written_value (Vlan_Set_Name _ s) = Some (String_Value s)"
| "written_value (Vlan_Set_Admin _ s) = Some (String_Value s)"
| "written_value (Bridge_Set_Vlans _ rs) = Some (Rows_Value rs)"

text \<open>The column a write goes to; an insertion goes to no column.\<close>

fun written_column :: "db_write \<Rightarrow> (string \<times> string) option" where
  "written_column (Vlan_Set_Hw_Vlan_Config _ _) = Some (''vlan'', ''hw_vlan_config'')"
| "written_column (Vlan_Set_Oper_State _ _) = Some (''vlan'', ''oper_state'')"
| "written_column (Vlan_Set_Oper_State_Reason _ _) = Some (''vlan'', ''oper_state_reason'')"
| "written_column (Vlan_Insert _) = None"
| "written_column (Vlan_Set_Id _ _) = Some (''vlan'', ''id'')"
| "written_column (Vlan_Set_Name _ _) = Some (''vlan'', ''name'')"
| "written_column (Vlan_Set_Admin _ _) = Some (''vlan'', ''admin'')"
| "written_column (Bridge_Set_Vlans _ _) = Some (''bridge'', ''vlans'')"

inductive value_typing :: "db_value \<Rightarrow> column_type \<Rightarrow> bool" where
  enum: "s \<in> set es \<Longrightarrow> value_typing (String_Value s) (Enum_Column es)"
| string: "value_typing (String_Value s) String_Column"
| range: "lo \<le> n \<Longrightarrow> n \<le> hi \<Longrightarrow> value_typing (Integer_Value n) (Range_Column lo hi)"
| smap: "distinct (map fst m) \<Longrightarrow> set m \<subseteq> set ks \<times> set vs \<Longrightarrow> value_typing (Map_Value m) (Map_Column ks vs)"
| rows: "value_typing (Rows_Value rs) Rows_Column"

inductive_simps value_typing_simps [simp]:
  "value_typing (String_Value s) T"
  "value_typing (Map_Value m) T"
  "value_typing (Integer_Value n) T"
  "value_typing (Rows_Value rs) T"

text \<open>
  The columns the daemon writes. The enumeration of \<open>oper_state\<close> and of its reason is the
  schema's without \<open>unknown\<close>, the value the daemon starts from and never publishes.
\<close>

definition written_columns :: "((string \<times> string) \<times> column_type) list" where
  "written_columns =
     [((''vlan'', ''hw_vlan_config''), Map_Column [''enable''] [VLAN_HW_CONFIG_MAP_ENABLE_TRUE]),
      ((''vlan'', ''oper_state''), Enum_Column [OVSREC_VLAN_OPER_STATE_UP, OVSREC_VLAN_OPER_STATE_DOWN]),
      ((''vlan'', ''oper_state_reason''),
        Enum_Column [OVSREC_VLAN_OPER_STATE_REASON_OK, OVSREC_VLAN_OPER_STATE_REASON_ADMIN_DOWN,
          OVSREC_VLAN_OPER_STATE_REASON_NO_MEMBER_PORT]),
      ((''vlan'', ''id''), Range_Column 1 4094),
      ((''vlan'', ''name''), String_Column),
      ((''vlan'', ''admin''), Enum_Column [OVSREC_VLAN_ADMIN_UP, OVSREC_VLAN_ADMIN_DOWN]),
      ((''bridge'', ''vlans''), Rows_Column)]"

definition well_typed :: "db_write \<Rightarrow> bool" where
  "well_typed w \<longleftrightarrow>
     (case written_column w of
        None \<Rightarrow> True
      | Some c \<Rightarrow> (\<exists>v T. written_value w = Some v \<and> map_of written_columns c = Some T \<and> value_typing v T))"

lemma well_typed_simps [simp]:
  "well_typed (Vlan_Set_Hw_Vlan_Config r m) \<longleftrightarrow> distinct (map fst m) \<and> set m \<subseteq> {(''enable'', ''true'')}"
  "well_typed (Vlan_Set_Oper_State r s) \<longleftrightarrow> s \<in> {''up'', ''down''}"
  "well_typed (Vlan_Set_Oper_State_Reason r s) \<longleftrightarrow> s \<in> {''ok'', ''admin_down'', ''no_member_port''}"
  "well_typed (Vlan_Insert r)"
  "well_typed (Vlan_Set_Id r n) \<longleftrightarrow> VALID_VID n"
  "well_typed (Vlan_Set_Name r s)"
  "well_typed (Vlan_Set_Admin r s) \<longleftrightarrow> s \<in> {''up'', ''down''}"
  "well_typed (Bridge_Set_Vlans r rs)"
  by (auto simp: well_typed_def written_columns_def VALID_VID_def)

end
