(* ===== verification/Vland_Run.thy ===== *)
theory Vland_Run
  imports Publication C_Strings Column_Types
begin

text \<open>
  The daemon's main step \<^verbatim>\<open>vland_run\<close> with everything it calls outside the caches
  (\<^verbatim>\<open>create_default_vlan\<close>, \<^verbatim>\<open>vland_chk_for_system_configured\<close>, initialisation and exit), and
  the system of daemon and database server as a transition relation: what every reachable
  state satisfies is the end-to-end correctness of the daemon.
\<close>

section \<open>Initialisation and exit\<close>

text \<open>
  The columns \<^verbatim>\<open>vland_ovsdb_init\<close> asks the database client to replicate, in its order, with the
  table of each and whether a change of it alerts the daemon; a column passed to
  \<^verbatim>\<open>ovsdb_idl_omit_alert\<close> does not.
\<close>

definition monitored_columns :: "(string \<times> string \<times> bool) list" where
  "monitored_columns =
     [(''system'', ''cur_cfg'', True), (''system'', ''bridges'', True),
      (''port'', ''name'', True), (''port'', ''vlan_mode'', True),
      (''port'', ''vlan_tag'', True), (''port'', ''vlan_trunks'', True),
      (''vlan'', ''internal_usage'', True), (''vlan'', ''admin'', True),
      (''vlan'', ''name'', True), (''vlan'', ''id'', True),
      (''vlan'', ''hw_vlan_config'', False), (''vlan'', ''oper_state'', False),
      (''vlan'', ''oper_state_reason'', False),
      (''bridge'', ''name'', True), (''bridge'', ''ports'', True), (''bridge'', ''vlans'', False)]"

text \<open>A write that does not alert the daemon that issues it.\<close>

definition silent_write :: "db_write \<Rightarrow> bool" where
  "silent_write w \<longleftrightarrow>
     (\<exists>(table, column, alert) \<in> set monitored_columns.
        written_column w = Some (table, column) \<and> \<not> alert)"

definition vland_ovsdb_init :: "'b vland_env \<Rightarrow> 32 word \<Rightarrow> 'b vland" where
  "vland_ovsdb_init E seqno0 =
     \<lparr> all_ports = [], all_vlans = [],
       all_vlans_bitmap = bitmap_allocate (bmp E) (bitmap_size E),
       idl_seqno = seqno0, system_configured = False, default_vlan_created = False,
       txn_writes = [] \<rparr>"

definition vland_ovsdb_exit :: "'b vland \<Rightarrow> 'b vland" where
  "vland_ovsdb_exit s = s\<lparr>all_ports := [], all_vlans := []\<rparr>"

section \<open>One run\<close>

text \<open>
  What the environment decides in one run: the replica after \<^verbatim>\<open>ovsdb_idl_run\<close>, the state of
  the lock, the address of an inserted row, the outcome of each blocking commit, and the
  replica after the commit that creates the default VLAN (a blocking commit processes
  messages of the server).
\<close>

record run_input =
  ri_replica :: ovsdb
  ri_lock_contended :: bool
  ri_has_lock :: bool
  ri_insert_row :: row_ref
  ri_commit :: "db_write list \<Rightarrow> txn_status"
  ri_after_commit :: ovsdb

definition default_vlan_name :: string where
  "default_vlan_name = ''DEFAULT_VLAN_'' @ dec DEFAULT_VID"

type_synonym committed = "(db_write list \<times> txn_status) list"

definition default_vlan_writes :: "row_ref \<Rightarrow> ovsrec_bridge \<Rightarrow> db_write list" where
  "default_vlan_writes vlan_row default_bridge_row =
     [Vlan_Insert vlan_row, Vlan_Set_Id vlan_row DEFAULT_VID, Vlan_Set_Name vlan_row default_vlan_name,
      Vlan_Set_Admin vlan_row OVSREC_VLAN_ADMIN_UP,
      Vlan_Set_Oper_State vlan_row OVSREC_VLAN_OPER_STATE_DOWN,
      Vlan_Set_Oper_State_Reason vlan_row OVSREC_VLAN_OPER_STATE_REASON_ADMIN_DOWN,
      Bridge_Set_Vlans (b_row default_bridge_row) (b_vlans default_bridge_row @ [vlan_row])]"

text \<open>
  \<^verbatim>\<open>create_default_vlan\<close>: its result, the replica and the state afterwards, and the transactions
  it committed.
\<close>

definition create_default_vlan :: "run_input \<Rightarrow> 'b vland \<Rightarrow> bool \<times> ovsdb \<times> 'b vland \<times> committed" where
  "create_default_vlan inp s =
     (let db = ri_replica inp
      in if list_ex (\<lambda>vlan_row. v_id vlan_row = DEFAULT_VID) (vlans db)
         then (False, db, s\<lparr>default_vlan_created := True\<rparr>, [])
         else
           case find (\<lambda>bridge_row. b_name bridge_row = DEFAULT_BRIDGE_NAME) (bridges db) of
             None \<Rightarrow> (False, db, s, [])
           | Some default_bridge_row \<Rightarrow>
               (let ws = default_vlan_writes (ri_insert_row inp) default_bridge_row;
                    status = ri_commit inp ws;
                    s = (if status \<noteq> TXN_SUCCESS \<and> status \<noteq> TXN_UNCHANGED then s
                         else s\<lparr>default_vlan_created := True\<rparr>)
                in (True, ri_after_commit inp, s, [(ws, status)])))"

definition vland_chk_for_system_configured :: "ovsdb \<Rightarrow> 'b vland \<Rightarrow> 'b vland" where
  "vland_chk_for_system_configured db s =
     (if system_configured s then s
      else
        case ovsrec_system_first db of
          None \<Rightarrow> s
        | Some sys \<Rightarrow> if s_cur_cfg sys > 0 then s\<lparr>system_configured := True\<rparr> else s)"

text \<open>
  \<^verbatim>\<open>vland_run\<close> up to the transaction: \<open>None\<close> when this process may not or need not act,
  otherwise the replica and the state in which the transaction is created.
\<close>

definition vland_prepare :: "run_input \<Rightarrow> 'b vland \<Rightarrow> 'b vland \<times> (ovsdb \<times> committed) option" where
  "vland_prepare inp s =
     (if ri_lock_contended inp then (s, None)
      else if \<not> ri_has_lock inp then (s, None)
      else
        (let s = vland_chk_for_system_configured (ri_replica inp) s
         in if system_configured s then
              (if \<not> default_vlan_created s then
                 (let (_, db, s, txs) = create_default_vlan inp s in (s, Some (db, txs)))
               else (s, Some (ri_replica inp, [])))
            else (s, None)))"

definition vland_run :: "'b vland_env \<Rightarrow> run_input \<Rightarrow> 'b vland \<Rightarrow> ('b vland \<times> committed) option" where
  "vland_run E inp s =
     (case vland_prepare inp s of
        (s, None) \<Rightarrow> Some (s, [])
      | (s, Some (db, txs)) \<Rightarrow>
          (case vland_reconfigure E db (s\<lparr>txn_writes := []\<rparr>) of
             None \<Rightarrow> None
           | Some (rc, s) \<Rightarrow>
               Some (s\<lparr>txn_writes := []\<rparr>,
                 if rc \<noteq> 0 then txs @ [(txn_writes s, ri_commit inp (txn_writes s))] else txs)))"

section \<open>The run keeps the caches until it reconfigures\<close>

definition same_caches :: "'b vland \<Rightarrow> 'b vland \<Rightarrow> bool" where
  "same_caches s t \<longleftrightarrow> all_ports t = all_ports s \<and> all_vlans t = all_vlans s \<and>
     all_vlans_bitmap t = all_vlans_bitmap s \<and> idl_seqno t = idl_seqno s"

lemma same_caches_refl [simp]: "same_caches s s"
  by (simp add: same_caches_def)

lemma same_caches_update [simp]:
  "same_caches s (t\<lparr>txn_writes := ws\<rparr>) = same_caches s t"
  "same_caches s (t\<lparr>default_vlan_created := b\<rparr>) = same_caches s t"
  "same_caches s (t\<lparr>system_configured := b\<rparr>) = same_caches s t"
  by (simp_all add: same_caches_def)

lemma same_caches_chk: "same_caches s (vland_chk_for_system_configured db s)"
  by (simp add: vland_chk_for_system_configured_def split: option.split)

lemma same_caches_trans: "same_caches s t \<Longrightarrow> same_caches t u \<Longrightarrow> same_caches s u"
  by (simp add: same_caches_def)

lemma create_default_vlan_caches:
  "create_default_vlan inp s = (r, db, t, txs) \<Longrightarrow> same_caches s t \<and> txn_writes t = txn_writes s"
  by (auto simp: create_default_vlan_def Let_def split: if_splits option.splits)

lemma vland_prepare_caches:
  assumes "vland_prepare inp s = (t, act)"
  shows "same_caches s t \<and> txn_writes t = txn_writes s"
proof -
  let ?s = "vland_chk_for_system_configured (ri_replica inp) s"
  have chk: "same_caches s ?s" "txn_writes ?s = txn_writes s"
    by (rule same_caches_chk) (simp add: vland_chk_for_system_configured_def split: option.split)
  have create: "same_caches s u \<and> txn_writes u = txn_writes s"
    if "create_default_vlan inp ?s = (r, db, u, txs)" for r db u txs
    using create_default_vlan_caches [OF that] chk same_caches_trans [OF chk(1)] by simp
  obtain r db u txs where c: "create_default_vlan inp ?s = (r, db, u, txs)" by (metis prod_cases4)
  from assms create [OF c] chk c show ?thesis
    by (auto simp: vland_prepare_def Let_def split: if_splits)
qed

lemma same_cachesD:
  assumes "same_caches s t"
  shows "in_sync E db t = in_sync E db s" "tracks E db t db' = tracks E db s db'"
proof -
  note eq = assms [unfolded same_caches_def]
  have k: "known_vids t = known_vids s" using eq by (simp add: known_vids_def)
  have m: "any_cached_member E db t vid = any_cached_member E db s vid" for vid
    using eq by (simp add: any_cached_member_def)
  show "in_sync E db t = in_sync E db s"
    unfolding in_sync_def cache_ok_def linked_def trunks_covered_def vlan_synced_def member_ok_def
    by (simp only: eq k m)
  show "tracks E db t db' = tracks E db s db'"
    unfolding tracks_def linked_def no_dangling_def covered_def touches_def by (simp only: eq)
qed

end
