(* ===== verification/Vland_System.thy ===== *)
theory Vland_System
  imports Vland_Run
begin

text \<open>
  The system of the daemon and the database server: the states reachable from start-up when
  the replica develops by tracked changes and commits succeed. In each of them the caches are
  in sync with the replica processed last, and the server's columns show what they hold.
\<close>

section \<open>The system\<close>

record 'b sys =
  daemon :: "'b vland"
  seen :: ovsdb
  server :: vlan_columns

definition empty_db :: ovsdb where
  "empty_db = \<lparr> systems = [], bridges = [], ports = [], vlans = [], interfaces = [],
     row_inserted = (\<lambda>_ _. False), row_modified = (\<lambda>_ _. False), seqno = 0 \<rparr>"

definition committed_ok :: "txn_status \<Rightarrow> bool" where
  "committed_ok st \<longleftrightarrow> st = TXN_SUCCESS \<or> st = TXN_UNCHANGED"

definition server_after :: "committed \<Rightarrow> vlan_columns \<Rightarrow> vlan_columns" where
  "server_after txs c = fold (\<lambda>(ws, st) c. if committed_ok st then apply_writes ws c else c) txs c"

lemma server_after_simps [simp]:
  "server_after [] c = c"
  "server_after (txs @ [(ws, st)]) c =
     (if committed_ok st then apply_writes ws (server_after txs c) else server_after txs c)"
  by (simp_all add: server_after_def)

text \<open>The replica a run reconfigures from, if it does.\<close>

definition processed :: "run_input \<Rightarrow> 'b vland \<Rightarrow> ovsdb option" where
  "processed inp s =
     (case vland_prepare inp s of
        (t, Some (db, txs)) \<Rightarrow> if seqno db \<noteq> idl_seqno t then Some db else None
      | _ \<Rightarrow> None)"

definition seen_after :: "run_input \<Rightarrow> 'b vland \<Rightarrow> ovsdb \<Rightarrow> ovsdb" where
  "seen_after inp s db = (case processed inp s of None \<Rightarrow> db | Some db' \<Rightarrow> db')"

text \<open>What the environment owes a run: tracked changes, successful commits, a fresh row.\<close>

definition env_step :: "'b vland_env \<Rightarrow> 'b sys \<Rightarrow> run_input \<Rightarrow> bool" where
  "env_step E y inp \<longleftrightarrow>
     (case processed inp (daemon y) of None \<Rightarrow> True | Some db \<Rightarrow> tracks E (seen y) (daemon y) db) \<and>
     (\<forall>ws. committed_ok (ri_commit inp ws)) \<and>
     (\<forall>k v. vlan_at (daemon y) k = Some v \<longrightarrow> vd_idl_cfg v \<noteq> ri_insert_row inp)"

inductive vland_reach :: "'b vland_env \<Rightarrow> 'b sys \<Rightarrow> bool" for E where
  boot: "vland_reach E \<lparr> daemon = vland_ovsdb_init E n, seen = empty_db, server = c \<rparr>"
| run: "vland_reach E y \<Longrightarrow> env_step E y inp \<Longrightarrow> vland_run E inp (daemon y) = Some (s', txs) \<Longrightarrow>
    vland_reach E \<lparr> daemon = s', seen = seen_after inp (daemon y) (seen y),
      server = server_after txs (server y) \<rparr>"

inductive_cases vland_reachE: "vland_reach E y"

section \<open>The invariant\<close>

definition sys_inv :: "'b vland_env \<Rightarrow> 'b sys \<Rightarrow> bool" where
  "sys_inv E y \<longleftrightarrow>
     wf_db (seen y) \<and> in_sync E (seen y) (daemon y) \<and> addr_distinct (daemon y) \<and>
     mirrored (server y) (daemon y) \<and> txn_writes (daemon y) = []"

lemma wf_empty_db: "wf_db empty_db"
  by (simp add: wf_db_def empty_db_def)

lemma init_in_sync:
  assumes "env_ok E"
  shows "in_sync E empty_db (vland_ovsdb_init E n)"
proof -
  have "bits (bmp E) (all_vlans_bitmap (vland_ovsdb_init E n)) = {}"
    using assms by (simp add: vland_ovsdb_init_def bitmap_size_def bitmap_simps)
  then show ?thesis
    by (simp add: in_sync_def cache_ok_def vland_ovsdb_init_def empty_db_def linked_def
        trunks_covered_def port_row_named_def vlan_row_named_def known_vids_def shash_find_data_def)
qed

lemma sys_inv_boot:
  "env_ok E \<Longrightarrow> sys_inv E \<lparr> daemon = vland_ovsdb_init E n, seen = empty_db, server = c \<rparr>"
  using init_in_sync [of E n]
  by (simp add: sys_inv_def wf_empty_db addr_distinct_def mirrored_def vland_ovsdb_init_def
      shash_find_data_def)

text \<open>Creating the default VLAN writes to the new row only.\<close>

lemma default_vlan_writes_other:
  "r \<noteq> vlan_row \<Longrightarrow> apply_writes (default_vlan_writes vlan_row b) c r = c r"
  by (simp add: apply_writes_def default_vlan_writes_def)

lemma prepare_server:
  assumes "vland_prepare inp s = (t, Some (db, txs))" and "r \<noteq> ri_insert_row inp"
  shows "server_after txs c r = c r"
  using assms
  by (auto simp: vland_prepare_def create_default_vlan_def Let_def server_after_def
      default_vlan_writes_other split: if_splits option.splits)

lemma mirrored_same:
  assumes "all_vlans t = all_vlans s" and "txn_writes t = txn_writes s" and "mirrored c s"
    and "\<And>k v. vlan_at s k = Some v \<Longrightarrow> c' (vd_idl_cfg v) = c (vd_idl_cfg v)" and "txn_writes s = []"
  shows "mirrored c' t"
  using assms(3,4) unfolding mirrored_def by (simp add: assms(1,2,5))

text \<open>One run from a state that satisfies the invariant: it returns, and keeps it.\<close>

lemma vland_run_inv:
  assumes env: "env_ok E" and inv: "sys_inv E y" and step: "env_step E y inp"
  obtains s' txs where "vland_run E inp (daemon y) = Some (s', txs)"
    and "sys_inv E \<lparr> daemon = s', seen = seen_after inp (daemon y) (seen y),
      server = server_after txs (server y) \<rparr>"
proof -
  let ?s = "daemon y"
  have wf: "wf_db (seen y)" and sync: "in_sync E (seen y) ?s" and addr: "addr_distinct ?s"
    and mir: "mirrored (server y) ?s" and tw: "txn_writes ?s = []"
    using inv by (simp_all add: sys_inv_def)
  obtain t act where p: "vland_prepare inp ?s = (t, act)" by fastforce
  from vland_prepare_caches [OF p] have t: "same_caches ?s t" "txn_writes t = []" using tw by simp_all
  have tv: "all_vlans t = all_vlans ?s" "idl_seqno t = idl_seqno ?s" using t(1) by (simp_all add: same_caches_def)
  have addr_t: "addr_distinct t" using addr unfolding addr_distinct_def tv .
  have sync_t: "in_sync E (seen y) t" using sync same_cachesD(1) [OF t(1)] by simp
  show thesis
  proof (cases act)
    case None
    have "mirrored (server y) t" by (rule mirrored_same [OF tv(1) _ mir refl tw]) (simp add: t(2) tw)
    with p None wf sync_t addr_t t(2) show thesis
      by (intro that [of t "[]"]) (simp_all add: vland_run_def sys_inv_def seen_after_def processed_def)
  next
    case (Some a)
    then obtain db txs where a: "act = Some (db, txs)" by (cases a) auto
    let ?c = "server_after txs (server y)"
    let ?t = "t\<lparr>txn_writes := []\<rparr>"
    have other: "?c (vd_idl_cfg v) = server y (vd_idl_cfg v)" if "vlan_at ?s k = Some v" for k v
      using step that by (intro prepare_server [OF p [unfolded a]]) (auto simp: env_step_def)
    have mir_t: "mirrored ?c ?t"
      by (rule mirrored_same [OF _ _ mir other tw]) (simp_all add: tv tw)
    have tt: "?t = t" using t(2) by simp
    show thesis
    proof (cases "seqno db = idl_seqno t")
      case True
      then have "vland_reconfigure E db ?t = Some (0, ?t)" by (simp add: vland_reconfigure_def)
      with p a True wf sync_t addr_t mir_t t(2) show thesis
        by (intro that [of ?t txs])
          (simp_all add: vland_run_def sys_inv_def seen_after_def processed_def tt)
    next
      case False
      have proc: "processed inp ?s = Some db" using p a False by (simp add: processed_def)
      with step have trk: "tracks E (seen y) ?s db" by (simp add: env_step_def)
      then have trk_t: "tracks E (seen y) t db" using same_cachesD(2) [OF t(1)] by simp
      from vland_reconfigure_sync [OF env wf sync_t trk_t False] obtain rc s' where
        r: "vland_reconfigure E db t = Some (rc, s')" "in_sync E db s'" by blast
      have "mirror_inv db ?c t"
        using tracksD(1,2) [OF trk_t] addr_t mir_t cache_okD(2) [OF in_syncD(1) [OF sync_t]]
        by (simp add: mirror_inv_def tt)
      from vland_reconfigure_mirror [OF r(1) this] have m: "addr_distinct s'" "mirrored ?c s'"
        by (simp_all add: mirror_inv_def)
      from vland_reconfigure_logs [OF r(1)] t(2) have rc: "rc = 0 \<longleftrightarrow> txn_writes s' = []" by auto
      let ?txs = "if rc \<noteq> 0 then txs @ [(txn_writes s', ri_commit inp (txn_writes s'))] else txs"
      have "server_after ?txs (server y) = apply_writes (txn_writes s') ?c"
        using rc step by (simp add: env_step_def)
      then have "mirrored (server_after ?txs (server y)) (s'\<lparr>txn_writes := []\<rparr>)"
        using m(2) by (simp add: mirrored_def)
      moreover have "in_sync E db (s'\<lparr>txn_writes := []\<rparr>)" "addr_distinct (s'\<lparr>txn_writes := []\<rparr>)"
        using r(2) m(1) same_cachesD(1) [of s' "s'\<lparr>txn_writes := []\<rparr>" E db]
        by (simp_all add: addr_distinct_def)
      moreover have "vland_run E inp ?s = Some (s'\<lparr>txn_writes := []\<rparr>, ?txs)"
        using p a r(1) tt by (simp add: vland_run_def)
      ultimately show thesis
        using proc tracksD(1) [OF trk] by (intro that) (auto simp: sys_inv_def seen_after_def)
    qed
  qed
qed

lemma vland_reach_inv: "vland_reach E y \<Longrightarrow> env_ok E \<Longrightarrow> sys_inv E y"
proof (induction rule: vland_reach.induct)
  case (boot n c)
  then show ?case by (rule sys_inv_boot)
next
  case (run y inp s' txs)
  from vland_run_inv [OF run.prems run.IH [OF run.prems] run.hyps(2)] run.hyps(3) show ?case by auto
qed

section \<open>Executions\<close>

text \<open>The system after one run, and the inputs an environment may feed it one after another.\<close>

definition sys_after :: "'b vland_env \<Rightarrow> run_input \<Rightarrow> 'b sys \<Rightarrow> 'b sys option" where
  "sys_after E inp y =
     map_option (\<lambda>(s', txs). \<lparr> daemon = s', seen = seen_after inp (daemon y) (seen y),
       server = server_after txs (server y) \<rparr>) (vland_run E inp (daemon y))"

fun env_steps :: "'b vland_env \<Rightarrow> 'b sys \<Rightarrow> run_input list \<Rightarrow> bool" where
  "env_steps E y [] = True"
| "env_steps E y (inp # inps) =
     (env_step E y inp \<and> (case sys_after E inp y of None \<Rightarrow> True | Some z \<Rightarrow> env_steps E z inps))"

lemma sys_after_reach:
  assumes env: "env_ok E" and y: "vland_reach E y" and step: "env_step E y inp"
  obtains z s' txs where "sys_after E inp y = Some z" "vland_reach E z"
    "vland_run E inp (daemon y) = Some (s', txs)" "daemon z = s'" "server z = server_after txs (server y)"
    "seen z = seen_after inp (daemon y) (seen y)"
proof -
  obtain s' txs where r: "vland_run E inp (daemon y) = Some (s', txs)"
    by (rule vland_run_inv [OF env vland_reach_inv [OF y env] step])
  show thesis
    by (rule that [OF _ vland_reach.run [OF y step r] r]) (simp_all add: sys_after_def r)
qed

text \<open>What a reachable state shows of a VLAN row.\<close>

lemma reach_shows:
  assumes env: "env_ok E" and y: "vland_reach E y" and row: "row \<in> set (vlans (seen y))"
    and l3: "\<not> l3_internal row"
  shows "server y (v_row row) = shown (spec_oper (ops E) (seen y) row)"
proof -
  from vland_reach_inv [OF y env] have inv: "wf_db (seen y)" "in_sync E (seen y) (daemon y)"
    "mirrored (server y) (daemon y)" "txn_writes (daemon y) = []" by (simp_all add: sys_inv_def)
  obtain v where v: "vlan_at (daemon y) (v_name row) = Some v" "vd_idl_cfg v = v_row row"
    "\<not> l3_internal row \<Longrightarrow> (vd_op_state v, vd_op_state_reason v) = spec_oper (ops E) (seen y) row"
    by (rule in_sync_vlan [OF env inv(1,2) row]) blast
  have "fst (spec_oper (ops E) (seen y) row) \<noteq> VLAN_OPER_STATE_UNKNOWN"
    by (simp add: spec_oper_def oper_table_def split: vlan_admin.split)
  then have "vd_op_state v \<noteq> VLAN_OPER_STATE_UNKNOWN" using v(3) l3 by (metis fst_conv)
  with inv(3,4) v(1) have "server y (vd_idl_cfg v) = shown (vd_op_state v, vd_op_state_reason v)"
    unfolding mirrored_def by (metis apply_writes_Nil)
  with v(2,3) l3 show ?thesis by simp
qed

lemma reach_columns:
  assumes "env_ok E" and "vland_reach E y" and "row \<in> set (vlans (seen y))" and "\<not> l3_internal row"
  shows "server y (v_row row) = spec_columns (ops E) (seen y) row"
proof -
  from vland_reach_inv [OF assms(2,1)] have "wf_db (seen y)" by (simp add: sys_inv_def)
  with assms(3) have "VALID_VID (v_id row)" by (simp add: wf_db_def)
  with reach_shows [OF assms] assms(3) show ?thesis by (simp add: spec_columns_eq)
qed

text \<open>The first replica a daemon meets is tracked when the library reports every row as new.\<close>

lemma tracks_boot:
  assumes "wf_db db" and "\<forall>row \<in> set (ports db). row_changed db n (p_row row)"
    and "\<forall>row \<in> set (vlans db). row_changed db n (v_row row)"
  shows "tracks E db0 (vland_ovsdb_init E n) db"
  using assms
  by (simp add: tracks_def linked_def no_dangling_def vland_ovsdb_init_def shash_find_data_def)

end
