(* ===== verification/Vland_Main.thy ===== *)
theory Vland_Main
  imports Vland_System
begin

text \<open>
  The shell around the daemon: its main loop and arguments (\<^verbatim>\<open>src/vland.c\<close>) and the text of its
  debug dump (\<^verbatim>\<open>vland_debug_dump\<close>, \<^verbatim>\<open>l2vlan_diag_dump_callback\<close> in \<^verbatim>\<open>src/vland_ovsdb_if.c\<close>).
\<close>

section \<open>The main loop\<close>

text \<open>
  One pass per wake-up: a run, then the control socket, which may set \<^verbatim>\<open>exiting\<close>. The list
  gives the input of each pass and whether the \<open>exit\<close> command arrived in it; a loop that is
  still waiting when the list ends has the state it waits in.
\<close>

fun vland_main_loop ::
  "'b vland_env \<Rightarrow> (run_input \<times> bool) list \<Rightarrow> 'b vland \<Rightarrow> ('b vland \<times> committed) option" where
  "vland_main_loop E [] s = Some (s, [])"
| "vland_main_loop E ((inp, exiting) # rest) s =
     (case vland_run E inp s of
        None \<Rightarrow> None
      | Some (s, txs) \<Rightarrow>
          if exiting then Some (vland_ovsdb_exit s, txs)
          else
            (case vland_main_loop E rest s of
               None \<Rightarrow> None
             | Some (s, txs') \<Rightarrow> Some (s, txs @ txs')))"

lemma server_after_append: "server_after (txs @ txs') c = server_after txs' (server_after txs c)"
  by (simp add: server_after_def)

text \<open>A loop fed by a well-behaved environment makes every pass, each from a reachable state.\<close>

lemma main_loop_reach:
  assumes env: "env_ok E"
  shows "vland_reach E y \<Longrightarrow> env_steps E y inps \<Longrightarrow>
    \<exists>z txs. vland_main_loop E (map (\<lambda>inp. (inp, False)) inps) (daemon y) = Some (daemon z, txs) \<and>
      vland_reach E z \<and> server z = server_after txs (server y)"
proof (induction inps arbitrary: y)
  case Nil
  then show ?case by (intro exI [of _ y] exI [of _ "[]"]) simp
next
  case (Cons inp inps)
  from Cons.prems(2) have step: "env_step E y inp" by simp
  obtain z s' txs where z: "sys_after E inp y = Some z" "vland_reach E z"
    "vland_run E inp (daemon y) = Some (s', txs)" "daemon z = s'" "server z = server_after txs (server y)"
    by (rule sys_after_reach [OF env Cons.prems(1) step])
  from Cons.prems(2) z(1) have "env_steps E z inps" by simp
  from Cons.IH [OF z(2) this] obtain w txs' where
    w: "vland_main_loop E (map (\<lambda>inp. (inp, False)) inps) (daemon z) = Some (daemon w, txs')"
      "vland_reach E w" "server w = server_after txs' (server z)" by blast
  with z show ?case by (intro exI [of _ w] exI [of _ "txs @ txs'"]) (simp add: server_after_append)
qed

section \<open>The default VLAN is created once\<close>

fun is_insert :: "db_write \<Rightarrow> bool" where
  "is_insert (Vlan_Insert _) = True"
| "is_insert _ = False"

text \<open>A transaction that inserted a VLAN row and went through.\<close>

definition created_vlan :: "db_write list \<times> txn_status \<Rightarrow> bool" where
  "created_vlan tx \<longleftrightarrow> list_ex is_insert (fst tx) \<and> committed_ok (snd tx)"

lemma published_not_insert: "publishes db w \<Longrightarrow> \<not> is_insert w"
  by (cases w) (simp_all add: publishes_def)

text \<open>
  What a run may do to the flag, and which of its transactions insert: the last transaction
  holds published states only, and one more precedes it when the flag was not set.
\<close>

lemma vland_prepare_creates:
  assumes "vland_prepare inp s = (t, Some (db, txs))"
  shows "default_vlan_created s \<longrightarrow> default_vlan_created t \<and> txs = []"
    "length txs \<le> 1" "filter created_vlan txs \<noteq> [] \<longrightarrow> default_vlan_created t"
  using assms
  by (auto simp: vland_prepare_def vland_chk_for_system_configured_def create_default_vlan_def
      created_vlan_def committed_ok_def Let_def split: if_splits option.splits)

lemma vland_prepare_idle: "vland_prepare inp s = (t, None) \<Longrightarrow> default_vlan_created t = default_vlan_created s"
  by (auto simp: vland_prepare_def vland_chk_for_system_configured_def Let_def
      split: if_splits option.splits prod.splits)

lemma vland_run_creates:
  assumes "vland_run E inp s = Some (s', txs)"
  shows "default_vlan_created s \<longrightarrow> default_vlan_created s' \<and> filter created_vlan txs = []"
    "length (filter created_vlan txs) \<le> 1" "filter created_vlan txs \<noteq> [] \<longrightarrow> default_vlan_created s'"
proof -
  obtain t act where p: "vland_prepare inp s = (t, act)" by fastforce
  have "(default_vlan_created s \<longrightarrow> default_vlan_created s' \<and> filter created_vlan txs = []) \<and>
    length (filter created_vlan txs) \<le> 1 \<and> (filter created_vlan txs \<noteq> [] \<longrightarrow> default_vlan_created s')"
  proof (cases act)
    case None
    with assms p vland_prepare_idle [of inp s t] show ?thesis by (auto simp: vland_run_def)
  next
    case (Some a)
    then obtain db txs0 where act: "act = Some (db, txs0)" by (cases a) auto
    with assms p obtain rc u where r: "vland_reconfigure E db (t\<lparr>txn_writes := []\<rparr>) = Some (rc, u)"
      and s': "s' = u\<lparr>txn_writes := []\<rparr>"
      and txs: "txs = (if rc \<noteq> 0 then txs0 @ [(txn_writes u, ri_commit inp (txn_writes u))] else txs0)"
      by (auto simp: vland_run_def split: option.splits)
    from vland_reconfigure_logs [OF r] have pub: "\<forall>w \<in> set (txn_writes u). publishes db w"
      and "run_flags u = run_flags t" by auto
    then have flag: "default_vlan_created s' = default_vlan_created t" by (simp add: s' run_flags_def)
    from pub published_not_insert have "\<not> list_ex is_insert (txn_writes u)" by (auto simp: list_ex_iff)
    then have "filter created_vlan txs = filter created_vlan txs0" by (simp add: txs created_vlan_def)
    moreover have "length (filter created_vlan txs0) \<le> 1"
      by (rule order_trans [OF length_filter_le vland_prepare_creates(2) [OF p [unfolded act]]])
    ultimately show ?thesis using vland_prepare_creates [OF p [unfolded act]] flag by auto
  qed
  then show "default_vlan_created s \<longrightarrow> default_vlan_created s' \<and> filter created_vlan txs = []"
    "length (filter created_vlan txs) \<le> 1" "filter created_vlan txs \<noteq> [] \<longrightarrow> default_vlan_created s'"
    by blast+
qed

lemma main_loop_creates:
  "vland_main_loop E inps s = Some (s', txs) \<Longrightarrow>
     (default_vlan_created s \<longrightarrow> filter created_vlan txs = []) \<and> length (filter created_vlan txs) \<le> 1"
proof (induction E inps s arbitrary: s' txs rule: vland_main_loop.induct)
  case (1 E s)
  then show ?case by simp
next
  case (2 E inp exiting rest s)
  from "2.prems" obtain t txs1 where r: "vland_run E inp s = Some (t, txs1)"
    by (auto split: option.splits)
  note c = vland_run_creates [OF r]
  show ?case
  proof (cases exiting)
    case True
    with "2.prems" r c show ?thesis by auto
  next
    case False
    with "2.prems" r obtain u txs2 where l: "vland_main_loop E rest t = Some (u, txs2)" "txs = txs1 @ txs2"
      by (auto split: option.splits)
    have IH: "(default_vlan_created t \<longrightarrow> filter created_vlan txs2 = []) \<and>
        length (filter created_vlan txs2) \<le> 1"
      by (rule "2.IH" [OF r refl False l(1)])
    show ?thesis
    proof (cases "filter created_vlan txs1 = []")
      case True
      with IH c(1) l(2) show ?thesis by auto
    next
      case False
      with IH c l(2) show ?thesis by auto
    qed
  qed
qed

section \<open>Arguments\<close>

text \<open>
  The database socket from the arguments that are left after the options: \<open>Inl\<close> is the fatal
  error of more than one argument.
\<close>

definition parse_database :: "string \<Rightarrow> string list \<Rightarrow> string + string" where
  "parse_database ovs_rundir argv =
     (case argv of
        [] \<Rightarrow> Inr (''unix:'' @ ovs_rundir @ ''/db.sock'')
      | [db] \<Rightarrow> Inr db
      | _ \<Rightarrow> Inl ''at most one non-option argument accepted; use --help for usage'')"

section \<open>The dump\<close>

abbreviation newline :: string where
  "newline \<equiv> [CHR 0x0A]"

definition vid_list :: "nat list \<Rightarrow> string" where
  "vid_list vids = concat (map (\<lambda>vid. '' '' @ dec (int vid) @ '','') vids)"

definition dump_port :: "'b vland_env \<Rightarrow> 'b port_data \<Rightarrow> string" where
  "dump_port E port =
     ''Port '' @ pd_name port @ '':'' @ newline @
     ''  VLAN_mode='' @ vlan_mode_to_str (pd_vlan_mode port) @
     '', native_VID='' @ dec (pd_native_vid port) @
     '', trunk_all_VLANs='' @ (if pd_trunk_all_vlans port then ''true'' else ''false'') @ newline @
     ''  VLANs:'' @ vid_list (bitmap_ones (bmp E) (bitmap_size E) (pd_vlans_bitmap port)) @ newline"

definition dump_vlan :: "vlan_data \<Rightarrow> string" where
  "dump_vlan vl =
     ''VLAN '' @ dec (vd_vid vl) @ '':'' @ newline @
     ''  name              :'' @ vd_name vl @ newline @
     ''  admin             :'' @ vlan_admin_to_str (vd_admin vl) @ newline @
     ''  oper_state        :'' @ vlan_oper_state_to_str (vd_op_state vl) @ newline @
     ''  oper_state_reason :'' @ vlan_oper_state_reason_to_str (vd_op_state_reason vl) @ newline"

definition vland_debug_dump :: "'b vland_env \<Rightarrow> 'b vland \<Rightarrow> string" where
  "vland_debug_dump E s =
     ''================ Ports ================'' @ newline @
     concat (map (\<lambda>n. dump_port E (snd n)) (all_ports s)) @
     ''================ VLANs ================'' @ newline @
     ''  All VLANs bitmap: '' @
     vid_list (bitmap_ones (bmp E) (bitmap_size E) (all_vlans_bitmap s)) @ newline @
     concat (map (\<lambda>n. dump_vlan (snd n)) (all_vlans s))"

text \<open>The reply of the control socket's \<^verbatim>\<open>ops-vland/dump\<close> command (\<^verbatim>\<open>src/vland.c\<close>).\<close>

definition vland_unixctl_dump :: "'b vland_env \<Rightarrow> 'b vland \<Rightarrow> string" where
  "vland_unixctl_dump E s = vland_debug_dump E s"

definition L2VLAN :: string where
  "L2VLAN = ''l2vlan''"

text \<open>
  The buffer handed to the caller has \<^verbatim>\<open>ds.length\<close> bytes, and \<^verbatim>\<open>snprintf\<close> writes the text into them.
\<close>

definition l2vlan_diag_dump_callback :: "'b vland_env \<Rightarrow> 'b vland \<Rightarrow> string \<Rightarrow> string" where
  "l2vlan_diag_dump_callback E s feature =
     (let ds = (if take (length L2VLAN) feature = L2VLAN then vland_debug_dump E s else '''');
          buf = xcalloc_chars (length ds)
      in snprintf_s buf (length ds) ds)"

text \<open>The text of a dump: it ends in a newline, and holds no null when the names do not.\<close>

lemma dump_ends: "\<exists>out. vland_debug_dump E s = out @ newline"
proof (cases "all_vlans s" rule: rev_cases)
  case Nil
  then show ?thesis
    unfolding vland_debug_dump_def by (simp only: Nil list.map concat.simps append_Nil2 append_assoc [symmetric]) blast
next
  case (snoc ns n)
  have "\<exists>out. dump_vlan (snd n) = out @ newline"
    unfolding dump_vlan_def by (simp only: append_assoc [symmetric]) blast
  then obtain out where "dump_vlan (snd n) = out @ newline" by blast
  then show ?thesis
    unfolding vland_debug_dump_def snoc
    by (simp only: map_append concat_append list.map concat.simps append_Nil2 append_assoc [symmetric]) blast
qed

lemma dump_no_null:
  assumes "\<forall>n \<in> set (all_ports s). CHR 0x00 \<notin> set (pd_name (snd n))"
    and "\<forall>n \<in> set (all_vlans s). CHR 0x00 \<notin> set (vd_name (snd n))"
  shows "CHR 0x00 \<notin> set (vland_debug_dump E s)"
proof -
  have vids: "CHR 0x00 \<notin> set (vid_list vids)" for vids by (auto simp: vid_list_def dec_no_null)
  have "CHR 0x00 \<notin> set (dump_port E (snd n))" if "n \<in> set (all_ports s)" for n
    using assms(1) that
    by (cases "pd_vlan_mode (snd n)") (simp_all add: dump_port_def dec_no_null vids)
  moreover have "CHR 0x00 \<notin> set (dump_vlan (snd n))" if "n \<in> set (all_vlans s)" for n
    using assms(2) that
    by (cases "vd_admin (snd n)"; cases "vd_op_state (snd n)"; cases "vd_op_state_reason (snd n)")
      (simp_all add: dump_vlan_def dec_no_null)
  ultimately show ?thesis by (auto simp: vland_debug_dump_def vids)
qed

end
