(* ===== verification/Daemon_Example.thy ===== *)
theory Daemon_Example
  imports Vland_Main
begin

text \<open>
  A concrete environment and concrete replicas on which the properties of the daemon are
  instantiated: bitmaps are sets, a VLAN row's address is its id, and hash tables keep new
  nodes in front. The switch has one bridge with one access port in VLAN 10.
\<close>

definition ex_ops :: ops_utils where
  "ex_ops =
     \<lparr> ops_port_get_tag = (\<lambda>p. case p_vlan_tag p of None \<Rightarrow> -1 | Some r \<Rightarrow> int r),
       ops_port_get_trunks = (\<lambda>p i. int (p_vlan_trunks p ! i)) \<rparr>"

definition ex_env :: "nat set vland_env" where
  "ex_env = \<lparr> bmp = set_bitmap, ops = ex_ops, hash_rank = (\<lambda>_ _. 0) \<rparr>"

definition ex_vlan :: "nat \<Rightarrow> string \<Rightarrow> ovsrec_vlan" where
  "ex_vlan vid name =
     \<lparr> v_row = vid, v_name = name, v_id = int vid, v_admin = Some ''up'', v_description = None,
       v_oper_state = ''down'', v_oper_state_reason = ''admin_down'', v_internal_usage = [] \<rparr>"

definition ex_access :: "nat \<Rightarrow> string \<Rightarrow> nat \<Rightarrow> ovsrec_port" where
  "ex_access r name vid =
     \<lparr> p_row = r, p_name = name, p_vlan_mode = Some ''access'', p_vlan_tag = Some vid,
       p_vlan_trunks = [], p_interfaces = [], p_hw_config = [] \<rparr>"

definition ex_db :: "ovsrec_port list \<Rightarrow> ovsrec_vlan list \<Rightarrow> 32 word \<Rightarrow> ovsdb" where
  "ex_db ps vs n =
     (let br = \<lparr> b_row = 500, b_name = ''bridge_normal'', b_ports = ps, b_vlans = map v_row vs \<rparr>
      in \<lparr> systems = [\<lparr> s_row = 600, s_cur_cfg = 1, s_bridges = [br], s_other_config = [] \<rparr>],
           bridges = [br], ports = ps, vlans = vs, interfaces = [],
           row_inserted = (\<lambda>_ _. True), row_modified = (\<lambda>_ _. False), seqno = n \<rparr>)"

definition ex_db1 :: ovsdb where
  "ex_db1 = ex_db [ex_access 101 ''1'' 10] [ex_vlan 1 ''DEFAULT_VLAN_1'', ex_vlan 10 ''VLAN10''] 1"

text \<open>The next replica: VLAN 10 and the port that was in it are both gone.\<close>

definition ex_db2 :: ovsdb where
  "ex_db2 = ex_db [] [ex_vlan 1 ''DEFAULT_VLAN_1''] 2"

definition ex_input :: "ovsdb \<Rightarrow> txn_status \<Rightarrow> run_input" where
  "ex_input db st =
     \<lparr> ri_replica = db, ri_lock_contended = False, ri_has_lock = True, ri_insert_row = 900,
       ri_commit = (\<lambda>_. st), ri_after_commit = db \<rparr>"

lemmas ex_defs = ex_ops_def ex_env_def ex_vlan_def ex_access_def ex_db_def ex_db1_def ex_db2_def ex_input_def

lemma ex_env_ok: "env_ok ex_env"
  by (simp add: ex_env_def set_bitmap_laws)

text \<open>The system at start-up and after its first run.\<close>

definition ex_boot :: "nat set sys" where
  "ex_boot = \<lparr> daemon = vland_ovsdb_init ex_env 0, seen = empty_db, server = (\<lambda>_. ([], '''', '''')) \<rparr>"

definition ex_y1 :: "nat set sys" where
  "ex_y1 = the (sys_after ex_env (ex_input ex_db1 TXN_SUCCESS) ex_boot)"

lemma ex_reach_boot: "vland_reach ex_env ex_boot"
  unfolding ex_boot_def by (rule vland_reach.boot)

lemma wf_ex_db1: "wf_db ex_db1"
  by (simp add: wf_db_def ex_defs VALID_VID_def Let_def)

lemma ex_processed: "processed (ex_input ex_db1 TXN_SUCCESS) (daemon ex_boot) = Some ex_db1"
  by (simp add: processed_def vland_prepare_def ex_boot_def vland_ovsdb_init_def ex_input_def ex_db1_def
      ex_db_def ex_vlan_def DEFAULT_VID_def vland_chk_for_system_configured_def ovsrec_system_first_def
      create_default_vlan_def Let_def)

lemma ex_step1: "env_step ex_env ex_boot (ex_input ex_db1 TXN_SUCCESS)"
proof -
  have "tracks ex_env empty_db (vland_ovsdb_init ex_env 0) ex_db1"
    by (rule tracks_boot [OF wf_ex_db1])
      (simp_all add: ex_db1_def ex_db_def ex_access_def ex_vlan_def row_changed_def Let_def)
  moreover have "vlan_at (daemon ex_boot) k = None" for k
    by (simp add: ex_boot_def vland_ovsdb_init_def shash_find_data_def)
  moreover have "committed_ok (ri_commit (ex_input ex_db1 TXN_SUCCESS) ws)" for ws
    by (simp add: ex_input_def committed_ok_def)
  ultimately show ?thesis
    by (simp add: env_step_def ex_processed) (simp add: ex_boot_def)
qed

lemma ex_after1:
  "sys_after ex_env (ex_input ex_db1 TXN_SUCCESS) ex_boot = Some ex_y1"
  "vland_reach ex_env ex_y1" "seen ex_y1 = ex_db1"
proof -
  obtain z where "sys_after ex_env (ex_input ex_db1 TXN_SUCCESS) ex_boot = Some z" "vland_reach ex_env z"
    "seen z = seen_after (ex_input ex_db1 TXN_SUCCESS) (daemon ex_boot) (seen ex_boot)"
    by (rule sys_after_reach [OF ex_env_ok ex_reach_boot ex_step1]) blast
  then show "sys_after ex_env (ex_input ex_db1 TXN_SUCCESS) ex_boot = Some ex_y1"
    "vland_reach ex_env ex_y1" "seen ex_y1 = ex_db1"
    by (simp_all add: ex_y1_def seen_after_def ex_processed)
qed

text \<open>Its daemon, evaluated.\<close>

definition ex_run1 :: "(nat set vland \<times> committed) option" where
  "ex_run1 = vland_run ex_env (ex_input ex_db1 TXN_SUCCESS) (vland_ovsdb_init ex_env 0)"

lemma ex_run1_values:
  "map_option (\<lambda>(s, txs). (idl_seqno s, default_vlan_created s, vlan_at s ''VLAN10'', port_at s ''1'')) ex_run1 =
     Some (1, True,
       Some \<lparr> vd_idl_cfg = 10, vd_name = ''VLAN10'', vd_vid = 10, vd_any_member_exists = True,
         vd_admin = VLAN_ADMIN_UP, vd_op_state = VLAN_OPER_STATE_UP,
         vd_op_state_reason = VLAN_OPER_STATE_REASON_OK \<rparr>,
       Some \<lparr> pd_name = ''1'', pd_vlan_mode = PORT_VLAN_MODE_ACCESS, pd_native_vid = 10,
         pd_trunk_all_vlans = False, pd_vlans_bitmap = {10} \<rparr>)"
  by code_simp

lemma ex_s1:
  "idl_seqno (daemon ex_y1) = 1" "default_vlan_created (daemon ex_y1)"
  "vlan_at (daemon ex_y1) ''VLAN10'' =
     Some \<lparr> vd_idl_cfg = 10, vd_name = ''VLAN10'', vd_vid = 10, vd_any_member_exists = True,
       vd_admin = VLAN_ADMIN_UP, vd_op_state = VLAN_OPER_STATE_UP,
       vd_op_state_reason = VLAN_OPER_STATE_REASON_OK \<rparr>"
  "port_at (daemon ex_y1) ''1'' =
     Some \<lparr> pd_name = ''1'', pd_vlan_mode = PORT_VLAN_MODE_ACCESS, pd_native_vid = 10,
       pd_trunk_all_vlans = False, pd_vlans_bitmap = {10} \<rparr>"
proof -
  obtain s txs where r: "ex_run1 = Some (s, txs)" using ex_run1_values by (cases ex_run1) auto
  have "daemon ex_y1 = s"
    using arg_cong [OF ex_after1(1), of "map_option daemon"] r
    by (simp add: sys_after_def ex_run1_def ex_boot_def)
  with ex_run1_values [unfolded r] show
    "idl_seqno (daemon ex_y1) = 1" "default_vlan_created (daemon ex_y1)"
    "vlan_at (daemon ex_y1) ''VLAN10'' =
       Some \<lparr> vd_idl_cfg = 10, vd_name = ''VLAN10'', vd_vid = 10, vd_any_member_exists = True,
         vd_admin = VLAN_ADMIN_UP, vd_op_state = VLAN_OPER_STATE_UP,
         vd_op_state_reason = VLAN_OPER_STATE_REASON_OK \<rparr>"
    "port_at (daemon ex_y1) ''1'' =
       Some \<lparr> pd_name = ''1'', pd_vlan_mode = PORT_VLAN_MODE_ACCESS, pd_native_vid = 10,
         pd_trunk_all_vlans = False, pd_vlans_bitmap = {10} \<rparr>"
    by simp_all
qed

text \<open>Every well-formed example replica that holds the default VLAN can be the first one seen.\<close>

lemma ex_reach_db:
  assumes wf: "wf_db (ex_db ps vs n)" and dflt: "list_ex (\<lambda>row. v_id row = DEFAULT_VID) vs" and n: "n \<noteq> 0"
  shows "\<exists>y. vland_reach ex_env y \<and> seen y = ex_db ps vs n"
proof -
  let ?inp = "ex_input (ex_db ps vs n) TXN_SUCCESS"
  have proc: "processed ?inp (daemon ex_boot) = Some (ex_db ps vs n)"
    using dflt n
    by (simp add: processed_def vland_prepare_def ex_boot_def vland_ovsdb_init_def ex_input_def
        ex_db_def vland_chk_for_system_configured_def ovsrec_system_first_def create_default_vlan_def Let_def)
  have "tracks ex_env empty_db (vland_ovsdb_init ex_env 0) (ex_db ps vs n)"
    by (rule tracks_boot [OF wf]) (simp_all add: ex_db_def row_changed_def Let_def)
  moreover have "vlan_at (daemon ex_boot) k = None" for k
    by (simp add: ex_boot_def vland_ovsdb_init_def shash_find_data_def)
  moreover have "committed_ok (ri_commit ?inp ws)" for ws by (simp add: ex_input_def committed_ok_def)
  ultimately have "env_step ex_env ex_boot ?inp"
    by (simp add: env_step_def proc) (simp add: ex_boot_def)
  from sys_after_reach [OF ex_env_ok ex_reach_boot this] obtain z where "vland_reach ex_env z"
    "seen z = seen_after ?inp (daemon ex_boot) (seen ex_boot)" by blast
  then show ?thesis by (auto simp: seen_after_def proc)
qed

end
