(* ===== verification/Quiescence.thy ===== *)
theory Quiescence
  imports Vland_Run
begin

text \<open>
  A replica in which no row the daemon watches has changed leaves the daemon alone: no loop of
  the two cache updates finds anything to do.
\<close>

definition quiet :: "ovsdb \<Rightarrow> 'b vland \<Rightarrow> ovsdb \<Rightarrow> bool" where
  "quiet db s db' \<longleftrightarrow> ports db' = ports db \<and> vlans db' = vlans db \<and>
     (\<forall>row \<in> set (ports db). \<not> row_changed db' (idl_seqno s) (p_row row)) \<and>
     (\<forall>row \<in> set (vlans db). \<not> row_changed db' (idl_seqno s) (v_row row))"

lemma foldl_skip: "(\<And>x. x \<in> set xs \<Longrightarrow> f s x = s) \<Longrightarrow> foldl f s xs = s"
  by (induction xs) auto

lemma quiet_ports:
  assumes s: "in_sync E db s" and q: "quiet db s db'"
  shows "update_port_cache E db' s = Some (0, s)"
proof -
  note D = in_syncD [OF s]
  let ?idl = "collect_ports (hash_rank E) (ports db)"
  have pd: "ports db' = ports db" using q by (simp add: quiet_def)
  have ok: "shash_ok (all_ports s)" by (rule cache_okD(1) [OF D(1)])
  have row: "\<exists>row. shash_find_data ?idl k = Some row \<and> row \<in> set (ports db)"
    if "k \<in> set (shash_nodes (all_ports s))" for k
  proof -
    have "port_at s k \<noteq> None" using that sd.set_nodes [OF ok] by blast
    then have "port_row_named db k" using D(4) by blast
    then show ?thesis using find_named [of k db]
      by (cases "find (\<lambda>r. p_name r = k) (ports db)") (auto simp: find_collect_ports dest: find_SomeD)
  qed
  have 1: "delete_stale_ports E db' ?idl s = Some (0, s)"
    unfolding delete_stale_ports_def
  proof (rule foldM_skip)
    fix k and st :: "nat \<times> 'a vland" assume "k \<in> set (shash_nodes (all_ports s))"
    from row [OF this] show "(case st of (rc, s) \<Rightarrow> case shash_find_data ?idl k of
        Some row \<Rightarrow> Some (rc, s)
      | None \<Rightarrow> (case del_old_port E db' k s of
           None \<Rightarrow> None | Some (n, s) \<Rightarrow> Some (if n \<noteq> 0 then Suc rc else rc, s))) = Some st"
      by (cases st) auto
  qed
  have 2: "add_missing_ports E ?idl s = s"
    unfolding add_missing_ports_def
  proof (rule foldl_skip)
    fix x assume x: "x \<in> set ?idl"
    obtain name r where xr: "x = (name, r)" by fastforce
    have "port_row_named db name"
      using collect_ports_nodes [of name r "hash_rank E" "ports db"] x xr by (auto simp: port_row_named_def)
    with D(4) [of name] show "(case x of (name, row) \<Rightarrow>
        if port_at s name = None \<and> name \<noteq> DEFAULT_BRIDGE_NAME then add_new_port E row s else s) = s"
      by (auto simp: xr)
  qed
  have 3: "foldM (update_port E db' ?idl) ks (0, s) = Some (0, s)"
    if "set ks \<subseteq> set (shash_nodes (all_ports s))" for ks
    using that
  proof (induction ks)
    case Nil
    then show ?case by simp
  next
    case (Cons k ks)
    from Cons.prems row [of k] obtain r where r: "shash_find_data ?idl k = Some r" "r \<in> set (ports db)" by auto
    have "port_at s k \<noteq> None" using Cons.prems sd.set_nodes [OF ok] by auto
    then obtain p where "port_at s k = Some p" by blast
    with r q have "update_port E db' ?idl k (0, s) = Some (0, s)" by (simp add: update_port_def quiet_def)
    with Cons show ?case by simp
  qed
  show ?thesis
    by (simp add: update_port_cache_def pd Let_def 1 2 update_changed_ports_def 3)
qed

lemma quiet_vlans:
  assumes s: "in_sync E db s" and q: "quiet db s db'"
  shows "update_vlan_cache E db' s = Some (0, s)"
proof -
  note D = in_syncD [OF s]
  let ?idl = "collect_vlans (hash_rank E) (vlans db)"
  have vd: "vlans db' = vlans db" using q by (simp add: quiet_def)
  have ok: "shash_ok (all_vlans s)" by (rule cache_okD(2) [OF D(1)])
  have row: "\<exists>row. shash_find_data ?idl k = Some row \<and> row \<in> set (vlans db)"
    if "k \<in> set (shash_nodes (all_vlans s))" for k
  proof -
    have "vlan_at s k \<noteq> None" using that sd.set_nodes [OF ok] by blast
    then have "vlan_row_named db k" using D(6) by blast
    then show ?thesis using find_vlan_named [of k db]
      by (cases "find (\<lambda>r. v_name r = k) (vlans db)") (auto simp: find_collect_vlans dest: find_SomeD)
  qed
  have 1: "delete_stale_vlans E ?idl s = s"
    unfolding delete_stale_vlans_def by (rule foldl_skip) (use row in \<open>force split: option.split\<close>)
  have 2: "add_missing_vlans E db' ?idl s = s"
    unfolding add_missing_vlans_def
  proof (rule foldl_skip)
    fix x assume x: "x \<in> set ?idl"
    obtain name r where xr: "x = (name, r)" by fastforce
    have "vlan_row_named db name"
      using collect_vlans_nodes [of name r "hash_rank E" "vlans db"] x xr by (auto simp: vlan_row_named_def)
    with D(6) [of name] show "(case x of (name, row) \<Rightarrow>
        case vlan_at s name of Some new_vlan \<Rightarrow> s | None \<Rightarrow> add_new_vlan E db' row s) = s"
      by (auto simp: xr)
  qed
  have 3: "foldM (update_vlan E db' ?idl) ks (0, s) = Some (0, s)"
    if "set ks \<subseteq> set (shash_nodes (all_vlans s))" for ks
    using that
  proof (induction ks)
    case Nil
    then show ?case by simp
  next
    case (Cons k ks)
    from Cons.prems row [of k] obtain r where r: "shash_find_data ?idl k = Some r" "r \<in> set (vlans db)" by auto
    have "vlan_at s k \<noteq> None" using Cons.prems sd.set_nodes [OF ok] by auto
    then obtain v where "vlan_at s k = Some v" by blast
    with r q have "update_vlan E db' ?idl k (0, s) = Some (0, s)" by (simp add: update_vlan_def quiet_def)
    with Cons show ?case by simp
  qed
  show ?thesis
    by (simp add: update_vlan_cache_def vd Let_def 1 2 update_changed_vlans_def 3)
qed

lemma quiet_reconfigure:
  assumes s: "in_sync E db s" and q: "quiet db s db'"
  shows "vland_reconfigure E db' s = Some (0, s\<lparr>idl_seqno := seqno db'\<rparr>)"
  using quiet_ports [OF s q] quiet_vlans [OF s q] by (simp add: vland_reconfigure_def Let_def)

end
