(* ===== verification/Dangling.thy ===== *)
theory Dangling
  imports Publication
begin

text \<open>
  The pointer that \<^verbatim>\<open>del_old_port\<close> reads through. A cached VLAN keeps the address of its row; when
  a replica drops a VLAN and a port of it together, the port half meets the VLAN first and
  reads a row that is gone. The lemmas here follow that pointer through the deletion loops.
\<close>

definition points_at :: "string \<Rightarrow> nat \<Rightarrow> row_ref \<Rightarrow> 'b vland \<Rightarrow> bool" where
  "points_at k vid r s \<longleftrightarrow> (\<exists>v. vlan_at s k = Some v \<and> vd_vid v = int vid \<and> vd_idl_cfg v = r)"

definition carries :: "'b vland_env \<Rightarrow> string \<Rightarrow> nat \<Rightarrow> 'b vland \<Rightarrow> bool" where
  "carries E k vid s \<longleftrightarrow> (\<exists>p. port_at s k = Some p \<and> vid \<in> port_bits E p)"

lemma shape_points_at: "shape E s t \<Longrightarrow> points_at k vid r s \<Longrightarrow> points_at k vid r t"
  unfolding points_at_def using shape_vlan' [of E s t k] by (fastforce simp: vlan_le_def)

lemma shape_carries: "shape E s t \<Longrightarrow> carries E k vid s \<Longrightarrow> carries E k vid t"
  unfolding carries_def using shape_port' [of E s t k] port_le_fields by blast

text \<open>An iteration that fails makes the loop fail, whatever comes before it.\<close>

lemma foldM_fails:
  assumes "x \<in> set xs" and "I s" and "\<And>y a b. I a \<Longrightarrow> f y a = Some b \<Longrightarrow> I b"
    and "\<And>a. I a \<Longrightarrow> f x a = None"
  shows "foldM f xs s = None"
  using assms(1,2)
proof (induction xs arbitrary: s)
  case (Cons y ys)
  show ?case
  proof (cases "f y s")
    case (Some t)
    then have "y \<noteq> x" using assms(4) [OF Cons.prems(2)] by auto
    with Some Cons assms(3) [OF Cons.prems(2) Some] show ?thesis by simp
  qed simp
qed simp

lemma refresh_after_delete_shape:
  assumes env: "env_ok E" and ok: "cache_ok E (snd st)" and run: "refresh_after_delete E db vid st = Some st'"
  shows "shape E (snd st) (snd st')"
proof -
  obtain rc s where st: "st = (rc, s)" by fastforce
  with ok have ok: "cache_ok E s" by simp
  show ?thesis
  proof (cases "vlan_lookup_by_vid s (int vid)")
    case None
    with run show ?thesis by (auto simp: st refresh_after_delete_def)
  next
    case (Some n)
    then obtain k v where kv: "vlan_lookup_by_vid s (int vid) = Some (k, v)" by (cases n) simp
    then have v: "vlan_at s k = Some v" by (simp add: lookup_by_vid_Some [OF ok])
    obtain v1 s1 where u: "update_vlan_membership E db v s = (v1, s1)" by fastforce
    have v1: "vlan_le v v1" "all_vlans s1 = all_vlans s" "vd_idl_cfg v1 = vd_idl_cfg v"
      using u by (auto simp: update_vlan_membership_eq vlan_le_def)
    have sh1: "shape E s s1"
      using update_vlan_membership_shape [OF env cache_okD(6) [OF ok v], of s db] u by simp
    from run kv u have "configure_vlan E db (vd_idl_cfg v1) k v1 s1 \<noteq> None"
      by (auto simp: st refresh_after_delete_def split: option.splits)
    then obtain row where row: "deref_vlan db (vd_idl_cfg v) = Some row"
      by (auto simp: configure_vlan_def handle_vlan_config_def v1(3) split: option.splits)
    obtain m v' ws where c: "configure_vlan E db (vd_idl_cfg v1) k v1 s1 =
        Some (m, (put_vlan k v' s1)\<lparr>txn_writes := txn_writes s1 @ ws\<rparr>)" and le: "vlan_le v v'"
      by (rule refresh_one [OF env ok v row u]) blast
    have "shape E s1 ((put_vlan k v' s1)\<lparr>txn_writes := txn_writes s1 @ ws\<rparr>)"
      using v v1(2) le by (intro put_vlan_shape [of _ _ v]) simp_all
    with shape_trans [OF sh1] run kv u c show ?thesis
      by (auto simp: st refresh_after_delete_def)
  qed
qed

lemma del_old_port_shape:
  assumes env: "env_ok E" and ok: "cache_ok E s" and run: "del_old_port E db k s = Some (n, s')"
  shows "cache_ok E s'" "k' \<noteq> k \<Longrightarrow> carries E k' vid s \<Longrightarrow> carries E k' vid s'"
    "points_at kv vid r s \<Longrightarrow> points_at kv vid r s'"
proof -
  let ?s1 = "s\<lparr>all_ports := shash_delete k (all_ports s)\<rparr>"
  have ok1: "cache_ok E ?s1"
    using cache_okD(1,3,4) [OF ok]
    by (intro cache_ok_ports [OF ok]) (auto simp: sd.lookup_delete sd.ok_delete split: if_splits)
  have sh: "shape E (if port_at s k = None then s else ?s1) s'"
  proof (cases "port_at s k")
    case None
    with run show ?thesis by (simp add: del_old_port_def)
  next
    case (Some p)
    with run have w: "foldM (refresh_after_delete E db)
        (bitmap_ones (bmp E) (bitmap_size E) (pd_vlans_bitmap p)) (0, ?s1) = Some (n, s')"
      by (simp add: del_old_port_def)
    have "shape E ?s1 (snd (n, s')) \<and> cache_ok E (snd (n, s'))"
    proof (rule foldM_result_inv [OF w])
      fix x and a b :: "nat \<times> 'a vland"
      assume I: "shape E ?s1 (snd a) \<and> cache_ok E (snd a)" and f: "refresh_after_delete E db x a = Some b"
      have "shape E (snd a) (snd b)" by (rule refresh_after_delete_shape [OF env _ f]) (use I in simp)
      with I show "shape E ?s1 (snd b) \<and> cache_ok E (snd b)"
        using shape_trans shape_cache_ok by blast
    qed (use ok1 in simp)
    with Some show ?thesis by simp
  qed
  then show "cache_ok E s'" using ok ok1 shape_cache_ok by (fastforce split: if_splits)
  show "points_at kv vid r s'" if "points_at kv vid r s"
    using shape_points_at [OF sh] that by (simp add: points_at_def split: if_splits)
  show "carries E k' vid s'" if "k' \<noteq> k" "carries E k' vid s"
    using shape_carries [OF sh] that by (simp add: carries_def sd.lookup_delete split: if_splits)
qed

lemma del_old_port_dangling:
  assumes env: "env_ok E" and ok: "cache_ok E s" and k: "carries E k vid s"
    and v: "points_at kv vid r s" and gone: "deref_vlan db r = None"
  shows "del_old_port E db k s = None"
proof -
  let ?s1 = "s\<lparr>all_ports := shash_delete k (all_ports s)\<rparr>"
  have ok1: "cache_ok E ?s1"
    using cache_okD(1,3,4) [OF ok]
    by (intro cache_ok_ports [OF ok]) (auto simp: sd.lookup_delete sd.ok_delete split: if_splits)
  from k obtain p where p: "port_at s k = Some p" "vid \<in> port_bits E p" by (auto simp: carries_def)
  let ?I = "\<lambda>st. cache_ok E (snd st) \<and> points_at kv vid r (snd st)"
  have "foldM (refresh_after_delete E db)
      (bitmap_ones (bmp E) (bitmap_size E) (pd_vlans_bitmap p)) (0, ?s1) = None"
  proof (rule foldM_fails [where I = ?I])
    show "vid \<in> set (bitmap_ones (bmp E) (bitmap_size E) (pd_vlans_bitmap p))"
      using env p(2) by (simp add: bitmap_simps bitmap_size_def)
    show "?I (0, ?s1)" using ok1 v by (simp add: points_at_def)
  next
    fix y and a b :: "nat \<times> 'a vland" assume I: "?I a" and f: "refresh_after_delete E db y a = Some b"
    have "shape E (snd a) (snd b)" by (rule refresh_after_delete_shape [OF env _ f]) (use I in simp)
    with I show "?I b" using shape_cache_ok shape_points_at by blast
  next
    fix a :: "nat \<times> 'a vland" assume I: "?I a"
    obtain rc t where a: "a = (rc, t)" by fastforce
    from I a obtain w where w: "vlan_at t kv = Some w" "vd_vid w = int vid" "vd_idl_cfg w = r" and okt: "cache_ok E t"
      by (auto simp: points_at_def)
    then have "vlan_lookup_by_vid t (int vid) = Some (kv, w)" by (simp add: lookup_by_vid_Some [OF okt])
    with w(3) gone show "refresh_after_delete E db vid a = None"
      by (simp add: a refresh_after_delete_def update_vlan_membership_eq configure_vlan_def handle_vlan_config_def)
  qed
  with p(1) show ?thesis by (simp add: del_old_port_def)
qed

lemma delete_stale_ports_dangling:
  assumes env: "env_ok E" and ok: "cache_ok E s" and k: "carries E k vid s"
    and stale: "shash_find_data idl k = None"
    and v: "points_at kv vid r s" and gone: "deref_vlan db r = None"
  shows "delete_stale_ports E db idl s = None"
proof -
  let ?f = "\<lambda>name (rc, s). case shash_find_data idl name of
      Some row \<Rightarrow> Some (rc, s)
    | None \<Rightarrow> (case del_old_port E db name s of
         None \<Rightarrow> None | Some (n, s) \<Rightarrow> Some (if n \<noteq> 0 then Suc rc else rc, s))"
  let ?I = "\<lambda>st. cache_ok E (snd st) \<and> carries E k vid (snd st) \<and> points_at kv vid r (snd st)"
  from k have in_nodes: "k \<in> set (shash_nodes (all_ports s))"
    using sd.set_nodes [OF cache_okD(1) [OF ok]] by (auto simp: carries_def)
  have "foldM ?f (shash_nodes (all_ports s)) (0, s) = None"
  proof (rule foldM_fails [OF in_nodes, where I = ?I])
    show "?I (0, s)" using ok k v by simp
  next
    fix y and a b :: "nat \<times> 'a vland" assume I: "?I a" and f: "?f y a = Some b"
    obtain rc t where a: "a = (rc, t)" by fastforce
    show "?I b"
    proof (cases "shash_find_data idl y")
      case (Some row)
      with f I a show ?thesis by auto
    next
      case None
      with f a obtain n u where d: "del_old_port E db y t = Some (n, u)" and b: "snd b = u"
        by (auto split: option.splits)
      from I a have t: "cache_ok E t" "carries E k vid t" "points_at kv vid r t" by simp_all
      have "del_old_port E db k t = None" by (rule del_old_port_dangling [OF env t gone])
      then have "k \<noteq> y" using d by (metis option.distinct(1))
      from del_old_port_shape(2) [OF env t(1) d this t(2)] del_old_port_shape(1,3) [OF env t(1) d] t(3)
      show ?thesis unfolding b by blast
    qed
  next
    fix a :: "nat \<times> 'a vland" assume I: "?I a"
    obtain rc t where a: "a = (rc, t)" by fastforce
    with I have "del_old_port E db k t = None"
      using del_old_port_dangling [OF env _ _ _ gone, of t k vid kv] by simp
    with stale show "?f k a = None" by (simp add: a)
  qed
  then show ?thesis by (simp add: delete_stale_ports_def)
qed

lemma vland_reconfigure_dangling:
  assumes env: "env_ok E" and ok: "cache_ok E s" and new: "seqno db \<noteq> idl_seqno s"
    and p: "port_at s k = Some p" "nat (vd_vid v) \<in> port_bits E p" "\<not> port_row_named db k"
    and v: "vlan_at s kv = Some v" "deref_vlan db (vd_idl_cfg v) = None"
  shows "vland_reconfigure E db s = None"
proof -
  have "0 \<le> vd_vid v" using cache_okD(6) [OF ok v(1)] by (simp add: VALID_VID_def)
  then have "points_at kv (nat (vd_vid v)) (vd_idl_cfg v) s" using v(1) by (simp add: points_at_def)
  moreover have "carries E k (nat (vd_vid v)) s" using p by (simp add: carries_def)
  moreover have "shash_find_data (collect_ports (hash_rank E) (ports db)) k = None"
    using p(3) find_named [of k db] by (simp add: find_collect_ports)
  ultimately have "delete_stale_ports E db (collect_ports (hash_rank E) (ports db)) s = None"
    using delete_stale_ports_dangling [OF env ok _ _ _ v(2)] by blast
  with new show ?thesis by (simp add: vland_reconfigure_def update_port_cache_def)
qed

end
