(* ===== verification/Returns.thy ===== *)
theory Returns
  imports Dangling Vland_System
begin

text \<open>
  When a run returns. The pointer \<open>Dangling\<close> follows is the only one a reconfiguration can
  lose: with caches that are well formed and agree with the VLAN rows on name, id and address,
  and with every VLAN a stale port carries still having its row, all loops run to their end.
  Nothing is assumed here of which rows the replica reports as changed.
\<close>

section \<open>The port half\<close>

definition steady :: "'b vland_env \<Rightarrow> ovsdb \<Rightarrow> 'b vland \<Rightarrow> bool" where
  "steady E db s \<longleftrightarrow> cache_ok E s \<and> linked db s \<and> trunks_covered E s"

lemma steadyD: "steady E db s \<Longrightarrow> cache_ok E s" "steady E db s \<Longrightarrow> linked db s"
  "steady E db s \<Longrightarrow> trunks_covered E s"
  by (simp_all add: steady_def)

lemma shape_steady: "shape E s t \<Longrightarrow> steady E db s \<Longrightarrow> steady E db t"
  using shape_cache_ok shape_linked shape_trunks_covered unfolding steady_def by blast

lemma del_old_port_returns:
  assumes env: "env_ok E" and wf: "wf_db db" and st: "steady E db s"
    and p: "port_at s k = Some p" and del: "\<not> port_row_named db k" and nd: "no_dangling E db s"
  shows "\<exists>rc s'. del_old_port E db k s = Some (rc, s') \<and> steady E db s' \<and>
    no_dangling E db s' \<and> (\<forall>k'. port_at s' k' = None \<longleftrightarrow> k' = k \<or> port_at s k' = None)"
proof -
  let ?s1 = "s\<lparr>all_ports := shash_delete k (all_ports s)\<rparr>"
  note ok = steadyD [OF st]
  have at1: "port_at ?s1 k' = (if k' = k then None else port_at s k')" for k'
    by (simp add: sd.lookup_delete)
  have "cache_ok E ?s1"
    using cache_okD(1,3,4) [OF ok(1)]
    by (intro cache_ok_ports [OF ok(1)]) (auto simp: sd.lookup_delete sd.ok_delete split: if_splits)
  moreover have cov1: "trunks_covered E ?s1"
    using ok(3) by (auto simp: trunks_covered_def sd.lookup_delete split: if_splits)
  ultimately have st1: "steady E db ?s1" using ok(2) by (simp add: steady_def)
  have nd1: "no_dangling E db ?s1"
    using nd unfolding no_dangling_def at1 by simp
  have inv: "refresh_inv E db ?s1 (0, ?s1)" using env wf st1 by (simp add: refresh_inv_def steady_def)
  have ready: "\<forall>vid \<in> set (bitmap_ones (bmp E) (bitmap_size E) (pd_vlans_bitmap p)).
      vid_live db (0, ?s1) vid"
    using nd p del env by (auto simp: vid_live_def no_dangling_def bitmap_simps bitmap_size_def)
  from del.refresh_all [OF inv ready] obtain rc s' where
    run: "foldM (refresh_after_delete E db)
        (bitmap_ones (bmp E) (bitmap_size E) (pd_vlans_bitmap p)) (0, ?s1) = Some (rc, s')"
    and inv': "refresh_inv E db ?s1 (rc, s')" by auto
  have sh: "shape E ?s1 s'" using inv' by (simp add: refresh_inv_def)
  have "port_at s' k' = None \<longleftrightarrow> k' = k \<or> port_at s k' = None" for k'
    unfolding shape_port_None [OF sh] at1 by simp
  moreover have "del_old_port E db k s = Some (rc, s')" using run p by (simp add: del_old_port_def)
  ultimately show ?thesis
    using shape_steady [OF sh st1] shape_no_dangling [OF sh cov1 nd1] by blast
qed

lemma delete_stale_ports_returns:
  assumes env: "env_ok E" and wf: "wf_db db" and nd: "no_dangling E db s" and st: "steady E db s"
  shows "\<exists>rc s'. delete_stale_ports E db (collect_ports rank (ports db)) s = Some (rc, s') \<and>
    steady E db s' \<and> (\<forall>k. port_at s' k \<noteq> None \<longrightarrow> port_row_named db k)"
proof -
  let ?idl = "collect_ports rank (ports db)" and ?ks = "shash_nodes (all_ports s)"
  let ?f = "\<lambda>name (rc, s). case shash_find_data ?idl name of
      Some row \<Rightarrow> Some (rc, s)
    | None \<Rightarrow> (case del_old_port E db name s of
         None \<Rightarrow> None | Some (n, s) \<Rightarrow> Some (if n \<noteq> 0 then Suc rc else rc, s))"
  define I where "I pre u \<longleftrightarrow> steady E db (snd u) \<and> no_dangling E db (snd u) \<and>
      (\<forall>k. port_at (snd u) k = None \<longleftrightarrow> port_at s k = None \<or> k \<in> set pre \<and> \<not> port_row_named db k)"
    for pre :: "string list" and u :: "nat \<times> 'a vland"
  note ok = cache_okD(1) [OF steadyD(1) [OF st]]
  have find: "shash_find_data ?idl k = None \<longleftrightarrow> \<not> port_row_named db k" for k
    by (simp add: find_collect_ports find_named)
  have "\<exists>u. foldM ?f ?ks (0, s) = Some u \<and> I ?ks u"
  proof (rule foldM_prefix)
    show "I [] (0, s)" using st nd by (simp add: I_def)
  next
    fix pre k post u assume split: "?ks = pre @ k # post" and I: "I pre u"
    obtain rc t where u: "u = (rc, t)" by fastforce
    have k: "k \<notin> set pre" "port_at s k \<noteq> None"
      using split sd.set_nodes [OF ok] sd.distinct_nodes [OF ok] by auto
    show "\<exists>u'. ?f k u = Some u' \<and> I (pre @ [k]) u'"
    proof (cases "port_row_named db k")
      case True
      then have "I (pre @ [k]) u" using I by (auto simp: I_def)
      moreover have "?f k u = Some u" using True find [of k] by (auto simp: u)
      ultimately show ?thesis by blast
    next
      case False
      have "port_at t k \<noteq> None" using I k u by (simp add: I_def)
      then obtain p where p: "port_at t k = Some p" by blast
      from I u have "steady E db t" "no_dangling E db t" by (simp_all add: I_def)
      from del_old_port_returns [OF env wf this(1) p False this(2)] obtain m t' where
        d: "del_old_port E db k t = Some (m, t')" "steady E db t'" "no_dangling E db t'"
        "\<forall>k'. port_at t' k' = None \<longleftrightarrow> k' = k \<or> port_at t k' = None" by blast
      then have "I (pre @ [k]) (if m \<noteq> 0 then Suc rc else rc, t')"
        using I u False by (auto simp: I_def)
      moreover have "?f k u = Some (if m \<noteq> 0 then Suc rc else rc, t')"
        using False d(1) find [of k] by (simp add: u)
      ultimately show ?thesis by blast
    qed
  qed
  then obtain rc s' where run: "foldM ?f ?ks (0, s) = Some (rc, s')" and I: "I ?ks (rc, s')" by auto
  have "set ?ks = {k. port_at s k \<noteq> None}" using sd.set_nodes [OF ok] by auto
  then have "\<forall>k. port_at s' k \<noteq> None \<longrightarrow> port_row_named db k" 
    using I by (simp add: I_def) (metis option.distinct(1))
  moreover have "steady E db s'" using I by (simp add: I_def)
  ultimately show ?thesis using run unfolding delete_stale_ports_def by blast
qed

lemma add_new_port_steady:
  assumes env: "env_ok E" and st: "steady E db s" and new: "port_at s (p_name row) = None"
    and name: "p_name row \<noteq> DEFAULT_BRIDGE_NAME"
  shows "steady E db (add_new_port E row s)"
proof -
  define ps where
    "ps = snd (shash_add_once (hash_rank E) (p_name row) (new_port_data E row) (all_ports s))"
  have eq: "add_new_port E row s = s\<lparr>all_ports := ps\<rparr>" by (simp add: ps_def add_new_port_def)
  have find: "shash_find_data ps k = (if k = p_name row then Some (new_port_data E row) else port_at s k)" for k
    using port_at_add [where E = E and row = row and k = k, OF new] by (simp add: eq)
  have "shash_ok ps" using cache_okD(1) [OF steadyD(1) [OF st]] by (simp add: ps_def sd.ok_add)
  then have "cache_ok E (s\<lparr>all_ports := ps\<rparr>)"
    by (rule cache_ok_ports [OF steadyD(1) [OF st]])
      (use cache_okD(3,4) [OF steadyD(1) [OF st]] name in
        \<open>auto simp: find new_port_data_def split: if_splits\<close>)
  then show ?thesis
    using steadyD(2,3) [OF st] unfolding steady_def eq
    by (auto simp: trunks_covered_def find new_port_data_def split: if_splits)
qed

lemma add_missing_ports_steady:
  assumes env: "env_ok E" and st: "steady E db s" and named: "\<forall>k. port_at s k \<noteq> None \<longrightarrow> port_row_named db k"
  shows "steady E db (add_missing_ports E (collect_ports rank (ports db)) s) \<and>
    (\<forall>k. port_at (add_missing_ports E (collect_ports rank (ports db)) s) k \<noteq> None \<longrightarrow> port_row_named db k)"
proof -
  let ?idl = "collect_ports rank (ports db)"
  define I where "I t \<longleftrightarrow> steady E db t \<and> (\<forall>k. port_at t k \<noteq> None \<longrightarrow> port_row_named db k)"
    for t :: "'a vland"
  have "I (add_missing_ports E ?idl s)"
    unfolding add_missing_ports_def
  proof (rule foldl_prefix [where I = "\<lambda>_. I"])
    show "I s" using st named by (simp add: I_def)
  next
    fix pre x post t assume split: "?idl = pre @ x # post" and I: "I t"
    obtain name row where x: "x = (name, row)" by fastforce
    have row: "row \<in> set (ports db)" "p_name row = name"
      using collect_ports_nodes [of name row rank "ports db"] split x by auto
    have "I (add_new_port E row t)" if "port_at t name = None" "name \<noteq> DEFAULT_BRIDGE_NAME"
      using I row that add_new_port_steady [OF env, of db t row] port_at_add [of t row E]
      by (auto simp: I_def port_row_named_def split: if_splits)
    with I show "I (case x of (name, row) \<Rightarrow>
        if port_at t name = None \<and> name \<noteq> DEFAULT_BRIDGE_NAME then add_new_port E row t else t)"
      by (simp add: x)
  qed
  then show ?thesis by (simp add: I_def)
qed

lemma update_port_returns:
  assumes env: "env_ok E" and wf: "wf_db db" and st: "steady E db s"
    and p: "port_at s k = Some p" and row: "shash_find_data idl k = Some row"
  shows "\<exists>rc' s'. update_port E db idl k (rc, s) = Some (rc', s') \<and> steady E db s' \<and>
    (\<forall>k'. port_at s' k' = None \<longleftrightarrow> port_at s k' = None)"
proof (cases "row_changed db (idl_seqno s) (p_row row)")
  case False
  with st p row show ?thesis by (simp add: update_port_def)
next
  case True
  define p' where "p' = construct_vlan_bitmap E db (all_vlans_bitmap s) row p"
  define ps where "ps = shash_put k p' (all_ports s)"
  let ?s1 = "s\<lparr>all_ports := ps\<rparr>"
  note ok = steadyD [OF st]
  have find: "shash_find_data ps k' = (if k' = k then Some p' else port_at s k')" for k'
    using p by (simp add: ps_def find_put)
  have okps: "shash_ok ps" using cache_okD(1) [OF ok(1)] by (simp add: ps_def)
  have name: "pd_name p' = k" "k \<noteq> DEFAULT_BRIDGE_NAME"
    using cache_okD(3,4) [OF ok(1) p] by (simp_all add: p'_def construct_vlan_bitmap_fields)
  have "known_vids s \<subseteq> port_bits E p'" if "pd_trunk_all_vlans p'"
    using that cache_okD(8) [OF ok(1)]
    by (auto simp: p'_def construct_vlan_bitmap_fields construct_vlan_bitmap_bits [OF env])
  then have "trunks_covered E ?s1" using ok(3) by (auto simp: trunks_covered_def find split: if_splits)
  moreover have "cache_ok E ?s1"
    by (rule cache_ok_ports [OF ok(1) okps])
      (use cache_okD(3,4) [OF ok(1)] name in \<open>auto simp: find split: if_splits\<close>)
  ultimately have st1: "steady E db ?s1" using ok(2) by (simp add: steady_def)
  have inv: "refresh_inv E db ?s1 (rc, ?s1)" using env wf st1 by (simp add: refresh_inv_def steady_def)
  let ?ones = "bitmap_ones (bmp E) (bitmap_size E)
      (bitmap_or (bmp E) (pd_vlans_bitmap p) (pd_vlans_bitmap p') (bitmap_size E))"
  from upd.refresh_all [OF inv, of ?ones] obtain rc' s' where
    run: "foldM (refresh_after_update E db) ?ones (rc, ?s1) = Some (rc', s')"
    and inv': "refresh_inv E db ?s1 (rc', s')" by auto
  have sh: "shape E ?s1 s'" using inv' by (simp add: refresh_inv_def)
  have "update_port E db idl k (rc, s) = Some (rc', s')"
    using run p row True by (simp add: update_port_def p'_def ps_def put_port_def Let_def)
  moreover have "port_at s' k' = None \<longleftrightarrow> port_at s k' = None" for k'
    unfolding shape_port_None [OF sh] using p by (simp add: find)
  ultimately show ?thesis using shape_steady [OF sh st1] by blast
qed

lemma update_changed_ports_returns:
  assumes env: "env_ok E" and wf: "wf_db db" and st: "steady E db s"
    and named: "\<forall>k. port_at s k \<noteq> None \<longrightarrow> port_row_named db k"
  shows "\<exists>rc' s'. update_changed_ports E db (collect_ports rank (ports db)) (rc, s) = Some (rc', s') \<and>
    steady E db s'"
proof -
  let ?idl = "collect_ports rank (ports db)" and ?ks = "shash_nodes (all_ports s)"
  define I where "I u \<longleftrightarrow> steady E db (snd u) \<and> (\<forall>k. port_at (snd u) k = None \<longleftrightarrow> port_at s k = None)"
    for u :: "nat \<times> 'a vland"
  have "\<exists>u. foldM (update_port E db ?idl) ?ks (rc, s) = Some u \<and> I u"
  proof (rule foldM_prefix [where I = "\<lambda>_. I"])
    show "I (rc, s)" using st by (simp add: I_def)
  next
    fix pre k post u assume split: "?ks = pre @ k # post" and I: "I u"
    obtain m t where u: "u = (m, t)" by fastforce
    have sk: "port_at s k \<noteq> None"
      using split sd.set_nodes [OF cache_okD(1) [OF steadyD(1) [OF st]]] by auto
    with I u have "port_at t k \<noteq> None" by (simp add: I_def)
    then obtain p where p: "port_at t k = Some p" by blast
    from sk named have "port_row_named db k" by blast
    then obtain row where row: "shash_find_data ?idl k = Some row"
      using find_named [of k db] by (auto simp: find_collect_ports)
    from I u have "steady E db t" by (simp add: I_def)
    from update_port_returns [OF env wf this p row, of m] I u
    show "\<exists>u'. update_port E db ?idl k u = Some u' \<and> I u'" by (auto simp: I_def)
  qed
  then show ?thesis by (auto simp: update_changed_ports_def I_def)
qed

lemma update_port_cache_returns:
  assumes env: "env_ok E" and wf: "wf_db db" and nd: "no_dangling E db s" and st: "steady E db s"
  shows "\<exists>rc s'. update_port_cache E db s = Some (rc, s') \<and> steady E db s'"
proof -
  let ?idl = "collect_ports (hash_rank E) (ports db)"
  from delete_stale_ports_returns [OF env wf nd st, of "hash_rank E"] obtain rc s1 where
    d: "delete_stale_ports E db ?idl s = Some (rc, s1)" "steady E db s1"
      "\<forall>k. port_at s1 k \<noteq> None \<longrightarrow> port_row_named db k" by blast
  have a: "steady E db (add_missing_ports E ?idl s1)"
    "\<forall>k. port_at (add_missing_ports E ?idl s1) k \<noteq> None \<longrightarrow> port_row_named db k"
    using add_missing_ports_steady [OF env d(2,3), of "hash_rank E"] by blast+
  from update_changed_ports_returns [OF env wf a, of "hash_rank E" rc] d(1) show ?thesis
    by (auto simp: update_port_cache_def)
qed

section \<open>The VLAN half\<close>

text \<open>
  Here the pointers come from the rows just collected; only the names matter: after the stale
  VLANs are gone, every cached VLAN has a row.
\<close>

definition vlans_named :: "ovsdb \<Rightarrow> 'b vland \<Rightarrow> bool" where
  "vlans_named db s \<longleftrightarrow> shash_ok (all_vlans s) \<and> (\<forall>k. vlan_at s k \<noteq> None \<longrightarrow> vlan_row_named db k)"

lemma del_old_vlan_lookup:
  "vlan_at (del_old_vlan E name s) k = (if k = name then None else vlan_at s k)"
  "shash_ok (all_vlans s) \<Longrightarrow> shash_ok (all_vlans (del_old_vlan E name s))"
  by (auto simp: del_old_vlan_def sd.lookup_delete sd.ok_delete split: option.split)

lemma delete_stale_vlans_named:
  fixes E :: "'b vland_env" and s :: "'b vland"
  assumes "shash_ok (all_vlans s)"
  shows "vlans_named db (delete_stale_vlans E (collect_vlans rank (vlans db)) s)"
proof -
  let ?idl = "collect_vlans rank (vlans db)" and ?ks = "shash_nodes (all_vlans s)"
  define I where "I pre t \<longleftrightarrow> shash_ok (all_vlans t) \<and>
      (\<forall>k. vlan_at t k \<noteq> None \<longrightarrow> vlan_at s k \<noteq> None \<and> (k \<in> set pre \<longrightarrow> vlan_row_named db k))"
    for pre :: "string list" and t :: "'b vland"
  have find: "shash_find_data ?idl k = None \<longleftrightarrow> \<not> vlan_row_named db k" for k
    by (simp add: find_collect_vlans find_vlan_named)
  have "I ?ks (delete_stale_vlans E ?idl s)"
    unfolding delete_stale_vlans_def
  proof (rule foldl_prefix)
    show "I [] s" using assms by (simp add: I_def)
  next
    fix pre k post t assume "I pre t"
    then show "I (pre @ [k]) (case shash_find_data ?idl k of Some row \<Rightarrow> t | None \<Rightarrow> del_old_vlan E k t)"
      using find [of k] del_old_vlan_lookup [where E = E and name = k and s = t] by (auto simp: I_def split: option.split)
  qed
  then show ?thesis using sd.set_nodes [OF assms] by (auto simp: I_def vlans_named_def)
qed

lemma add_missing_vlans_named:
  fixes E :: "'b vland_env" and s :: "'b vland"
  assumes wf: "wf_db db" and s: "vlans_named db s"
  shows "vlans_named db (add_missing_vlans E db (collect_vlans rank (vlans db)) s)"
  unfolding add_missing_vlans_def
proof (rule foldl_prefix [where I = "\<lambda>_. vlans_named db", OF s])
  fix pre x post and t :: "'b vland"
  assume split: "collect_vlans rank (vlans db) = pre @ x # post" and t: "vlans_named db t"
  obtain name row where x: "x = (name, row)" by fastforce
  have row: "row \<in> set (vlans db)" "v_name row = name"
    using collect_vlans_nodes [of name row rank "vlans db"] split x by auto
  have "vlans_named db (add_new_vlan E db row t)" if "vlan_at t (v_name row) = None"
  proof -
    have "VALID_VID (v_id row)" using wf row by (simp add: wf_db_def)
    from add_new_vlan_eq(2,3) [where E = E and db = db, OF that this] t row show ?thesis
      by (auto simp: vlans_named_def vlan_row_named_def)
  qed
  with t row show "vlans_named db (case x of (name, row) \<Rightarrow>
      case vlan_at t name of Some new_vlan \<Rightarrow> t | None \<Rightarrow> add_new_vlan E db row t)"
    by (auto simp: x split: option.split)
qed

lemma update_vlan_returns:
  assumes wf: "wf_db db" and v: "vlan_at s k \<noteq> None" and row: "shash_find_data idl k = Some row"
    and "row \<in> set (vlans db)"
  shows "\<exists>rc' s'. update_vlan E db idl k (rc, s) = Some (rc', s') \<and>
    (\<forall>k'. vlan_at s' k' = None \<longleftrightarrow> vlan_at s k' = None)"
proof -
  from v obtain u where u: "vlan_at s k = Some u" by blast
  have d: "deref_vlan db (v_row row) = Some row" using assms(4) wf by (simp add: deref_vlan_Some)
  then obtain n v' ws where
    "handle_vlan_config (ops E) db (v_row row) (u\<lparr>vd_admin := row_admin row\<rparr>) = Some (n, v', ws)"
    using handle_vlan_config_None [of "ops E" db "v_row row" "u\<lparr>vd_admin := row_admin row\<rparr>"]
    by (metis not_Some_eq prod_cases3)
  with u row show ?thesis
    by (auto simp: update_vlan_def configure_vlan_def frame_simps find_put)
qed

lemma update_vlan_cache_returns:
  fixes E :: "'b vland_env" and s :: "'b vland"
  assumes wf: "wf_db db" and ok: "shash_ok (all_vlans s)"
  shows "\<exists>rc s'. update_vlan_cache E db s = Some (rc, s')"
proof -
  let ?idl = "collect_vlans (hash_rank E) (vlans db)"
  define t where "t = add_missing_vlans E db ?idl (delete_stale_vlans E ?idl s)"
  have t: "vlans_named db t"
    unfolding t_def by (intro add_missing_vlans_named [OF wf] delete_stale_vlans_named ok)
  define I where "I u \<longleftrightarrow> (\<forall>k. vlan_at (snd u) k = None \<longleftrightarrow> vlan_at t k = None)"
    for u :: "nat \<times> 'b vland"
  have "\<exists>u. foldM (update_vlan E db ?idl) (shash_nodes (all_vlans t)) (0, t) = Some u \<and> I u"
  proof (rule foldM_prefix [where I = "\<lambda>_. I"])
    show "I (0, t)" by (simp add: I_def)
  next
    fix pre k post u assume split: "shash_nodes (all_vlans t) = pre @ k # post" and I: "I u"
    obtain m w where u: "u = (m, w)" by fastforce
    have tk: "vlan_at t k \<noteq> None" using split t sd.set_nodes [of "all_vlans t"] by (auto simp: vlans_named_def)
    with t have "vlan_row_named db k" by (auto simp: vlans_named_def)
    then obtain row where row: "shash_find_data ?idl k = Some row"
      using find_vlan_named [of k db] by (auto simp: find_collect_vlans)
    then have rowk: "row \<in> set (vlans db)" by (auto simp: find_collect_vlans dest: find_SomeD)
    have "vlan_at w k \<noteq> None" using I u tk by (simp add: I_def)
    from update_vlan_returns [OF wf this row rowk, of E m] I u
    show "\<exists>u'. update_vlan E db ?idl k u = Some u' \<and> I u'" by (auto simp: I_def)
  qed
  then show ?thesis by (auto simp: update_vlan_cache_def update_changed_vlans_def t_def Let_def)
qed

section \<open>The run\<close>

lemma vland_reconfigure_returns:
  assumes env: "env_ok E" and wf: "wf_db db" and st: "steady E db s" and nd: "no_dangling E db s"
  shows "\<exists>rc s'. vland_reconfigure E db s = Some (rc, s')"
proof -
  from update_port_cache_returns [OF env wf nd st] obtain rc s1 where
    p: "update_port_cache E db s = Some (rc, s1)" "steady E db s1" by blast
  from update_vlan_cache_returns [OF wf cache_okD(2) [OF steadyD(1) [OF p(2)]], of E] p(1)
  show ?thesis by (auto simp: vland_reconfigure_def Let_def)
qed

lemma vland_reconfigure_returns_iff:
  assumes env: "env_ok E" and wf: "wf_db db" and st: "steady E db s" and new: "seqno db \<noteq> idl_seqno s"
  shows "vland_reconfigure E db s = None \<longleftrightarrow> \<not> no_dangling E db s"
proof
  show "\<not> no_dangling E db s" if "vland_reconfigure E db s = None"
    using that vland_reconfigure_returns [OF env wf st] by auto
  assume "\<not> no_dangling E db s"
  then obtain k p k' v where "port_at s k = Some p" "nat (vd_vid v) \<in> port_bits E p"
    "\<not> port_row_named db k" "vlan_at s k' = Some v" "deref_vlan db (vd_idl_cfg v) = None"
    unfolding no_dangling_def live_def deref_vlan_def find_None by blast
  then show "vland_reconfigure E db s = None"
    by (rule vland_reconfigure_dangling [OF env steadyD(1) [OF st] new])
qed

lemma steady_same_caches: "same_caches s t \<Longrightarrow> steady E db t = steady E db s"
  by (simp add: same_caches_def steady_def cache_ok_def linked_def trunks_covered_def known_vids_def)

lemma no_dangling_same_caches: "same_caches s t \<Longrightarrow> no_dangling E db t = no_dangling E db s"
  by (simp add: same_caches_def no_dangling_def)

text \<open>A run fails exactly when it reconfigures from a replica that leaves a pointer dangling.\<close>

lemma vland_run_returns_iff:
  assumes env: "env_ok E"
    and db: "\<And>db. processed inp s = Some db \<Longrightarrow> wf_db db \<and> steady E db s"
  shows "vland_run E inp s = None \<longleftrightarrow> (\<exists>db. processed inp s = Some db \<and> \<not> no_dangling E db s)"
proof -
  obtain t act where p: "vland_prepare inp s = (t, act)" by fastforce
  let ?t = "t\<lparr>txn_writes := []\<rparr>"
  have t: "same_caches s ?t" using vland_prepare_caches [OF p] by simp
  show ?thesis
  proof (cases act)
    case None
    with p show ?thesis by (simp add: vland_run_def processed_def)
  next
    case (Some a)
    then obtain db' txs where a: "act = Some (db', txs)" by (cases a) auto
    show ?thesis
    proof (cases "seqno db' = idl_seqno t")
      case True
      with p a show ?thesis by (simp add: vland_run_def processed_def vland_reconfigure_def)
    next
      case False
      then have proc: "processed inp s = Some db'" using p a by (simp add: processed_def)
      with db have "wf_db db'" "steady E db' ?t" using steady_same_caches [OF t] by simp_all
      from vland_reconfigure_returns_iff [OF env this] False have
        "vland_reconfigure E db' ?t = None \<longleftrightarrow> \<not> no_dangling E db' s"
        using no_dangling_same_caches [OF t, of E db'] by simp
      with p a proc show ?thesis by (auto simp: vland_run_def split: option.split)
    qed
  qed
qed

end
