(* ===== verification/Daemon_Properties.thy ===== *)
theory Daemon_Properties
  imports Daemon_Example Quiescence Returns
begin

text \<open>
  The properties of the daemon: end to end (what the server shows in every reachable state),
  of each half of a reconfiguration, of the routines below them, and of the main loop. Each is
  followed by a theorem that applies it to the concrete switch of \<open>Daemon_Example\<close>.
\<close>

section \<open>Facts about the example\<close>

lemma ex_bmp [simp]: "bmp ex_env = set_bitmap" "ops ex_env = ex_ops" "bmp (ex_env\<lparr>hash_rank := h\<rparr>) = set_bitmap"
  "ops (ex_env\<lparr>hash_rank := h\<rparr>) = ex_ops"
  by (simp_all add: ex_env_def)

lemma ex_rows: "ex_vlan 10 ''VLAN10'' \<in> set (vlans ex_db1)" "\<not> l3_internal (ex_vlan 10 ''VLAN10'')"
  "v_row (ex_vlan 10 ''VLAN10'') = 10" "ex_access 101 ''1'' 10 \<in> set (ports ex_db1)"
  by (simp_all add: ex_db1_def ex_db_def ex_vlan_def l3_internal_def Let_def)

lemma ex_spec: "spec_columns ex_ops ex_db1 (ex_vlan 10 ''VLAN10'') = ([(''enable'', ''true'')], ''up'', ''ok'')"
  by code_simp

section \<open>End to end\<close>

text \<open>
  C1: In every state the system reaches, the database server's \<open>hw_vlan_config\<close>, \<open>oper_state\<close>
  and \<open>oper_state_reason\<close> columns of every VLAN row that is not used for an L3 port are what
  the specification reads off the replica the daemon processed last, in terms of its columns alone.
\<close>
theorem vland_publishes_spec:
  assumes "env_ok E" and "vland_reach E y" and "row \<in> set (vlans (seen y))" and "\<not> l3_internal row"
  shows "server y (v_row row) = spec_columns (ops E) (seen y) row"
  using assms by (rule reach_columns)

lemma vland_publishes_spec_witness:
  "server ex_y1 10 = ([(''enable'', ''true'')], ''up'', ''ok'')"
  using vland_publishes_spec [OF ex_env_ok ex_after1(2), of "ex_vlan 10 ''VLAN10''"]
  by (simp add: ex_after1(3) ex_rows ex_spec)

text \<open>
  C2: When a run returns. Take a reachable state and any input whose replica, if the run reconfigures
  from one, is well formed and keeps name, id and address of a VLAN row together; what it reports
  as changed and what becomes of commits is left open. \<^verbatim>\<open>vland_run\<close> then fails to return exactly when that
  replica has lost a port together with a VLAN the port carries, both still cached: every other read
  through a kept row pointer finds its row.
\<close>
theorem vland_run_returns:
  assumes "env_ok E" and "vland_reach E y"
    and "\<And>db. processed inp (daemon y) = Some db \<Longrightarrow> wf_db db \<and> linked db (daemon y)"
  shows "vland_run E inp (daemon y) = None \<longleftrightarrow>
    (\<exists>db k p k' v. processed inp (daemon y) = Some db \<and>
       port_at (daemon y) k = Some p \<and> (\<forall>row \<in> set (ports db). p_name row \<noteq> k) \<and>
       vlan_at (daemon y) k' = Some v \<and> nat (vd_vid v) \<in> port_bits E p \<and>
       (\<forall>row \<in> set (vlans db). v_row row \<noteq> vd_idl_cfg v))"
proof -
  have "in_sync E (seen y) (daemon y)" using vland_reach_inv [OF assms(2,1)] by (simp add: sys_inv_def)
  then have "wf_db db \<and> steady E db (daemon y)" if "processed inp (daemon y) = Some db" for db
    using assms(3) [OF that] in_syncD(1,3) by (auto simp: steady_def)
  from vland_run_returns_iff [OF assms(1) this] show ?thesis
    by (simp add: no_dangling_def live_def port_row_named_def)
qed

lemma ex_linked2: "wf_db ex_db2" "linked ex_db2 (daemon ex_y1)"
proof -
  have "in_sync ex_env ex_db1 (daemon ex_y1)"
    using vland_reach_inv [OF ex_after1(2) ex_env_ok] by (simp add: sys_inv_def ex_after1(3))
  moreover have "set (vlans ex_db2) \<subseteq> set (vlans ex_db1)"
    by (simp add: ex_db1_def ex_db2_def ex_db_def Let_def)
  ultimately show "linked ex_db2 (daemon ex_y1)" using in_syncD(2) unfolding linked_def by blast
qed (simp add: wf_db_def ex_defs VALID_VID_def Let_def)

lemma ex_processed2: "processed (ex_input ex_db2 TXN_SUCCESS) (daemon ex_y1) = Some ex_db2"
  by (simp add: processed_def vland_prepare_def vland_chk_for_system_configured_def ex_s1
      ovsrec_system_first_def ex_input_def ex_db2_def ex_db_def Let_def split: option.split)

lemma vland_run_returns_witness:
  "vland_run ex_env (ex_input ex_db1 TXN_SUCCESS) (daemon ex_boot) \<noteq> None \<and>
   vland_run ex_env (ex_input ex_db2 TXN_SUCCESS) (daemon ex_y1) = None"
proof
  have "vland_run ex_env (ex_input ex_db1 TXN_SUCCESS) (daemon ex_boot) = None \<longleftrightarrow>
      (\<exists>db k p k' v. processed (ex_input ex_db1 TXN_SUCCESS) (daemon ex_boot) = Some db \<and>
        port_at (daemon ex_boot) k = Some p \<and> (\<forall>row \<in> set (ports db). p_name row \<noteq> k) \<and>
        vlan_at (daemon ex_boot) k' = Some v \<and> nat (vd_vid v) \<in> port_bits ex_env p \<and>
        (\<forall>row \<in> set (vlans db). v_row row \<noteq> vd_idl_cfg v))"
    by (rule vland_run_returns [OF ex_env_ok ex_reach_boot])
      (simp add: ex_processed wf_ex_db1, simp add: linked_def ex_boot_def vland_ovsdb_init_def shash_find_data_def)
  then show "vland_run ex_env (ex_input ex_db1 TXN_SUCCESS) (daemon ex_boot) \<noteq> None"
    by (simp add: ex_boot_def vland_ovsdb_init_def shash_find_data_def)
  obtain p where p: "port_at (daemon ex_y1) ''1'' = Some p" "10 \<in> port_bits ex_env p"
    using ex_s1(4) by (simp add: bits_def set_bitmap_def)
  obtain v where v: "vlan_at (daemon ex_y1) ''VLAN10'' = Some v" "nat (vd_vid v) = 10" "vd_idl_cfg v = 10"
    using ex_s1(3) by simp
  have "\<forall>row \<in> set (ports ex_db2). p_name row \<noteq> ''1''" "\<forall>row \<in> set (vlans ex_db2). v_row row \<noteq> 10"
    by (simp_all add: ex_db2_def ex_db_def ex_vlan_def Let_def)
  then have "\<exists>db k p k' v. processed (ex_input ex_db2 TXN_SUCCESS) (daemon ex_y1) = Some db \<and>
      port_at (daemon ex_y1) k = Some p \<and> (\<forall>row \<in> set (ports db). p_name row \<noteq> k) \<and>
      vlan_at (daemon ex_y1) k' = Some v \<and> nat (vd_vid v) \<in> port_bits ex_env p \<and>
      (\<forall>row \<in> set (vlans db). v_row row \<noteq> vd_idl_cfg v)"
    using p v ex_processed2 by metis
  then show "vland_run ex_env (ex_input ex_db2 TXN_SUCCESS) (daemon ex_y1) = None"
    using vland_run_returns [OF ex_env_ok ex_after1(2), of "ex_input ex_db2 TXN_SUCCESS"]
    by (simp add: ex_processed2 ex_linked2)
qed

text \<open>
  The main loop makes every pass of a well-behaved environment, and afterwards the server holds, for the replica processed last, exactly the specified columns.
\<close>
theorem main_loop_converges:
  fixes E :: "'b vland_env"
  assumes "env_ok E" and "vland_reach E y" and "env_steps E y inps"
  shows "\<exists>(z :: 'b sys) txs. vland_main_loop E (map (\<lambda>inp. (inp, False)) inps) (daemon y) = Some (daemon z, txs) \<and>
    server z = server_after txs (server y) \<and>
    (\<forall>row \<in> set (vlans (seen z)). \<not> l3_internal row \<longrightarrow>
       server_after txs (server y) (v_row row) = spec_columns (ops E) (seen z) row)"
proof -
  obtain z txs where z: "vland_main_loop E (map (\<lambda>inp. (inp, False)) inps) (daemon y) = Some (daemon z, txs)"
    "vland_reach E z" "server z = server_after txs (server y)"
    using main_loop_reach [OF assms] by blast
  have "\<forall>row \<in> set (vlans (seen z)). \<not> l3_internal row \<longrightarrow>
       server_after txs (server y) (v_row row) = spec_columns (ops E) (seen z) row"
    using reach_columns [OF assms(1) z(2)] by (simp add: z(3))
  with z(1,3) show ?thesis by blast
qed

lemma main_loop_converges_witness:
  "\<exists>s txs. vland_main_loop ex_env [(ex_input ex_db1 TXN_SUCCESS, False)] (vland_ovsdb_init ex_env 0) = Some (s, txs)"
proof -
  have "env_steps ex_env ex_boot [ex_input ex_db1 TXN_SUCCESS]" by (simp add: ex_step1 split: option.split)
  from main_loop_converges [OF ex_env_ok ex_reach_boot this] show ?thesis
    by (auto simp: ex_boot_def simp del: vland_main_loop.simps)
qed

text \<open>
  C4: The published columns depend on the replica alone. Two daemons that processed the same
  replica last show the same columns, whatever each saw before, however their hash tables
  order their nodes and however their bitmaps are represented.
\<close>
theorem published_state_is_history_free:
  assumes "env_ok E" and "env_ok F" and "ops E = ops F"
    and "vland_reach E y" and "vland_reach F z" and "seen y = seen z"
    and "row \<in> set (vlans (seen y))" and "\<not> l3_internal row"
  shows "server y (v_row row) = server z (v_row row)"
  using reach_shows [OF assms(1,4,7,8)] reach_shows [of F z row] assms by simp

lemma published_state_is_history_free_witness:
  "\<exists>z. vland_reach (ex_env\<lparr>hash_rank := \<lambda>_ k. length k\<rparr>) z \<and> seen z = ex_db1 \<and> server ex_y1 10 = server z 10"
proof -
  let ?F = "ex_env\<lparr>hash_rank := \<lambda>_ k. length k\<rparr>"
  let ?b = "\<lparr> daemon = vland_ovsdb_init ?F 0, seen = empty_db, server = (\<lambda>_. ([], '''', '''')) \<rparr>"
  have F: "env_ok ?F" by (simp add: set_bitmap_laws)
  have b: "vland_ovsdb_init ?F 0 = daemon ex_boot" by (simp add: ex_boot_def vland_ovsdb_init_def bitmap_size_def)
  have "tracks ?F empty_db (vland_ovsdb_init ?F 0) ex_db1"
    by (rule tracks_boot [OF wf_ex_db1])
      (simp_all add: ex_db1_def ex_db_def ex_access_def ex_vlan_def row_changed_def Let_def)
  then have "tracks ?F empty_db (daemon ex_boot) ex_db1" using b by simp
  then have "env_step ?F ?b (ex_input ex_db1 TXN_SUCCESS)"
    using ex_step1 unfolding env_step_def by (simp add: b ex_processed)
  from sys_after_reach [OF F vland_reach.boot this] obtain z where z: "vland_reach ?F z"
    "seen z = seen_after (ex_input ex_db1 TXN_SUCCESS) (daemon ?b) (seen ?b)" by blast
  then have z: "vland_reach ?F z" "seen z = ex_db1" by (simp_all add: seen_after_def b ex_processed)
  have "server ex_y1 (v_row (ex_vlan 10 ''VLAN10'')) = server z (v_row (ex_vlan 10 ''VLAN10''))"
    by (rule published_state_is_history_free [OF ex_env_ok F _ ex_after1(2) z(1)])
      (simp_all add: z(2) ex_after1(3) ex_rows)
  with z show ?thesis by (auto simp: ex_rows)
qed

section \<open>Reconfiguration\<close>

lemma ex_boot_sync:
  "wf_db empty_db" "in_sync ex_env empty_db (vland_ovsdb_init ex_env 0)"
  "tracks ex_env empty_db (vland_ovsdb_init ex_env 0) ex_db1"
  "seqno ex_db1 \<noteq> idl_seqno (vland_ovsdb_init ex_env 0)"
proof -
  show "tracks ex_env empty_db (vland_ovsdb_init ex_env 0) ex_db1"
    by (rule tracks_boot [OF wf_ex_db1])
      (simp_all add: ex_db1_def ex_db_def ex_access_def ex_vlan_def row_changed_def Let_def)
  show "in_sync ex_env empty_db (vland_ovsdb_init ex_env 0)" by (rule init_in_sync [OF ex_env_ok])
qed (simp_all add: wf_empty_db ex_db1_def ex_db_def vland_ovsdb_init_def Let_def)

text \<open>
  C5: A reconfiguration implements its abstract contract. From caches in sync with a replica, a
  new replica reached by tracked changes leaves them in sync with the new replica, records its
  sequence number, and returns 0 exactly when it wrote nothing.
\<close>
theorem vland_reconfigure_refines:
  assumes "env_ok E" and "wf_db db" and "in_sync E db s" and "tracks E db s db'"
    and "seqno db' \<noteq> idl_seqno s"
  shows "\<exists>rc s'. vland_reconfigure E db' s = Some (rc, s') \<and> in_sync E db' s' \<and>
    idl_seqno s' = seqno db' \<and> (rc = 0 \<longleftrightarrow> txn_writes s' = txn_writes s)"
proof -
  obtain rc s' where r: "vland_reconfigure E db' s = Some (rc, s')" "in_sync E db' s'"
    "idl_seqno s' = seqno db'" using vland_reconfigure_sync [OF assms] by blast
  from vland_reconfigure_logs [OF r(1)] have "rc = 0 \<longleftrightarrow> txn_writes s' = txn_writes s" by auto
  with r show ?thesis by blast
qed

lemma vland_reconfigure_refines_witness:
  "\<exists>rc s'. vland_reconfigure ex_env ex_db1 (vland_ovsdb_init ex_env 0) = Some (rc, s') \<and> in_sync ex_env ex_db1 s'"
  using vland_reconfigure_refines [OF ex_env_ok ex_boot_sync] by blast

text \<open>
  C6: The port half. If every VLAN that is out of date is touched by a changed or deleted port, and
  no port is gone together with a VLAN it carries, \<^verbatim>\<open>update_port_cache\<close> returns, and afterwards: the cached
  ports are the named port rows other than the bridge's own, each with its row's bitmap; the
  membership flag of every cached VLAN that has a row is right; its state is right too, unless the row
  is reported as changed, and so is its administrative state (the VLAN half handles those rows).
\<close>
theorem update_port_cache_refines:
  assumes "env_ok E" and "wf_db db" and "no_dangling E db s"
    and "tracked E db n (changed_ports db n \<union> deleted_ports db) s"
  shows "\<exists>rc s'. update_port_cache E db s = Some (rc, s') \<and> tracked E db n {} s' \<and>
    (\<forall>k. port_at s' k \<noteq> None \<longleftrightarrow> port_row_named db k \<and> k \<noteq> DEFAULT_BRIDGE_NAME) \<and>
    (\<forall>k p. port_at s' k = Some p \<longrightarrow> (\<exists>row \<in> set (ports db). p_name row = k \<and> port_synced E db row p)) \<and>
    (\<forall>k v row. vlan_at s' k = Some v \<longrightarrow> row \<in> set (vlans db) \<longrightarrow> v_row row = vd_idl_cfg v \<longrightarrow>
       member_ok E db s' v \<and>
       (\<not> row_changed db n (v_row row) \<longrightarrow> state_ok E db v \<and> vd_admin v = row_admin row))"
proof -
  from update_port_cache_tracked [OF assms] obtain rc s' where
    r: "update_port_cache E db s = Some (rc, s')" "tracked E db n {} s'"
    "\<forall>k. port_at s' k \<noteq> None \<longleftrightarrow> port_row_named db k \<and> k \<noteq> DEFAULT_BRIDGE_NAME" by blast
  have "\<exists>row \<in> set (ports db). p_name row = k \<and> port_synced E db row p" if "port_at s' k = Some p" for k p
    using trackedD(5) [OF r(2) that] by simp
  moreover have "member_ok E db s' v \<and>
      (\<not> row_changed db n (v_row row) \<longrightarrow> state_ok E db v \<and> vd_admin v = row_admin row)"
    if "vlan_at s' k = Some v" "row \<in> set (vlans db)" "v_row row = vd_idl_cfg v" for k v row
    using trackedD(8) [OF r(2) that] by (auto simp: vlan_tracked_def covered_def)
  ultimately show ?thesis using r by blast
qed

lemma update_port_cache_refines_witness:
  "\<exists>rc s'. update_port_cache ex_env ex_db1 (vland_ovsdb_init ex_env 0) = Some (rc, s') \<and> port_at s' ''1'' \<noteq> None"
proof -
  have "port_row_named ex_db1 ''1''"
    by (auto simp: port_row_named_def ex_db1_def ex_db_def ex_access_def Let_def)
  then show ?thesis
    using update_port_cache_refines [OF ex_env_ok wf_ex_db1 tracksD(3) [OF ex_boot_sync(3)]
        in_sync_tracked [OF ex_env_ok ex_boot_sync(1,2,3)]] by fastforce
qed

text \<open>
  C7: The VLAN half. Once every port is up to date, \<^verbatim>\<open>update_vlan_cache\<close> returns with the caches
  in sync: one cached VLAN per row, with the row's administrative state, a correct membership
  flag and the specified operational state.
\<close>
theorem update_vlan_cache_refines:
  assumes "env_ok E" and "wf_db db" and "tracked E db n {} s"
    and "\<forall>k. port_at s k \<noteq> None \<longleftrightarrow> port_row_named db k \<and> k \<noteq> DEFAULT_BRIDGE_NAME"
  shows "\<exists>rc s'. update_vlan_cache E db s = Some (rc, s') \<and> in_sync E db s' \<and> idl_seqno s' = n"
  using assms by (rule update_vlan_cache_sync)

lemma update_vlan_cache_refines_witness:
  "\<exists>s rc s'. update_vlan_cache ex_env ex_db1 s = Some (rc, s') \<and> in_sync ex_env ex_db1 s'"
proof -
  obtain rc s where "tracked ex_env ex_db1 (idl_seqno (vland_ovsdb_init ex_env 0)) {} s"
    "\<forall>k. port_at s k \<noteq> None \<longleftrightarrow> port_row_named ex_db1 k \<and> k \<noteq> DEFAULT_BRIDGE_NAME"
    using update_port_cache_tracked [OF ex_env_ok wf_ex_db1 tracksD(3) [OF ex_boot_sync(3)]
        in_sync_tracked [OF ex_env_ok ex_boot_sync(1,2,3)]] by blast
  from update_vlan_cache_refines [OF ex_env_ok wf_ex_db1 this] show ?thesis by blast
qed

text \<open>
  C8: A reconfiguration writes nothing but the three output columns, of VLAN rows that exist and
  are not used for an L3 port. The initialisation asked for no alert on any of these columns, so
  the daemon is never woken by what it publishes. The result is 0 exactly when no write is
  appended, and the flags of the run are left alone.
\<close>
theorem vland_reconfigure_writes_output_columns:
  assumes "vland_reconfigure E db s = Some (rc, s')"
  shows "\<exists>ws. txn_writes s' = txn_writes s @ ws \<and> (rc = 0 \<longleftrightarrow> ws = []) \<and>
    (\<forall>w \<in> set ws. output_write w \<and> silent_write w \<and>
       (\<exists>row \<in> set (vlans db). v_row row = written_row w \<and> \<not> l3_internal row)) \<and>
    default_vlan_created s' = default_vlan_created s \<and> system_configured s' = system_configured s"
proof -
  from vland_reconfigure_logs [OF assms] obtain ws where ws: "txn_writes s' = txn_writes s @ ws"
    "rc = 0 \<longleftrightarrow> ws = []" "\<forall>w \<in> set ws. publishes db w" "run_flags s' = run_flags s" by blast
  have silent: "output_write w \<Longrightarrow> silent_write w" for w
    by (cases w) (simp_all add: silent_write_def monitored_columns_def)
  have "output_write w \<and> silent_write w \<and>
      (\<exists>row \<in> set (vlans db). v_row row = written_row w \<and> \<not> l3_internal row)"
    if "w \<in> set ws" for w
  proof -
    from ws(3) that obtain row where "output_write w" "deref_vlan db (written_row w) = Some row"
      "\<not> l3_internal row" by (auto simp: publishes_def)
    with silent find_SomeD [of "\<lambda>row. v_row row = written_row w" "vlans db" row] show ?thesis
      by (auto simp: deref_vlan_def)
  qed
  with ws(1,2,4) show ?thesis by (simp add: run_flags_def)
qed

lemma vland_reconfigure_writes_output_columns_witness:
  "\<exists>rc s'. vland_reconfigure ex_env ex_db1 (vland_ovsdb_init ex_env 0) = Some (rc, s') \<and>
     (rc = 0 \<longleftrightarrow> txn_writes s' = [])"
proof -
  obtain rc s' where r: "vland_reconfigure ex_env ex_db1 (vland_ovsdb_init ex_env 0) = Some (rc, s')"
    using vland_reconfigure_sync [OF ex_env_ok ex_boot_sync] by blast
  from vland_reconfigure_writes_output_columns [OF r] r show ?thesis
    by (auto simp: vland_ovsdb_init_def)
qed

text \<open>
  A replica that reports no change of a port or VLAN row makes a synchronised daemon do
  nothing: no write, no state change but the sequence number.
\<close>
theorem vland_reconfigure_quiet:
  assumes "in_sync E db s" and "quiet db s db'"
  shows "vland_reconfigure E db' s = Some (0, s\<lparr>idl_seqno := seqno db'\<rparr>)"
  using assms by (rule quiet_reconfigure)

lemma vland_reconfigure_quiet_witness:
  "vland_reconfigure ex_env (ex_db1\<lparr>seqno := 2, row_inserted := \<lambda>_ _. False\<rparr>) (daemon ex_y1) =
     Some (0, (daemon ex_y1)\<lparr>idl_seqno := 2\<rparr>)"
proof -
  have "in_sync ex_env ex_db1 (daemon ex_y1)"
    using vland_reach_inv [OF ex_after1(2) ex_env_ok] by (simp add: sys_inv_def ex_after1(3))
  moreover have "quiet ex_db1 (daemon ex_y1) (ex_db1\<lparr>seqno := 2, row_inserted := \<lambda>_ _. False\<rparr>)"
    by (simp add: quiet_def row_changed_def) (simp add: ex_db1_def ex_db_def Let_def)
  ultimately show ?thesis using vland_reconfigure_quiet by fastforce
qed

text \<open>
  C10: A replica that drops a VLAN together with a port that is in it makes the reconfiguration
  read a row that is gone: \<^verbatim>\<open>del_old_port\<close> follows the row pointer kept for the VLAN before the
  VLAN half has removed it. Whatever order the hash tables give, there is no way round it.
\<close>
theorem vland_reconfigure_reads_deleted_row:
  assumes "env_ok E" and "cache_ok E s" and "seqno db \<noteq> idl_seqno s"
    and "port_at s k = Some p" and "nat (vd_vid v) \<in> port_bits E p" and "\<not> port_row_named db k"
    and "vlan_at s k' = Some v" and "deref_vlan db (vd_idl_cfg v) = None"
  shows "vland_reconfigure E db s = None"
  using assms by (rule vland_reconfigure_dangling)

lemma vland_reconfigure_reads_deleted_row_witness:
  "vland_reconfigure ex_env ex_db2 (daemon ex_y1) = None"
proof -
  have ok: "cache_ok ex_env (daemon ex_y1)"
    using vland_reach_inv [OF ex_after1(2) ex_env_ok] in_syncD(1) by (auto simp: sys_inv_def)
  show ?thesis
    by (rule vland_reconfigure_reads_deleted_row [OF ex_env_ok ok _ ex_s1(4) _ _ ex_s1(3)])
      (simp_all add: ex_s1 bits_def set_bitmap_def port_row_named_def deref_vlan_def ex_db2_def ex_db_def
        ex_vlan_def Let_def)
qed

section \<open>Membership and operational state\<close>

text \<open>
  C11: The bitmap of a port row holds a VLAN exactly when the columns of the row make the port carry
  it, the known VLANs standing for all VLANs when a port that is not an access port has no trunks.
  Such a port is marked as trunking all VLANs exactly when it is in the bridge.
\<close>
theorem construct_vlan_bitmap_members:
  assumes "env_ok E" and "VALID_VID vid"
  shows "(nat vid \<in> port_bits E (construct_vlan_bitmap E db known row p) \<longleftrightarrow>
      (if access_row row \<or> p_vlan_trunks row \<noteq> [] then row_carries (ops E) row vid
       else nat vid \<in> bits (bmp E) known \<or>
         native_row row \<and> p_vlan_tag row \<noteq> None \<and> c_int (ops_port_get_tag (ops E) row) = vid)) \<and>
    (pd_trunk_all_vlans (construct_vlan_bitmap E db known row p) \<longleftrightarrow>
      in_bridge db (p_name row) \<and> \<not> access_row row \<and> p_vlan_trunks row = [])"
proof -
  let ?nv = "row_native_vid (ops E) row"
  have sz: "0 \<le> vid" "0 < vid" "nat vid < bitmap_size E"
    using valid_vid_size [OF assms] assms(2) by (simp_all add: VALID_VID_def bitmap_size_def)
  have all: "row_trunks_all row \<longleftrightarrow> \<not> access_row row \<and> p_vlan_trunks row = []"
    by (simp add: row_trunks_all_def access_row_mode n_vlan_trunks_def)
  have nv: "VALID_VID ?nv \<and> nat vid = nat ?nv \<longleftrightarrow>
      (access_row row \<or> native_row row) \<and> p_vlan_tag row \<noteq> None \<and> c_int (ops_port_get_tag (ops E) row) = vid"
    unfolding tagged_mode using assms(2) valid_vid_nat_inject [of vid ?nv]
    by (auto simp: row_native_vid_def VALID_VID_def)
  show ?thesis
  proof (cases "row_trunks_all row")
    case True
    with nv show ?thesis
      by (auto simp: construct_vlan_bitmap_bits [OF assms(1)] construct_vlan_bitmap_fields all in_bridge_eq)
  next
    case False
    with sz show ?thesis
      by (auto simp: construct_vlan_bitmap_bits [OF assms(1)] construct_vlan_bitmap_fields row_carries_eq [OF assms(2)] all in_bridge_eq)
  qed
qed

lemma construct_vlan_bitmap_members_witness:
  "let row = ex_access 101 ''1'' 10;
       port = construct_vlan_bitmap ex_env ex_db1 {} row (new_port_data ex_env row)
   in 10 \<in> bits set_bitmap (pd_vlans_bitmap port) \<and> 11 \<notin> bits set_bitmap (pd_vlans_bitmap port)"
  using construct_vlan_bitmap_members [OF ex_env_ok, of 10 ex_db1 "{}" "ex_access 101 ''1'' 10"]
    construct_vlan_bitmap_members [OF ex_env_ok, of 11 ex_db1 "{}" "ex_access 101 ''1'' 10"]
  by (simp add: VALID_VID_def access_row_def native_row_def row_carries_def ex_access_def ex_ops_def Let_def)

text \<open>
  C12: The membership pass sets the flag exactly when some cached port of the bridge carries the
  VLAN; it adds the VLAN's bit to the ports of the bridge that trunk all VLANs, and changes no
  other bit and no other field of any port.
\<close>
theorem update_vlan_membership_correct:
  assumes "env_ok E" and "VALID_VID (vd_vid v)" and "update_vlan_membership E db v s = (v', s')"
    and "shash_ok (all_ports s)"
  shows "v' = v\<lparr>vd_any_member_exists := (\<exists>k p. port_at s k = Some p \<and>
        in_bridge db (pd_name p) \<and> (pd_trunk_all_vlans p \<or> nat (vd_vid v) \<in> port_bits E p))\<rparr> \<and>
    shash_nodes (all_ports s') = shash_nodes (all_ports s) \<and>
    (\<forall>k p. port_at s k = Some p \<longrightarrow> (\<exists>p'. port_at s' k = Some p' \<and>
      p'\<lparr>pd_vlans_bitmap := pd_vlans_bitmap p\<rparr> = p \<and>
      port_bits E p' = (if in_bridge db (pd_name p) \<and> pd_trunk_all_vlans p
        then insert (nat (vd_vid v)) (port_bits E p) else port_bits E p)))"
proof (intro conjI allI impI)
  have sz: "nat (vd_vid v) < VLAN_BITMAP_SIZE (bmp E)" by (rule valid_vid_size [OF assms(1,2)])
  have mem: "cached_member E db (vd_vid v) p \<longleftrightarrow> in_bridge db (pd_name p) \<and>
      (pd_trunk_all_vlans p \<or> nat (vd_vid v) \<in> port_bits E p)" for p
    using assms(2) sz by (simp add: cached_member_def in_bridge_eq bitmap_is_set_bits)
  show "v' = v\<lparr>vd_any_member_exists := (\<exists>k p. port_at s k = Some p \<and>
        in_bridge db (pd_name p) \<and> (pd_trunk_all_vlans p \<or> nat (vd_vid v) \<in> port_bits E p))\<rparr>"
    using assms(3) by (simp add: update_vlan_membership_eq any_cached_member_at [OF assms(4)] mem)
  show "shash_nodes (all_ports s') = shash_nodes (all_ports s)"
    using assms(3) by (auto simp: update_vlan_membership_eq)
  show "\<exists>p'. port_at s' k = Some p' \<and> p'\<lparr>pd_vlans_bitmap := pd_vlans_bitmap p\<rparr> = p \<and>
      port_bits E p' = (if in_bridge db (pd_name p) \<and> pd_trunk_all_vlans p
        then insert (nat (vd_vid v)) (port_bits E p) else port_bits E p)" if "port_at s k = Some p" for k p
    using assms(1-3) that sz
    by (auto simp: update_vlan_membership_eq find_map_values add_trunked_vlan_def in_bridge_eq bitmap_simps)
qed

lemma update_vlan_membership_correct_witness:
  "\<exists>v' s'. update_vlan_membership ex_env ex_db1 (parse_vlan_data (ex_vlan 10 ''VLAN10'')) (daemon ex_y1) = (v', s') \<and>
     vd_any_member_exists v'"
proof -
  let ?v = "parse_vlan_data (ex_vlan 10 ''VLAN10'')"
  have "in_sync ex_env ex_db1 (daemon ex_y1)"
    using vland_reach_inv [OF ex_after1(2) ex_env_ok] by (simp add: sys_inv_def ex_after1(3))
  then have ok: "shash_ok (all_ports (daemon ex_y1))" using cache_okD(1) in_syncD(1) by blast
  have vid: "vd_vid ?v = 10" by (simp add: parse_vlan_data_def ex_vlan_def)
  then have valid: "VALID_VID (vd_vid ?v)" by (simp add: VALID_VID_def)
  obtain v' s' where u: "update_vlan_membership ex_env ex_db1 ?v (daemon ex_y1) = (v', s')" by fastforce
  have "in_bridge ex_db1 ''1''"
    by (simp add: in_bridge_def ex_db1_def ex_db_def ex_access_def Let_def)
  then have "\<exists>k p. port_at (daemon ex_y1) k = Some p \<and> in_bridge ex_db1 (pd_name p) \<and>
      (pd_trunk_all_vlans p \<or> nat (vd_vid ?v) \<in> port_bits ex_env p)"
    by (intro exI [of _ "''1''"]) (simp add: ex_s1(4) vid bits_def set_bitmap_def)
  with update_vlan_membership_correct [OF ex_env_ok valid u ok] u show ?thesis by simp
qed

text \<open>
  C13: The reason is the highest in priority of those that apply to the VLAN (\<open>admin_down\<close> when it is
  shut down, \<open>no_member_port\<close> when it has no member, \<open>ok\<close> always). The state is up exactly for
  reason \<open>ok\<close> and for the default VLAN, whose own member test counts as a member; nothing
  else of the VLAN's data changes.
\<close>
theorem calc_vlan_op_state_n_reason_correct:
  assumes "calc_vlan_op_state_n_reason U db v = (v', state, reason)"
  shows "reason_applies v' reason \<and> (\<forall>r. reason_applies v' r \<longrightarrow> r \<le> reason) \<and>
    (state = VLAN_OPER_STATE_UP \<longleftrightarrow> reason = VLAN_OPER_STATE_REASON_OK \<or> vd_vid v = DEFAULT_VID) \<and>
    state \<noteq> VLAN_OPER_STATE_UNKNOWN \<and>
    (vd_any_member_exists v' \<longleftrightarrow> vd_any_member_exists v \<or>
      vd_vid v = DEFAULT_VID \<and> vland_default_vlan_member_port U db) \<and>
    v'\<lparr>vd_any_member_exists := vd_any_member_exists v\<rparr> = v"
proof -
  have "r \<le> reason" if "reason_applies v' r" for r
    using assms that
    by (cases r; cases "vd_admin v")
      (auto simp: calc_vlan_op_state_n_reason_eq effective_member_def oper_table_def
        less_eq_vlan_oper_state_reason_def split: if_splits)
  with assms show ?thesis
    by (cases "vd_admin v")
      (auto simp: calc_vlan_op_state_n_reason_eq effective_member_def oper_table_def split: if_splits)
qed

lemma calc_vlan_op_state_n_reason_correct_witness:
  "\<exists>v' st. calc_vlan_op_state_n_reason ex_ops ex_db1 (parse_vlan_data (ex_vlan 10 ''VLAN10'')) =
     (v', st, VLAN_OPER_STATE_REASON_ADMIN_DOWN)"
proof -
  obtain v' st rs where c: "calc_vlan_op_state_n_reason ex_ops ex_db1 (parse_vlan_data (ex_vlan 10 ''VLAN10'')) =
      (v', st, rs)" by (metis prod_cases3)
  from calc_vlan_op_state_n_reason_correct [OF c] have "v'\<lparr>vd_any_member_exists := False\<rparr> =
      parse_vlan_data (ex_vlan 10 ''VLAN10'')" and le: "\<And>r. reason_applies v' r \<Longrightarrow> r \<le> rs"
    by (simp_all add: parse_vlan_data_def)
  then have "vd_admin (v'\<lparr>vd_any_member_exists := False\<rparr>) = VLAN_ADMIN_DOWN"
    by (simp add: parse_vlan_data_def)
  with le [of VLAN_OPER_STATE_REASON_ADMIN_DOWN] have "rs = VLAN_OPER_STATE_REASON_ADMIN_DOWN"
    by (cases rs) (simp_all add: less_eq_vlan_oper_state_reason_def)
  with c show ?thesis by blast
qed

text \<open>
  C14: Handling a VLAN's configuration is idempotent, touches no other row, leaves a VLAN used
  for an L3 port alone, and makes a row that showed the VLAN's old state show its new one.
\<close>
theorem handle_vlan_config_correct:
  assumes "deref_vlan db row = Some r" and "handle_vlan_config U db row v = Some (n, v', ws)"
  shows "handle_vlan_config U db row v' = Some (0, v', []) \<and>
    (\<forall>c r'. r' \<noteq> row \<longrightarrow> apply_writes ws c r' = c r') \<and>
    (l3_internal r \<longrightarrow> v' = v \<and> ws = []) \<and> (n = 0 \<longleftrightarrow> ws = []) \<and>
    (\<forall>c. \<not> l3_internal r \<longrightarrow> c row = shown (vd_op_state v, vd_op_state_reason v) \<longrightarrow>
      apply_writes ws c row = shown (vd_op_state v', vd_op_state_reason v') \<and>
      (vd_op_state v', vd_op_state_reason v') =
        oper_table (vd_vid v) (vd_admin v) (effective_member U db v))"
proof -
  have e: "effective_member U db (u\<lparr>vd_any_member_exists := effective_member U db v,
      vd_op_state := a, vd_op_state_reason := b\<rparr>) = effective_member U db v" if "vd_vid u = vd_vid v" for u a b
    using that by (auto simp: effective_member_def)
  have "handle_vlan_config U db row v' = Some (0, v', [])"
    using assms e [of v] by (auto simp: handle_vlan_config_eq Let_def vlan_settled_def split: if_splits)
  moreover have "l3_internal r \<longrightarrow> v' = v \<and> ws = []" "n = 0 \<longleftrightarrow> ws = []"
    using assms by (auto simp: handle_vlan_config_eq Let_def state_writes_def split: if_splits)
  moreover have "\<forall>c r'. r' \<noteq> row \<longrightarrow> apply_writes ws c r' = c r'"
    using assms by (auto simp: handle_vlan_config_eq Let_def apply_state_writes split: if_splits)
  moreover have "apply_writes ws c row = shown (vd_op_state v', vd_op_state_reason v') \<and>
      (vd_op_state v', vd_op_state_reason v') =
        oper_table (vd_vid v) (vd_admin v) (effective_member U db v)"
    if "\<not> l3_internal r" "c row = shown (vd_op_state v, vd_op_state_reason v)" for c
    using assms that
    by (auto simp: handle_vlan_config_eq Let_def apply_state_writes vlan_settled_def split: if_splits)
  ultimately show ?thesis by blast
qed

lemma handle_vlan_config_correct_witness:
  "\<exists>n v' ws. handle_vlan_config ex_ops ex_db1 10 (parse_vlan_data (ex_vlan 10 ''VLAN10'')) = Some (n, v', ws) \<and>
     handle_vlan_config ex_ops ex_db1 10 v' = Some (0, v', [])"
proof -
  have d: "deref_vlan ex_db1 10 = Some (ex_vlan 10 ''VLAN10'')"
    by (simp add: deref_vlan_def ex_db1_def ex_db_def ex_vlan_def Let_def)
  then obtain n v' ws where h: "handle_vlan_config ex_ops ex_db1 10 (parse_vlan_data (ex_vlan 10 ''VLAN10'')) =
      Some (n, v', ws)"
    using handle_vlan_config_None [of ex_ops ex_db1 10 "parse_vlan_data (ex_vlan 10 ''VLAN10'')"]
    by (metis not_Some_eq prod_cases3)
  from handle_vlan_config_correct [OF d h] h show ?thesis by blast
qed

section \<open>Consequences at the server\<close>

definition ex_trunk :: ovsrec_port where
  "ex_trunk = \<lparr> p_row = 102, p_name = ''2'', p_vlan_mode = None, p_vlan_tag = None,
     p_vlan_trunks = [], p_interfaces = [], p_hw_config = [] \<rparr>"

text \<open>
  C15: A port of the bridge in a trunk or native mode whose trunks column is empty carries every
  VLAN: each VLAN that is administratively up is shown as up, enabled, with reason \<open>ok\<close>.
\<close>
theorem trunk_all_port_enables_every_vlan:
  assumes "env_ok E" and "vland_reach E y"
    and "port \<in> set (ports (seen y))" and "p_name port \<noteq> DEFAULT_BRIDGE_NAME"
    and "in_bridge (seen y) (p_name port)" and "\<not> access_row port" and "p_vlan_trunks port = []"
    and "row \<in> set (vlans (seen y))" and "\<not> l3_internal row" and "v_admin row = Some OVSREC_VLAN_ADMIN_UP"
  shows "server y (v_row row) =
    ([(''enable'', VLAN_HW_CONFIG_MAP_ENABLE_TRUE)], OVSREC_VLAN_OPER_STATE_UP, OVSREC_VLAN_OPER_STATE_REASON_OK)"
proof -
  have "has_member (ops E) (seen y) (v_id row)"
    using assms(3-7) by (auto simp: has_member_def row_carries_def)
  with reach_columns [OF assms(1,2,8,9)] assms(10) show ?thesis by (simp add: spec_columns_def)
qed

lemma trunk_all_port_enables_every_vlan_witness:
  "\<exists>y. vland_reach ex_env y \<and> server y 10 = ([(''enable'', ''true'')], ''up'', ''ok'')"
proof -
  let ?vs = "[ex_vlan 1 ''DEFAULT_VLAN_1'', ex_vlan 10 ''VLAN10'']"
  have "wf_db (ex_db [ex_trunk] ?vs 1)" by (simp add: wf_db_def ex_db_def ex_vlan_def VALID_VID_def Let_def)
  then obtain y where y: "vland_reach ex_env y" "seen y = ex_db [ex_trunk] ?vs 1"
    using ex_reach_db [of "[ex_trunk]" ?vs 1] by (auto simp: ex_vlan_def DEFAULT_VID_def)
  have br: "in_bridge (ex_db [ex_trunk] ?vs 1) (p_name ex_trunk)"
    by (simp add: in_bridge_def ex_db_def Let_def)
  have "server y (v_row (ex_vlan 10 ''VLAN10'')) = ([(''enable'', ''true'')], ''up'', ''ok'')"
    by (rule trunk_all_port_enables_every_vlan [OF ex_env_ok y(1), of ex_trunk])
      (use br in \<open>simp_all add: y(2) ex_rows(2)\<close>, simp_all add: ex_db_def ex_trunk_def access_row_def ex_vlan_def Let_def)
  with y(1) show ?thesis by (auto simp: ex_rows)
qed

text \<open>
  The default VLAN's row is always shown as up and enabled, even when it is shut down.
\<close>
theorem default_vlan_always_up:
  assumes "env_ok E" and "vland_reach E y" and "row \<in> set (vlans (seen y))"
    and "v_id row = DEFAULT_VID" and "\<not> l3_internal row"
  shows "fst (server y (v_row row)) = [(''enable'', VLAN_HW_CONFIG_MAP_ENABLE_TRUE)] \<and>
    fst (snd (server y (v_row row))) = OVSREC_VLAN_OPER_STATE_UP"
  using reach_columns [OF assms(1,2,3,5)] assms(4) by (simp add: spec_columns_def DEFAULT_VID_def Let_def)

lemma default_vlan_always_up_witness: "fst (snd (server ex_y1 1)) = ''up''"
  using default_vlan_always_up [OF ex_env_ok ex_after1(2), of "ex_vlan 1 ''DEFAULT_VLAN_1''"]
  by (simp add: ex_after1(3) ex_db1_def ex_db_def ex_vlan_def l3_internal_def DEFAULT_VID_def Let_def)

definition ex_unbridged :: ovsdb where
  "ex_unbridged = ex_db1\<lparr>systems := [\<lparr> s_row = 600, s_cur_cfg = 1, s_bridges = [], s_other_config = [] \<rparr>],
     seqno := 2, row_inserted := \<lambda>_ _. False\<rparr>"

text \<open>
  C17: The daemon watches port and VLAN rows only. Where a change of the bridges alone makes the
  specification give a VLAN row other columns (the bridge loses or gains a port, and no port row
  changes), the reconfiguration does nothing, and the server goes on showing the old columns, which
  are not the ones specified.
\<close>
theorem bridge_change_goes_unnoticed:
  assumes "env_ok E" and "vland_reach E y"
    and "ports db = ports (seen y)" and "vlans db = vlans (seen y)"
    and "\<forall>port \<in> set (ports db). \<not> row_changed db (idl_seqno (daemon y)) (p_row port)"
    and "\<forall>row \<in> set (vlans db). \<not> row_changed db (idl_seqno (daemon y)) (v_row row)"
    and "row \<in> set (vlans db)" and "\<not> l3_internal row"
    and "spec_columns (ops E) db row \<noteq> spec_columns (ops E) (seen y) row"
  shows "vland_reconfigure E db (daemon y) = Some (0, (daemon y)\<lparr>idl_seqno := seqno db\<rparr>) \<and>
    server y (v_row row) \<noteq> spec_columns (ops E) db row"
proof
  have "in_sync E (seen y) (daemon y)" using vland_reach_inv [OF assms(2,1)] by (simp add: sys_inv_def)
  moreover have "quiet (seen y) (daemon y) db" using assms(3-6) by (simp add: quiet_def)
  ultimately show "vland_reconfigure E db (daemon y) = Some (0, (daemon y)\<lparr>idl_seqno := seqno db\<rparr>)"
    by (rule quiet_reconfigure)
  show "server y (v_row row) \<noteq> spec_columns (ops E) db row"
    using reach_columns [OF assms(1,2) _ assms(8)] assms(4,7,9) by simp
qed

lemma bridge_change_goes_unnoticed_witness:
  "vland_reconfigure ex_env ex_unbridged (daemon ex_y1) = Some (0, (daemon ex_y1)\<lparr>idl_seqno := 2\<rparr>) \<and>
   server ex_y1 10 \<noteq> ([], ''down'', ''no_member_port'')"
proof -
  have spec: "spec_columns ex_ops ex_unbridged (ex_vlan 10 ''VLAN10'') = ([], ''down'', ''no_member_port'')"
    by (simp add: spec_columns_def has_member_def in_bridge_def ex_unbridged_def ex_vlan_def ex_db1_def ex_db_def Let_def)
  have rows: "ports ex_unbridged = ports ex_db1" "vlans ex_unbridged = vlans ex_db1" "seqno ex_unbridged = 2"
    "\<not> row_changed ex_unbridged n r" for n r
    by (simp_all add: ex_unbridged_def row_changed_def) (simp add: ex_db1_def ex_db_def Let_def)
  from bridge_change_goes_unnoticed [OF ex_env_ok ex_after1(2), of ex_unbridged "ex_vlan 10 ''VLAN10''"]
  show ?thesis by (simp add: ex_after1(3) rows ex_rows spec ex_spec)
qed

text \<open>
  A process that does not hold the lock, or that has not seen the system configured, does
  nothing at all.
\<close>
theorem vland_run_idle:
  assumes "ri_lock_contended inp \<or> \<not> ri_has_lock inp \<or>
    \<not> system_configured s \<and>
      (\<forall>sys. ovsrec_system_first (ri_replica inp) = Some sys \<longrightarrow> s_cur_cfg sys \<le> 0)"
  shows "vland_run E inp s = Some (s, [])"
  using assms
  by (auto simp: vland_run_def vland_prepare_def vland_chk_for_system_configured_def Let_def
      split: option.split)

lemma vland_run_idle_witness:
  "vland_run ex_env (ex_input empty_db TXN_SUCCESS) (vland_ovsdb_init ex_env 0) =
     Some (vland_ovsdb_init ex_env 0, [])"
  by (rule vland_run_idle)
    (simp add: vland_ovsdb_init_def ex_input_def empty_db_def ovsrec_system_first_def)

lemma run_other_commits:
  assumes known: "default_vlan_created s \<or> list_ex (\<lambda>row. v_id row = DEFAULT_VID) (vlans (ri_replica inp))"
    and run: "vland_run E inp s = Some (s', txs)"
  shows "vland_run E (inp\<lparr>ri_commit := f\<rparr>) s = Some (s', map (\<lambda>(ws, st). (ws, f ws)) txs)"
proof -
  let ?s = "vland_chk_for_system_configured (ri_replica inp) s"
  have c: "default_vlan_created ?s = default_vlan_created s"
    by (simp add: vland_chk_for_system_configured_def split: option.split)
  have "vland_prepare (inp\<lparr>ri_commit := f\<rparr>) s = vland_prepare inp s"
    using known c
    by (cases "default_vlan_created s") (simp_all add: vland_prepare_def create_default_vlan_def Let_def)
  moreover have "txs0 = []" if "vland_prepare inp s = (t, Some (db, txs0))" for t db txs0
    using that known c by (auto simp: vland_prepare_def create_default_vlan_def Let_def split: if_splits)
  ultimately show ?thesis
    using run by (auto simp: vland_run_def split: prod.splits option.splits if_splits)
qed

lemma quiet_run:
  assumes sync: "in_sync E db s" and q: "quiet db s (ri_replica inp)"
    and known: "default_vlan_created s \<or> list_ex (\<lambda>row. v_id row = DEFAULT_VID) (vlans (ri_replica inp))"
  shows "\<exists>t. vland_run E inp s = Some (t, [])"
proof -
  let ?s = "vland_chk_for_system_configured (ri_replica inp) s"
  have c: "default_vlan_created ?s = default_vlan_created s"
    by (simp add: vland_chk_for_system_configured_def split: option.split)
  have act: "db' = ri_replica inp \<and> txs = []" if "vland_prepare inp s = (t, Some (db', txs))" for t db' txs
    using that known c by (auto simp: vland_prepare_def create_default_vlan_def Let_def split: if_splits)
  obtain t a where p: "vland_prepare inp s = (t, a)" by fastforce
  let ?t = "t\<lparr>txn_writes := []\<rparr>"
  have same: "same_caches s ?t" using vland_prepare_caches [OF p] by simp
  have "in_sync E db ?t" using sync same_cachesD(1) [OF same] by simp
  moreover have "quiet db ?t (ri_replica inp)" using q same by (simp add: quiet_def same_caches_def)
  ultimately have "vland_reconfigure E (ri_replica inp) ?t = Some (0, ?t\<lparr>idl_seqno := seqno (ri_replica inp)\<rparr>)"
    by (rule quiet_reconfigure)
  with p act show ?thesis by (cases a) (auto simp: vland_run_def)
qed

text \<open>
  C19: The outcome of the commit of published states is never looked at. In a run for which the
  default VLAN is known or in the replica, a commit that fails leaves the daemon with the same state as
  one that succeeds; and the next run, from a replica that reports no port or VLAN row as
  changed, commits nothing, so that what the failed commit should have written is not written again.
\<close>
theorem commit_outcome_is_ignored:
  assumes "env_ok E" and "vland_reach E y" and "env_step E y inp"
    and "default_vlan_created (daemon y) \<or> list_ex (\<lambda>row. v_id row = DEFAULT_VID) (vlans (ri_replica inp))"
  shows "\<exists>s' txs. vland_run E inp (daemon y) = Some (s', txs) \<and>
    (\<forall>f. vland_run E (inp\<lparr>ri_commit := f\<rparr>) (daemon y) = Some (s', map (\<lambda>(ws, st). (ws, f ws)) txs)) \<and>
    (\<forall>inp'. quiet (seen_after inp (daemon y) (seen y)) s' (ri_replica inp') \<longrightarrow>
       default_vlan_created s' \<or> list_ex (\<lambda>row. v_id row = DEFAULT_VID) (vlans (ri_replica inp')) \<longrightarrow>
       (\<exists>t. vland_run E inp' s' = Some (t, [])))"
proof -
  obtain s' txs where r: "vland_run E inp (daemon y) = Some (s', txs)"
    and "sys_inv E \<lparr> daemon = s', seen = seen_after inp (daemon y) (seen y),
      server = server_after txs (server y) \<rparr>"
    by (rule vland_run_inv [OF assms(1) vland_reach_inv [OF assms(2,1)] assms(3)])
  then have "in_sync E (seen_after inp (daemon y) (seen y)) s'" by (simp add: sys_inv_def)
  with r run_other_commits [OF assms(4) r] quiet_run show ?thesis by blast
qed

lemma ex_run1_txs:
  "map_option (\<lambda>(s, txs). (idl_seqno s, default_vlan_created s, map (\<lambda>(ws, st). (length ws, st)) txs)) ex_run1 =
     Some (1, True, [(6, TXN_SUCCESS)])"
  by code_simp

lemma commit_outcome_is_ignored_witness:
  "\<exists>s' ws t. vland_run ex_env (ex_input ex_db1 TXN_ERROR) (daemon ex_boot) = Some (s', [(ws, TXN_ERROR)]) \<and>
     length ws = 6 \<and>
     vland_run ex_env (ex_input (ex_db1\<lparr>seqno := 2, row_inserted := \<lambda>_ _. False\<rparr>) TXN_SUCCESS) s' = Some (t, [])"
proof -
  let ?inp = "ex_input ex_db1 TXN_SUCCESS"
  let ?inp' = "ex_input (ex_db1\<lparr>seqno := 2, row_inserted := \<lambda>_ _. False\<rparr>) TXN_SUCCESS"
  have known: "list_ex (\<lambda>row. v_id row = DEFAULT_VID) (vlans (ri_replica ?inp))"
    by (simp add: ex_input_def ex_db1_def ex_db_def ex_vlan_def DEFAULT_VID_def Let_def)
  from commit_outcome_is_ignored [OF ex_env_ok ex_reach_boot ex_step1] known obtain s' txs where
    r: "vland_run ex_env ?inp (daemon ex_boot) = Some (s', txs)"
    "vland_run ex_env (?inp\<lparr>ri_commit := \<lambda>_. TXN_ERROR\<rparr>) (daemon ex_boot) =
       Some (s', map (\<lambda>(ws, st). (ws, TXN_ERROR)) txs)"
    "quiet ex_db1 s' (ri_replica ?inp') \<Longrightarrow> default_vlan_created s' \<Longrightarrow>
       \<exists>t. vland_run ex_env ?inp' s' = Some (t, [])"
    by (auto simp: seen_after_def ex_processed)
  have run1: "ex_run1 = Some (s', txs)" using r(1) by (simp add: ex_run1_def ex_boot_def)
  have v: "idl_seqno s' = 1" "default_vlan_created s'"
    "map (\<lambda>(ws, st). (length ws, st)) txs = [(6, TXN_SUCCESS)]" 
    using ex_run1_txs unfolding run1 by simp_all
  then obtain ws where txs: "txs = [(ws, TXN_SUCCESS)]" "length ws = 6" by auto
  have "quiet ex_db1 s' (ri_replica ?inp')"
    by (simp add: quiet_def row_changed_def v(1) ex_input_def) (simp add: ex_db1_def ex_db_def Let_def)
  with r(3) v(2) obtain t where "vland_run ex_env ?inp' s' = Some (t, [])" by blast
  with r(2) txs show ?thesis by (auto simp: ex_input_def)
qed

text \<open>
  C20: Over the whole life of the process at most one transaction that inserts a VLAN row goes
  through, and none once the default VLAN is known to exist.
\<close>
theorem default_vlan_created_at_most_once:
  assumes "vland_main_loop E inps s = Some (s', txs)"
  shows "length (filter created_vlan txs) \<le> 1 \<and>
    (default_vlan_created s \<longrightarrow> filter created_vlan txs = [])"
  using main_loop_creates [OF assms] by blast

lemma default_vlan_created_at_most_once_witness:
  "\<exists>s' txs. vland_main_loop ex_env [(ex_input ex_db1 TXN_SUCCESS, True)] (vland_ovsdb_init ex_env 0) =
     Some (s', txs) \<and> length (filter created_vlan txs) \<le> 1"
proof -
  obtain s' txs where "vland_run ex_env (ex_input ex_db1 TXN_SUCCESS) (daemon ex_boot) = Some (s', txs)"
    by (rule vland_run_inv [OF ex_env_ok vland_reach_inv [OF ex_reach_boot ex_env_ok] ex_step1])
  then have l: "vland_main_loop ex_env [(ex_input ex_db1 TXN_SUCCESS, True)] (vland_ovsdb_init ex_env 0) =
      Some (vland_ovsdb_exit s', txs)" by (simp add: ex_boot_def)
  from default_vlan_created_at_most_once [OF l] l show ?thesis by blast
qed

text \<open>
  The \<open>exit\<close> command ends the loop with the pass it arrives in: whatever the later inputs
  are they have no effect, and the caches are released.
\<close>
theorem main_loop_exits:
  assumes "\<forall>(inp, exiting) \<in> set pre. \<not> exiting"
  shows "vland_main_loop E (pre @ (inp, True) # rest) s = vland_main_loop E (pre @ [(inp, True)]) s \<and>
    (\<forall>s' txs. vland_main_loop E (pre @ (inp, True) # rest) s = Some (s', txs) \<longrightarrow>
      all_ports s' = [] \<and> all_vlans s' = [])"
proof (intro conjI allI impI)
  show "vland_main_loop E (pre @ (inp, True) # rest) s = vland_main_loop E (pre @ [(inp, True)]) s"
    using assms by (induction pre arbitrary: s) (auto split: option.split)
  fix s' txs assume "vland_main_loop E (pre @ (inp, True) # rest) s = Some (s', txs)"
  with assms have "all_ports s' = [] \<and> all_vlans s' = []"
    by (induction pre arbitrary: s txs) (auto simp: vland_ovsdb_exit_def split: option.splits)
  then show "all_ports s' = []" "all_vlans s' = []" by simp_all
qed

lemma main_loop_exits_witness:
  "vland_main_loop ex_env ([] @ (ex_input empty_db TXN_SUCCESS, True) # [(ex_input ex_db1 TXN_SUCCESS, False)])
     (vland_ovsdb_init ex_env 0) =
   vland_main_loop ex_env ([] @ [(ex_input empty_db TXN_SUCCESS, True)]) (vland_ovsdb_init ex_env 0)"
  by (rule main_loop_exits [THEN conjunct1]) simp

text \<open>
  C22: The buffer the diagnostic callback hands out for \<open>l2vlan\<close> has as many bytes as the dump has
  characters, and its terminating null takes one of them: read as a string it is the dump without
  its final newline, when no cached name holds a null (as no C string does). The \<open>dump\<close> command of
  the control socket replies with all of it. For another feature there is no string to read at all.
\<close>
theorem diag_dump_loses_last_character:
  assumes "\<forall>n \<in> set (all_ports s). CHR 0x00 \<notin> set (pd_name (snd n))"
    and "\<forall>n \<in> set (all_vlans s). CHR 0x00 \<notin> set (vd_name (snd n))"
  shows "\<exists>out. vland_unixctl_dump E s = out @ [CHR 0x0A] \<and>
    (if take 6 feature = ''l2vlan''
     then length (l2vlan_diag_dump_callback E s feature) = Suc (length out) \<and>
       c_string (l2vlan_diag_dump_callback E s feature) = Some out
     else c_string (l2vlan_diag_dump_callback E s feature) = None)"
proof -
  let ?d = "vland_debug_dump E s"
  obtain out where out: "?d = out @ newline" using dump_ends by blast
  have "takeWhile (\<lambda>c. c \<noteq> CHR 0x00) ?d = ?d"
    unfolding takeWhile_eq_all_conv using dump_no_null [OF assms, of E] by blast
  then have "length (snprintf_s (xcalloc_chars (length ?d)) (length ?d) ?d) = Suc (length out)"
    "c_string (snprintf_s (xcalloc_chars (length ?d)) (length ?d) ?d) = Some out"
    by (simp_all add: snprintf_s_length snprintf_s_read xcalloc_chars_def out)
  moreover have "c_string (snprintf_s (xcalloc_chars 0) 0 '''') = None"
    by (simp add: c_string_def snprintf_s_def xcalloc_chars_def)
  moreover have "take (length L2VLAN) feature = L2VLAN \<longleftrightarrow> take 6 feature = ''l2vlan''"
    by (simp add: L2VLAN_def eval_nat_numeral)
  ultimately show ?thesis
    using out by (auto simp: vland_unixctl_dump_def l2vlan_diag_dump_callback_def Let_def)
qed

lemma diag_dump_loses_last_character_witness:
  "\<exists>out. vland_unixctl_dump ex_env (vland_ovsdb_init ex_env 0) = out @ [CHR 0x0A] \<and>
     c_string (l2vlan_diag_dump_callback ex_env (vland_ovsdb_init ex_env 0) ''l2vlan'') = Some out"
  using diag_dump_loses_last_character [of "vland_ovsdb_init ex_env 0" ex_env "''l2vlan''"]
  by (auto simp: vland_ovsdb_init_def)

end
