(* ===== verification/Vland_Startup.thy ===== *)
theory Vland_Startup
  imports Vland_Main
begin

text \<open>
  The process around the daemon (\<^verbatim>\<open>src/vland.c\<close>): its options and arguments, the commands it
  registers on the control socket, and \<^verbatim>\<open>main\<close> from the command line to the exit status.
\<close>

section \<open>Options\<close>

text \<open>How a process ends: by \<^verbatim>\<open>exit\<close> or the return of \<^verbatim>\<open>main\<close> with a status, or by \<^verbatim>\<open>abort\<close>.\<close>

datatype ending = Exit_Status int | Abort

definition EXIT_SUCCESS :: int where
  "EXIT_SUCCESS = 0"

definition EXIT_FAILURE :: int where
  "EXIT_FAILURE = 1"

text \<open>
  What a call of \<^verbatim>\<open>getopt_long\<close> returns before the final \<open>-1\<close>: the two options of the program
  itself, an option of the log or daemon library (\<^verbatim>\<open>VLOG_LONG_OPTIONS\<close>, \<^verbatim>\<open>DAEMON_LONG_OPTIONS\<close>),
  the question mark for an option that is not known or lacks its argument, or another value.
\<close>

datatype 'o getopt_result =
  Opt_Help | Opt_Unixctl string | Opt_Library 'o | Opt_Question | Opt_Other

text \<open>
  The libraries as the program calls them: the program's name, the texts of the usage
  functions, the handlers of the library options (which may end the process), the run directory,
  the result of opening the control socket at a path, and the sequence number of a new
  connection to a database.
\<close>

record 'o host =
  program_name :: string
  daemon_usage :: string
  vlog_usage :: string
  library_option :: "'o \<Rightarrow> ending option"
  ovs_rundir :: string
  unixctl_server_create :: "string option \<Rightarrow> int"
  idl_create_seqno :: "string \<Rightarrow> 32 word"

definition usage :: "'o host \<Rightarrow> string" where
  "usage H =
     program_name H @ '': OpenSwitch VLAN daemon'' @ newline @
     ''usage: '' @ program_name H @ '' [OPTIONS] [DATABASE]'' @ newline @
     ''where DATABASE is a socket on which ovsdb-server is listening'' @ newline @
     ''      (default: '' @ [CHR 0x22] @ ''unix:'' @ ovs_rundir H @ ''/db.sock'' @ [CHR 0x22] @ '').'' @ newline @
     daemon_usage H @ vlog_usage H @
     newline @ ''Other options:'' @ newline @
     ''  --unixctl=SOCKET        override default control socket name'' @ newline @
     ''  -h, --help              display this help message'' @ newline"

text \<open>
  The loop over the options: \<open>Inl\<close> is the end of the process with what the program itself reports
  (the usage text on standard output, the message of a fatal error), \<open>Inr\<close> the path of the control
  socket, where the last \<open>--unixctl\<close> wins.
\<close>

fun option_loop ::
  "'o host \<Rightarrow> 'o getopt_result list \<Rightarrow> string option \<Rightarrow> (ending \<times> string) + string option" where
  "option_loop H [] unixctl_path = Inr unixctl_path"
| "option_loop H (Opt_Help # opts) unixctl_path = Inl (Exit_Status EXIT_SUCCESS, usage H)"
| "option_loop H (Opt_Unixctl optarg # opts) unixctl_path = option_loop H opts (Some optarg)"
| "option_loop H (Opt_Library opt # opts) unixctl_path =
     (case library_option H opt of
        None \<Rightarrow> option_loop H opts unixctl_path
      | Some e \<Rightarrow> Inl (e, ''''))"
| "option_loop H (Opt_Question # opts) unixctl_path = Inl (Exit_Status EXIT_FAILURE, '''')"
| "option_loop H (Opt_Other # opts) unixctl_path = Inl (Abort, '''')"

text \<open>
  A command line: what \<^verbatim>\<open>getopt_long\<close> makes of its options, and the arguments after them.
\<close>

record 'o command_line =
  cl_options :: "'o getopt_result list"
  cl_arguments :: "string list"

definition parse_options ::
  "'o host \<Rightarrow> 'o command_line \<Rightarrow> (ending \<times> string) + (string \<times> string option)" where
  "parse_options H cl =
     (case option_loop H (cl_options cl) None of
        Inl e \<Rightarrow> Inl e
      | Inr unixctl_path \<Rightarrow>
          (case parse_database (ovs_rundir H) (cl_arguments cl) of
             Inl fatal \<Rightarrow> Inl (Exit_Status EXIT_FAILURE, fatal)
           | Inr ovsdb_sock \<Rightarrow> Inr (ovsdb_sock, unixctl_path)))"

section \<open>The control socket\<close>

datatype unixctl_handler = Vland_Unixctl_Exit | Vland_Unixctl_Dump
datatype diag_callback = L2vlan_Diag_Dump_Callback

text \<open>What the program has registered: its commands by name, and its diagnostic callback.\<close>

record registry =
  unixctl_commands :: "(string \<times> unixctl_handler) list"
  diag_basic :: "diag_callback option"

definition unixctl_command_register :: "string \<Rightarrow> unixctl_handler \<Rightarrow> registry \<Rightarrow> registry" where
  "unixctl_command_register name cb R = R\<lparr>unixctl_commands := (name, cb) # unixctl_commands R\<rparr>"

definition vland_init :: "'b vland_env \<Rightarrow> 'o host \<Rightarrow> string \<Rightarrow> registry \<Rightarrow> 'b vland \<times> registry" where
  "vland_init E H db_path R =
     (vland_ovsdb_init E (idl_create_seqno H db_path),
      unixctl_command_register ''ops-vland/dump'' Vland_Unixctl_Dump
        (R\<lparr>diag_basic := Some L2vlan_Diag_Dump_Callback\<rparr>))"

definition vland_exit :: "'b vland \<Rightarrow> 'b vland" where
  "vland_exit s = vland_ovsdb_exit s"

text \<open>
  As the control socket library documents it, a request calls the handler that is registered
  under its name, in the order in which the requests arrive; the answer to the others, and to a
  request with arguments, which no handler of the program takes, is the library's.
\<close>

datatype request = Appctl string | Diag_Dump_Basic string
datatype reply = Reply_Null | Reply string | Diag_Buffer string | Library_Reply

definition vland_unixctl_exit :: "bool \<Rightarrow> bool \<times> reply" where
  "vland_unixctl_exit exiting = (True, Reply_Null)"

fun serve_request :: "'b vland_env \<Rightarrow> registry \<Rightarrow> 'b vland \<Rightarrow> request \<Rightarrow> bool \<Rightarrow> bool \<times> reply" where
  "serve_request E R s (Appctl name) exiting =
     (case map_of (unixctl_commands R) name of
        None \<Rightarrow> (exiting, Library_Reply)
      | Some Vland_Unixctl_Exit \<Rightarrow> vland_unixctl_exit exiting
      | Some Vland_Unixctl_Dump \<Rightarrow> (exiting, Reply (vland_unixctl_dump E s)))"
| "serve_request E R s (Diag_Dump_Basic feature) exiting =
     (case diag_basic R of
        None \<Rightarrow> (exiting, Library_Reply)
      | Some L2vlan_Diag_Dump_Callback \<Rightarrow> (exiting, Diag_Buffer (l2vlan_diag_dump_callback E s feature)))"

fun unixctl_server_run ::
  "'b vland_env \<Rightarrow> registry \<Rightarrow> 'b vland \<Rightarrow> request list \<Rightarrow> bool \<Rightarrow> bool \<times> reply list" where
  "unixctl_server_run E R s [] exiting = (exiting, [])"
| "unixctl_server_run E R s (req # reqs) exiting =
     (let (exiting, reply) = serve_request E R s req exiting;
          (exiting, replies) = unixctl_server_run E R s reqs exiting
      in (exiting, reply # replies))"

section \<open>The program\<close>

text \<open>
  The loop of \<^verbatim>\<open>main\<close>. A pass is the input of its run and the requests that are waiting on
  the control socket afterwards. The result says whether the loop has ended, and gives the
  state, the transactions and the replies of each pass; \<open>None\<close> is a read of a row that is gone.
  A loop that still waits when the list ends has the state it waits in.
\<close>

type_synonym pass = "run_input \<times> request list"

fun serve :: "'b vland_env \<Rightarrow> registry \<Rightarrow> pass list \<Rightarrow> 'b vland \<Rightarrow>
    (bool \<times> 'b vland \<times> committed \<times> reply list list) option" where
  "serve E R [] s = Some (False, s, [], [])"
| "serve E R ((inp, reqs) # rest) s =
     (case vland_run E inp s of
        None \<Rightarrow> None
      | Some (s, txs) \<Rightarrow>
          (let (exiting, replies) = unixctl_server_run E R s reqs False
           in if exiting then Some (True, s, txs, [replies])
              else
                (case serve E R rest s of
                   None \<Rightarrow> None
                 | Some (ended, s, txs', replies') \<Rightarrow> Some (ended, s, txs @ txs', replies # replies'))))"

text \<open>
  What becomes of the process: it ends before the loop, it reads a row that is gone, it still
  runs, or \<^verbatim>\<open>main\<close> returns.
\<close>

datatype 'b outcome =
  Ended ending string
| Reads_Gone_Row
| Running string "'b vland" committed "reply list list"
| Returned int "'b vland" committed "reply list list"

definition registered :: registry where
  "registered = unixctl_command_register ''exit'' Vland_Unixctl_Exit
     \<lparr> unixctl_commands = [], diag_basic = None \<rparr>"

definition vland_main :: "'b vland_env \<Rightarrow> 'o host \<Rightarrow> 'o command_line \<Rightarrow> pass list \<Rightarrow> 'b outcome" where
  "vland_main E H cl passes =
     (case parse_options H cl of
        Inl (e, reported) \<Rightarrow> Ended e reported
      | Inr (ovsdb_sock, appctl_path) \<Rightarrow>
          if unixctl_server_create H appctl_path \<noteq> 0 then Ended (Exit_Status EXIT_FAILURE) ''''
          else
            (let (s, R) = vland_init E H ovsdb_sock registered
             in case serve E R passes s of
                  None \<Rightarrow> Reads_Gone_Row
                | Some (ended, s, txs, replies) \<Rightarrow>
                    if ended then Returned 0 (vland_exit s) txs replies
                    else Running ovsdb_sock s txs replies))"

section \<open>What the options come to\<close>

text \<open>The end an option puts to the process, and the paths given for the control socket.\<close>

fun option_ending :: "'o host \<Rightarrow> 'o getopt_result \<Rightarrow> (ending \<times> string) option" where
  "option_ending H Opt_Help = Some (Exit_Status EXIT_SUCCESS, usage H)"
| "option_ending H (Opt_Unixctl _) = None"
| "option_ending H (Opt_Library opt) = map_option (\<lambda>e. (e, '''')) (library_option H opt)"
| "option_ending H Opt_Question = Some (Exit_Status EXIT_FAILURE, '''')"
| "option_ending H Opt_Other = Some (Abort, '''')"

fun socket_path :: "'o getopt_result \<Rightarrow> string option" where
  "socket_path (Opt_Unixctl path) = Some path"
| "socket_path _ = None"

definition control_socket :: "'o command_line \<Rightarrow> string option" where
  "control_socket cl =
     (case List.map_filter socket_path (cl_options cl) of [] \<Rightarrow> None | path # paths \<Rightarrow> Some (last (path # paths)))"

definition first_ending :: "'o host \<Rightarrow> 'o command_line \<Rightarrow> (ending \<times> string) option" where
  "first_ending H cl =
     (case List.map_filter (option_ending H) (cl_options cl) of [] \<Rightarrow> None | e # _ \<Rightarrow> Some e)"

lemma option_loop_eq:
  "option_loop H opts path =
     (case List.map_filter (option_ending H) opts of
        e # _ \<Rightarrow> Inl e
      | [] \<Rightarrow> Inr (case List.map_filter socket_path opts of
                 [] \<Rightarrow> path | path # paths \<Rightarrow> Some (last (path # paths))))"
  by (induction H opts path rule: option_loop.induct)
    (auto simp: map_filter_simps split: option.splits list.splits)

lemma parse_options_eq:
  "parse_options H cl =
     (case first_ending H cl of
        Some e \<Rightarrow> Inl e
      | None \<Rightarrow>
          if 1 < length (cl_arguments cl)
          then Inl (Exit_Status EXIT_FAILURE, ''at most one non-option argument accepted; use --help for usage'')
          else Inr (case cl_arguments cl of [] \<Rightarrow> ''unix:'' @ ovs_rundir H @ ''/db.sock'' | db # _ \<Rightarrow> db,
            control_socket cl))"
  by (auto simp: parse_options_def option_loop_eq first_ending_def control_socket_def parse_database_def
      split: list.splits)

section \<open>What the requests come to\<close>

definition asks_exit :: "request list \<Rightarrow> bool" where
  "asks_exit reqs \<longleftrightarrow> Appctl ''exit'' \<in> set reqs"

text \<open>The reply to a request of a program that has started, in terms of the daemon's state.\<close>

fun answer :: "'b vland_env \<Rightarrow> 'b vland \<Rightarrow> request \<Rightarrow> reply" where
  "answer E s (Appctl name) =
     (if name = ''exit'' then Reply_Null
      else if name = ''ops-vland/dump'' then Reply (vland_debug_dump E s)
      else Library_Reply)"
| "answer E s (Diag_Dump_Basic feature) = Diag_Buffer (l2vlan_diag_dump_callback E s feature)"

definition started :: registry where
  "started = \<lparr> unixctl_commands = [(''ops-vland/dump'', Vland_Unixctl_Dump), (''exit'', Vland_Unixctl_Exit)],
     diag_basic = Some L2vlan_Diag_Dump_Callback \<rparr>"

lemma vland_init_eq: "vland_init E H db_path registered = (vland_ovsdb_init E (idl_create_seqno H db_path), started)"
  by (simp add: vland_init_def registered_def started_def unixctl_command_register_def)

lemma serve_request_eq:
  "serve_request E started s req exiting = (exiting \<or> req = Appctl ''exit'', answer E s req)"
  by (cases req) (auto simp: started_def vland_unixctl_exit_def vland_unixctl_dump_def)

lemma unixctl_server_run_eq:
  "unixctl_server_run E started s reqs exiting = (exiting \<or> asks_exit reqs, map (answer E s) reqs)"
  by (induction reqs arbitrary: exiting) (auto simp: serve_request_eq asks_exit_def Let_def)

text \<open>Without the replies, the loop is the daemon's main loop.\<close>

lemma serve_main_loop:
  "map_option (\<lambda>(ended, t, txs, _). (if ended then vland_ovsdb_exit t else t, txs)) (serve E started passes s) =
     vland_main_loop E (map (\<lambda>(inp, reqs). (inp, asks_exit reqs)) passes) s"
proof (induction passes arbitrary: s)
  case Nil
  then show ?case by simp
next
  case (Cons pass rest)
  obtain inp reqs where pass: "pass = (inp, reqs)" by fastforce
  show ?case
  proof (cases "vland_run E inp s")
    case None
    then show ?thesis by (simp add: pass)
  next
    case (Some r)
    then obtain t txs where "vland_run E inp s = Some (t, txs)" by (cases r) auto
    with Cons.IH [of t, symmetric] show ?thesis
      by (auto simp: pass unixctl_server_run_eq Let_def split: option.split)
  qed
qed

section \<open>Serving a well-behaved environment\<close>

text \<open>The systems after each run of a sequence of inputs.\<close>

fun sys_trace :: "'b vland_env \<Rightarrow> 'b sys \<Rightarrow> run_input list \<Rightarrow> 'b sys list" where
  "sys_trace E y [] = []"
| "sys_trace E y (inp # inps) =
     (case sys_after E inp y of None \<Rightarrow> [] | Some z \<Rightarrow> z # sys_trace E z inps)"

lemma sys_trace_length:
  "env_ok E \<Longrightarrow> vland_reach E y \<Longrightarrow> env_steps E y inps \<Longrightarrow> length (sys_trace E y inps) = length inps"
proof (induction inps arbitrary: y)
  case Nil
  then show ?case by simp
next
  case (Cons inp inps)
  then have step: "env_step E y inp" by simp
  obtain z where z: "sys_after E inp y = Some z" "vland_reach E z"
    by (rule sys_after_reach [OF Cons.prems(1,2) step]) blast
  with Cons show ?case by simp
qed

definition answers :: "'b vland_env \<Rightarrow> 'b sys \<Rightarrow> pass list \<Rightarrow> reply list list" where
  "answers E y passes =
     map2 (\<lambda>z (inp, reqs). map (answer E (daemon z)) reqs) (sys_trace E y (map fst passes)) passes"

lemma answers_length:
  assumes "env_ok E" and "vland_reach E y" and "env_steps E y (map fst passes)"
  shows "map length (answers E y passes) = map (length \<circ> snd) passes"
proof -
  have "map length (map2 (\<lambda>z (inp, reqs). map (answer E (daemon z)) reqs) zs ps) = map (length \<circ> snd) ps"
    if "length zs = length ps" for zs :: "'a sys list" and ps :: "pass list"
    using that by (induction zs ps rule: list_induct2) auto
  with sys_trace_length [OF assms] show ?thesis by (simp add: answers_def)
qed

lemma serve_until_exit:
  assumes env: "env_ok E" and exit: "asks_exit reqs"
  shows "vland_reach E y \<Longrightarrow> env_steps E y (map fst passes @ [inp]) \<Longrightarrow>
    \<forall>(inp, reqs) \<in> set passes. \<not> asks_exit reqs \<Longrightarrow>
    \<exists>z txs. serve E started (passes @ (inp, reqs) # rest) (daemon y) =
        Some (True, daemon z, txs, answers E y (passes @ [(inp, reqs)])) \<and>
      sys_trace E y (map fst passes @ [inp]) \<noteq> [] \<and> last (sys_trace E y (map fst passes @ [inp])) = z \<and>
      vland_reach E z \<and> server z = server_after txs (server y)"
proof (induction passes arbitrary: y)
  case Nil
  then have step: "env_step E y inp" by simp
  obtain z s' txs where "sys_after E inp y = Some z" "vland_reach E z"
    "vland_run E inp (daemon y) = Some (s', txs)" "daemon z = s'" "server z = server_after txs (server y)"
    by (rule sys_after_reach [OF env Nil(1) step])
  with exit show ?case by (auto simp: unixctl_server_run_eq answers_def)
next
  case (Cons pass passes)
  obtain i rs where pass: "pass = (i, rs)" by fastforce
  from Cons.prems have step: "env_step E y i" and rs: "\<not> asks_exit rs" by (simp_all add: pass)
  obtain z s' txs where z: "sys_after E i y = Some z" "vland_reach E z"
    "vland_run E i (daemon y) = Some (s', txs)" "daemon z = s'" "server z = server_after txs (server y)"
    by (rule sys_after_reach [OF env Cons.prems(1) step])
  from Cons.prems z(1) have "env_steps E z (map fst passes @ [inp])" "\<forall>(inp, reqs) \<in> set passes. \<not> asks_exit reqs"
    by (simp_all add: pass)
  from Cons.IH [OF z(2) this] obtain w txs' where
    w: "serve E started (passes @ (inp, reqs) # rest) (daemon z) =
        Some (True, daemon w, txs', answers E z (passes @ [(inp, reqs)]))"
      "sys_trace E z (map fst passes @ [inp]) \<noteq> []" "last (sys_trace E z (map fst passes @ [inp])) = w"
      "vland_reach E w" "server w = server_after txs' (server z)" by blast
  with z rs show ?case
    by (intro exI [of _ w] exI [of _ "txs @ txs'"])
      (simp add: pass unixctl_server_run_eq answers_def server_after_append)
qed

end
