(* ===== verification/Vland_Typing.thy ===== *)
theory Vland_Typing
  imports Vland_Main
begin

text \<open>
  A type discipline for the daemon (\<^verbatim>\<open>src/vland_ovsdb_if.c\<close>): its writes are of the types of
  their columns (\<open>Column_Types\<close>), and every cached port and VLAN keeps a shape. Both hold after every
  run, whatever the replica and the outcomes of the commits, as long as the run returns.
\<close>

section \<open>Types of the cached data\<close>

text \<open>
  The pairs of state and reason a VLAN can have: the ones it is created with, up for reason
  \<open>ok\<close>, and for the other reasons down, or up for the default VLAN.
\<close>

inductive oper_typing :: "int \<Rightarrow> vlan_oper_state \<Rightarrow> vlan_oper_state_reason \<Rightarrow> bool" for vid where
  fresh: "oper_typing vid VLAN_OPER_STATE_UNKNOWN VLAN_OPER_STATE_REASON_UNKNOWN"
| fine: "oper_typing vid VLAN_OPER_STATE_UP VLAN_OPER_STATE_REASON_OK"
| shut: "oper_typing vid (if vid = DEFAULT_VID then VLAN_OPER_STATE_UP else VLAN_OPER_STATE_DOWN)
    VLAN_OPER_STATE_REASON_ADMIN_DOWN"
| empty: "oper_typing vid (if vid = DEFAULT_VID then VLAN_OPER_STATE_UP else VLAN_OPER_STATE_DOWN)
    VLAN_OPER_STATE_REASON_NO_MEMBER_PORT"

inductive_cases oper_typingE: "oper_typing vid st r"

definition vlan_typed :: "string \<Rightarrow> vlan_data \<Rightarrow> bool" where
  "vlan_typed k v \<longleftrightarrow> vd_name v = k \<and> VALID_VID (vd_vid v) \<and>
     oper_typing (vd_vid v) (vd_op_state v) (vd_op_state_reason v)"

text \<open>
  A port in trunk mode has no native VLAN; a port in access mode never trunks all VLANs, and
  its bitmap holds at most its own, valid VLAN.
\<close>

definition port_typed :: "'b vland_env \<Rightarrow> string \<Rightarrow> 'b port_data \<Rightarrow> bool" where
  "port_typed E k p \<longleftrightarrow> pd_name p = k \<and> k \<noteq> DEFAULT_BRIDGE_NAME \<and>
     (pd_vlan_mode p = PORT_VLAN_MODE_TRUNK \<longrightarrow> pd_native_vid p = -1) \<and>
     (pd_vlan_mode p = PORT_VLAN_MODE_ACCESS \<longrightarrow> \<not> pd_trunk_all_vlans p \<and>
        (\<forall>i \<in> port_bits E p. int i = pd_native_vid p \<and> VALID_VID (int i)))"

definition state_typed :: "'b vland_env \<Rightarrow> 'b vland \<Rightarrow> bool" where
  "state_typed E s \<longleftrightarrow>
     shash_ok (all_ports s) \<and> (\<forall>(k, p) \<in> set (all_ports s). port_typed E k p) \<and>
     shash_ok (all_vlans s) \<and> (\<forall>(k, v) \<in> set (all_vlans s). vlan_typed k v) \<and>
     (\<forall>i \<in> bits (bmp E) (all_vlans_bitmap s). VALID_VID (int i)) \<and>
     (\<forall>w \<in> set (txn_writes s). well_typed w)"

text \<open>What the schema guarantees of the ids of a replica, however its rows change.\<close>

definition ids_typed :: "ovsdb \<Rightarrow> bool" where
  "ids_typed db \<longleftrightarrow> (\<forall>row \<in> set (vlans db). VALID_VID (v_id row))"

section \<open>Every operation keeps the types\<close>

lemma state_typedD:
  assumes "state_typed E s"
  shows "shash_ok (all_ports s)" "(k, p) \<in> set (all_ports s) \<Longrightarrow> port_typed E k p"
    "shash_ok (all_vlans s)" "(k, v) \<in> set (all_vlans s) \<Longrightarrow> vlan_typed k v"
    "i \<in> bits (bmp E) (all_vlans_bitmap s) \<Longrightarrow> VALID_VID (int i)"
    "w \<in> set (txn_writes s) \<Longrightarrow> well_typed w"
  using assms unfolding state_typed_def by auto

lemma find_data_set: "shash_find_data sh k = Some x \<Longrightarrow> (k, x) \<in> set sh"
  by (simp add: shash_find_data_def map_of_SomeD)

lemma set_shash_put: "n \<in> set (shash_put k x sh) \<Longrightarrow> n = (k, x) \<or> n \<in> set sh"
  by (auto simp: shash_put_def split: if_splits)

lemma set_shash_delete: "n \<in> set (shash_delete k sh) \<Longrightarrow> n \<in> set sh"
  by (simp add: shash_delete_def)

lemma set_shash_add_once: "n \<in> set (snd (shash_add_once rank k x sh)) \<Longrightarrow> n = (k, x) \<or> n \<in> set sh"
  by (auto simp: shash_add_once_def split: if_splits)

lemma typed_ports:
  "state_typed E s \<Longrightarrow> shash_ok ps \<Longrightarrow> (\<And>k p. (k, p) \<in> set ps \<Longrightarrow> port_typed E k p) \<Longrightarrow>
     state_typed E (s\<lparr>all_ports := ps\<rparr>)"
  by (auto simp: state_typed_def)

lemma typed_vlans:
  "state_typed E s \<Longrightarrow> shash_ok vs \<Longrightarrow> (\<And>k v. (k, v) \<in> set vs \<Longrightarrow> vlan_typed k v) \<Longrightarrow>
     state_typed E (s\<lparr>all_vlans := vs\<rparr>)"
  by (auto simp: state_typed_def)

lemma typed_flags [simp]:
  "state_typed E (s\<lparr>idl_seqno := n\<rparr>) = state_typed E s"
  "state_typed E (s\<lparr>default_vlan_created := b\<rparr>) = state_typed E s"
  "state_typed E (s\<lparr>system_configured := b\<rparr>) = state_typed E s"
  by (simp_all add: state_typed_def)

lemma typed_clear: "state_typed E s \<Longrightarrow> state_typed E (s\<lparr>txn_writes := []\<rparr>)"
  by (simp add: state_typed_def)

lemma typed_put_vlan: "state_typed E s \<Longrightarrow> vlan_typed k v \<Longrightarrow> state_typed E (put_vlan k v s)"
  unfolding put_vlan_def
  by (rule typed_vlans) (auto dest!: set_shash_put intro: sd.ok_put state_typedD)

lemma typed_put_port: "state_typed E s \<Longrightarrow> port_typed E k p \<Longrightarrow> state_typed E (put_port k p s)"
  unfolding put_port_def
  by (rule typed_ports) (auto dest!: set_shash_put intro: sd.ok_put state_typedD)

lemma typed_lookup: "state_typed E s \<Longrightarrow> vlan_lookup_by_vid s vid = Some (k, v) \<Longrightarrow> vlan_typed k v"
  by (auto dest: vlan_lookup_by_vid_SomeD intro: state_typedD)

text \<open>The membership pass touches only ports that trunk all VLANs, so no port in access mode.\<close>

lemma typed_rebit:
  "port_typed E k p \<Longrightarrow> pd_trunk_all_vlans p \<Longrightarrow> port_typed E k (p\<lparr>pd_vlans_bitmap := b\<rparr>)"
  by (simp add: port_typed_def)

lemma typed_map_ports:
  assumes "state_typed E s" and "\<And>k p. port_typed E k p \<Longrightarrow> port_typed E k (f p)"
  shows "state_typed E (s\<lparr>all_ports := map (\<lambda>(k, p). (k, f p)) (all_ports s)\<rparr>)"
proof (rule typed_ports [OF assms(1)])
  have "map fst (map (\<lambda>(k, p). (k, f p)) (all_ports s)) = map fst (all_ports s)" by auto
  then show "shash_ok (map (\<lambda>(k, p). (k, f p)) (all_ports s))"
    using state_typedD(1) [OF assms(1)] by (simp only: shash_ok_def)
qed (use assms(2) state_typedD(2) [OF assms(1)] in auto)

lemma typed_add_trunked: "port_typed E k p \<Longrightarrow> port_typed E k (add_trunked_vlan E db vid p)"
  by (simp add: add_trunked_vlan_def typed_rebit)

lemma typed_untrunk: "port_typed E k p \<Longrightarrow> port_typed E k (untrunk_vlan E vid p)"
  by (simp add: untrunk_vlan_def typed_rebit)

lemma typed_membership:
  assumes "update_vlan_membership E db v s = (v', s')" and "state_typed E s"
  shows "state_typed E s'" and "vlan_typed k v \<Longrightarrow> vlan_typed k v'"
  using assms(1) typed_map_ports [OF assms(2) typed_add_trunked]
  by (auto simp: update_vlan_membership_eq vlan_typed_def)

lemma oper_table_typed:
  "oper_typing vid (fst (oper_table vid adm m)) (snd (oper_table vid adm m)) \<and>
   fst (oper_table vid adm m) \<noteq> VLAN_OPER_STATE_UNKNOWN \<and>
   snd (oper_table vid adm m) \<noteq> VLAN_OPER_STATE_REASON_UNKNOWN"
  using oper_typing.intros [of vid] by (cases adm) (auto simp: oper_table_def)

lemma state_writes_typed:
  "vd_op_state v \<noteq> VLAN_OPER_STATE_UNKNOWN \<Longrightarrow> vd_op_state_reason v \<noteq> VLAN_OPER_STATE_REASON_UNKNOWN \<Longrightarrow>
     w \<in> set (state_writes r v) \<Longrightarrow> well_typed w"
  by (cases "vd_op_state v"; cases "vd_op_state_reason v") (auto simp: state_writes_def)

lemma handle_vlan_config_typed:
  assumes "handle_vlan_config U db row v = Some (n, v', ws)" and "vlan_typed k v"
  shows "vlan_typed k v' \<and> (\<forall>w \<in> set ws. well_typed w)"
proof -
  let ?t = "oper_table (vd_vid v) (vd_admin v) (effective_member U db v)"
  from assms(1) obtain r where r: "deref_vlan db row = Some r"
    using handle_vlan_config_None [of U db row v] by (cases "deref_vlan db row") simp_all
  note T = oper_table_typed [of "vd_vid v" "vd_admin v" "effective_member U db v"]
  let ?v = "v\<lparr>vd_any_member_exists := effective_member U db v, vd_op_state := fst ?t,
    vd_op_state_reason := snd ?t\<rparr>"
  have "\<forall>w \<in> set (state_writes row ?v). well_typed w"
    using T by (auto intro: state_writes_typed [of ?v])
  with assms(1) [unfolded handle_vlan_config_eq [OF r] Let_def] assms(2) T show ?thesis
    by (auto simp: vlan_typed_def split: if_splits)
qed

lemma typed_configure:
  assumes "configure_vlan E db row k v s = Some (n, s')" and "state_typed E s" and "vlan_typed k v"
  shows "state_typed E s'"
proof -
  from assms(1) obtain v' ws where h: "handle_vlan_config (ops E) db row v = Some (n, v', ws)"
    and s': "s' = (put_vlan k v' s)\<lparr>txn_writes := txn_writes s @ ws\<rparr>"
    by (auto simp: configure_vlan_def split: option.splits prod.splits)
  from handle_vlan_config_typed [OF h assms(3)] have "vlan_typed k v'" "\<forall>w \<in> set ws. well_typed w" by auto
  with typed_put_vlan [OF assms(2), of k v'] show ?thesis
    by (auto simp: s' state_typed_def frame_simps)
qed

section \<open>The port half\<close>

lemma typed_refresh_after_delete:
  assumes "refresh_after_delete E db vid st = Some st'" and "state_typed E (snd st)"
  shows "state_typed E (snd st')"
proof -
  obtain rc s where st: "st = (rc, s)" by fastforce
  show ?thesis
  proof (cases "vlan_lookup_by_vid s (int vid)")
    case None
    with assms show ?thesis by (simp add: st refresh_after_delete_def)
  next
    case (Some n)
    then obtain k v where l: "vlan_lookup_by_vid s (int vid) = Some (k, v)" by (cases n) auto
    obtain v' t where m: "update_vlan_membership E db v s = (v', t)" by fastforce
    from assms(2) have s: "state_typed E s" by (simp add: st)
    note T = typed_membership(1) [OF m s] typed_membership(2) [OF m s typed_lookup [OF s l]]
    from assms(1) l m show ?thesis
      by (auto simp: st refresh_after_delete_def split: option.splits dest: typed_configure [OF _ T])
  qed
qed

lemma typed_refresh_vlan_row:
  assumes "refresh_vlan_row E db vid row st = Some st'" and "state_typed E (snd st)"
  shows "state_typed E (snd st')"
proof -
  obtain rc s where st: "st = (rc, s)" by fastforce
  show ?thesis
  proof (cases "vlan_lookup_by_vid s (int vid)")
    case None
    with assms show ?thesis by (auto simp: st refresh_vlan_row_def split: if_splits)
  next
    case (Some n)
    then obtain k v where l: "vlan_lookup_by_vid s (int vid) = Some (k, v)" by (cases n) auto
    obtain v' t where m: "update_vlan_membership E db v s = (v', t)" by fastforce
    from assms(2) have s: "state_typed E s" by (simp add: st)
    note T = typed_membership(1) [OF m s] typed_membership(2) [OF m s typed_lookup [OF s l]]
    from assms l m show ?thesis
      by (auto simp: st refresh_vlan_row_def split: option.splits if_splits
          dest: typed_configure [OF _ T] intro: typed_put_vlan [OF T])
  qed
qed

lemma typed_foldM:
  assumes "foldM f xs st = Some st'" and "state_typed E (snd st)"
    and "\<And>x a b. f x a = Some b \<Longrightarrow> state_typed E (snd a) \<Longrightarrow> state_typed E (snd b)"
  shows "state_typed E (snd st')"
  using assms(1) by (rule foldM_result_inv) (use assms(2,3) in auto)

lemma typed_foldl:
  assumes "state_typed E s" and "\<And>x t. x \<in> set xs \<Longrightarrow> state_typed E t \<Longrightarrow> state_typed E (f t x)"
  shows "state_typed E (foldl f s xs)"
  by (rule foldl_prefix [where I = "\<lambda>_. state_typed E"]) (use assms in auto)

lemma typed_refresh_after_update:
  "refresh_after_update E db vid st = Some st' \<Longrightarrow> state_typed E (snd st) \<Longrightarrow> state_typed E (snd st')"
  unfolding refresh_after_update_def by (erule typed_foldM, assumption) (rule typed_refresh_vlan_row)

lemma typed_construct:
  assumes env: "env_ok E" and "port_typed E k p"
  shows "port_typed E k (construct_vlan_bitmap E db b row p)"
  using assms(2) by (auto simp: port_typed_def construct_vlan_bitmap_fields construct_vlan_bitmap_bits [OF env]
      row_trunks_all_def row_lists_def row_native_vid_def)

lemma typed_update_port:
  assumes env: "env_ok E" and "update_port E db idl k st = Some st'" and "state_typed E (snd st)"
  shows "state_typed E (snd st')"
proof -
  obtain rc s where st: "st = (rc, s)" by fastforce
  from assms(2) obtain row p where rp: "shash_find_data idl k = Some row" "port_at s k = Some p"
    by (auto simp: st update_port_def split: option.splits)
  from assms(3) have s: "state_typed E s" by (simp add: st)
  let ?p = "construct_vlan_bitmap E db (all_vlans_bitmap s) row p"
  have p': "state_typed E (put_port k ?p s)"
    by (rule typed_put_port [OF s typed_construct [OF env state_typedD(2) [OF s find_data_set [OF rp(2)]]]])
  have "state_typed E (snd st')"
    if "foldM (refresh_after_update E db) vids (rc, put_port k ?p s) = Some st'" for vids
    using that by (rule typed_foldM) (use p' typed_refresh_after_update in auto)
  with assms(2,3) rp show ?thesis by (auto simp: st update_port_def Let_def split: if_splits)
qed

lemma typed_del_old_port:
  assumes "del_old_port E db k s = Some (n, s')" and "state_typed E s"
  shows "state_typed E s'"
proof (cases "port_at s k")
  case None
  with assms show ?thesis by (simp add: del_old_port_def)
next
  case (Some p)
  have "state_typed E (s\<lparr>all_ports := shash_delete k (all_ports s)\<rparr>)"
    by (rule typed_ports [OF assms(2)])
      (auto dest!: set_shash_delete intro: sd.ok_delete state_typedD [OF assms(2)])
  moreover from assms(1) Some have "foldM (refresh_after_delete E db)
      (bitmap_ones (bmp E) (bitmap_size E) (pd_vlans_bitmap p))
      (0, s\<lparr>all_ports := shash_delete k (all_ports s)\<rparr>) = Some (n, s')"
    by (simp add: del_old_port_def)
  ultimately show ?thesis
    using typed_foldM [of "refresh_after_delete E db" _ _ "(n, s')" E] typed_refresh_after_delete by fastforce
qed

lemma typed_delete_stale_ports:
  assumes "delete_stale_ports E db idl s = Some st'" and "state_typed E s"
  shows "state_typed E (snd st')"
  using assms(1) unfolding delete_stale_ports_def
proof (rule typed_foldM)
  fix k :: string and a b :: "nat \<times> 'a vland"
  assume "(case a of (rc, s) \<Rightarrow> case shash_find_data idl k of
      Some row \<Rightarrow> Some (rc, s)
    | None \<Rightarrow> (case del_old_port E db k s of
         None \<Rightarrow> None | Some (n, s) \<Rightarrow> Some (if n \<noteq> 0 then Suc rc else rc, s))) = Some b"
    and "state_typed E (snd a)"
  then show "state_typed E (snd b)"
    by (cases a) (auto dest: typed_del_old_port split: option.splits prod.splits)
qed (simp add: assms(2))

lemma typed_new_port:
  "env_ok E \<Longrightarrow> p_name row \<noteq> DEFAULT_BRIDGE_NAME \<Longrightarrow> port_typed E (p_name row) (new_port_data E row)"
  by (simp add: port_typed_def new_port_data_def bitmap_size_def bitmap_simps)

lemma typed_add_new_port:
  assumes "env_ok E" and "state_typed E s" and "p_name row \<noteq> DEFAULT_BRIDGE_NAME"
  shows "state_typed E (add_new_port E row s)"
  unfolding add_new_port_def
  by (rule typed_ports [OF assms(2)])
    (auto dest!: set_shash_add_once intro: sd.ok_add state_typedD [OF assms(2)] typed_new_port [OF assms(1,3)])

lemma typed_add_missing_ports:
  assumes "env_ok E" and "\<forall>(k, row) \<in> set idl. p_name row = k" and "state_typed E s"
  shows "state_typed E (add_missing_ports E idl s)"
proof -
  have add: "state_typed E (add_new_port E row t)"
    if "(k, row) \<in> set idl" "k \<noteq> DEFAULT_BRIDGE_NAME" "state_typed E t" for k row t
    using assms(2) that by (intro typed_add_new_port [OF assms(1)]) auto
  show ?thesis
    unfolding add_missing_ports_def
    by (intro typed_foldl [OF assms(3)]) (auto intro: add)
qed

lemma typed_update_port_cache:
  assumes env: "env_ok E" and "update_port_cache E db s = Some st'" and "state_typed E s"
  shows "state_typed E (snd st')"
proof -
  let ?idl = "collect_ports (hash_rank E) (ports db)"
  from assms(2) obtain rc s1 where d: "delete_stale_ports E db ?idl s = Some (rc, s1)"
    and u: "update_changed_ports E db ?idl (rc, add_missing_ports E ?idl s1) = Some st'"
    by (auto simp: update_port_cache_def Let_def split: option.splits)
  have "state_typed E (add_missing_ports E ?idl s1)"
    using typed_delete_stale_ports [OF d assms(3)]
    by (intro typed_add_missing_ports [OF env]) (auto dest: collect_ports_nodes)
  with u show ?thesis
    unfolding update_changed_ports_def by (intro typed_foldM [OF u [unfolded update_changed_ports_def]])
      (auto dest: typed_update_port [OF env])
qed

section \<open>The VLAN half\<close>

lemma typed_parse: "VALID_VID (v_id row) \<Longrightarrow> vlan_typed (v_name row) (parse_vlan_data row)"
  by (simp add: vlan_typed_def parse_vlan_data_def oper_typing.fresh)

lemma typed_add_new_vlan:
  assumes env: "env_ok E" and s: "state_typed E s" and vid: "VALID_VID (v_id row)"
  shows "state_typed E (add_new_vlan E db row s)"
proof -
  obtain added sh where sh: "shash_add_once (hash_rank E) (v_name row) (parse_vlan_data row) (all_vlans s) = (added, sh)"
    by fastforce
  let ?t = "s\<lparr>all_vlans := sh, all_vlans_bitmap :=
    bitmap_set (bmp E) (all_vlans_bitmap s) (c_size_t (vd_vid (parse_vlan_data row))) True\<rparr>"
  obtain v u where m: "update_vlan_membership E db (parse_vlan_data row) ?t = (v, u)" by fastforce
  have "shash_ok sh" "\<forall>(k, v) \<in> set sh. vlan_typed k v"
    using set_shash_add_once [of _ "hash_rank E" "v_name row" "parse_vlan_data row" "all_vlans s"]
      sd.ok_add [OF state_typedD(3) [OF s], of "hash_rank E" "v_name row" "parse_vlan_data row"]
      state_typedD(4) [OF s] typed_parse [OF vid] by (auto simp: sh)
  moreover have "vd_vid (parse_vlan_data row) = v_id row" using vid by (simp add: parse_vlan_data_def)
  moreover have "bits (bmp E) (bitmap_set (bmp E) (all_vlans_bitmap s) (nat (v_id row)) True) =
      insert (nat (v_id row)) (bits (bmp E) (all_vlans_bitmap s))"
    using bits_set [OF env valid_vid_size [OF env vid], of "all_vlans_bitmap s" True] by simp
  ultimately have t: "state_typed E ?t"
    using s vid by (auto simp: state_typed_def VALID_VID_def)
  from typed_membership(1) [OF m t] typed_membership(2) [OF m t typed_parse [OF vid]]
  have "state_typed E (put_vlan (v_name row) v u)" by (rule typed_put_vlan)
  with m s sh show ?thesis by (simp add: add_new_vlan_def Let_def)
qed

lemma typed_del_old_vlan:
  assumes env: "env_ok E" and s: "state_typed E s"
  shows "state_typed E (del_old_vlan E k s)"
proof (cases "vlan_at s k")
  case None
  with s show ?thesis by (simp add: del_old_vlan_def)
next
  case (Some v)
  then have v: "VALID_VID (vd_vid v)"
    using state_typedD(4) [OF s find_data_set] by (auto simp: vlan_typed_def)
  let ?ps = "map (\<lambda>(k, p). (k, untrunk_vlan E (vd_vid v) p)) (all_ports s)"
  from typed_map_ports [OF s typed_untrunk] have "state_typed E (s\<lparr>all_ports := ?ps\<rparr>)" .
  moreover have "shash_ok (shash_delete k (all_vlans s))" by (rule sd.ok_delete [OF state_typedD(3) [OF s]])
  moreover have "bits (bmp E) (bitmap_set (bmp E) (all_vlans_bitmap s) (nat (vd_vid v)) False) \<subseteq>
      bits (bmp E) (all_vlans_bitmap s)"
    using bits_set [OF env valid_vid_size [OF env v], of "all_vlans_bitmap s" False] by auto
  ultimately show ?thesis
    using Some v by (auto simp: state_typed_def del_old_vlan_def dest!: set_shash_delete)
qed

lemma typed_delete_stale_vlans:
  assumes "env_ok E" and "state_typed E s"
  shows "state_typed E (delete_stale_vlans E idl s)"
  unfolding delete_stale_vlans_def
  by (rule typed_foldl [OF assms(2)]) (auto intro: typed_del_old_vlan [OF assms(1)] split: option.splits)

lemma typed_add_missing_vlans:
  assumes "env_ok E" and "\<forall>(k, row) \<in> set idl. VALID_VID (v_id row)" and "state_typed E s"
  shows "state_typed E (add_missing_vlans E db idl s)"
proof -
  have add: "state_typed E (add_new_vlan E db row t)"
    if "(k, row) \<in> set idl" "state_typed E t" for k row t
    using assms(2) that by (intro typed_add_new_vlan [OF assms(1)]) auto
  show ?thesis
    unfolding add_missing_vlans_def
    by (intro typed_foldl [OF assms(3)])
      (auto intro: add split: option.splits)
qed

lemma typed_update_vlan:
  assumes "update_vlan E db idl k st = Some st'" and "state_typed E (snd st)"
  shows "state_typed E (snd st')"
proof -
  obtain rc s where st: "st = (rc, s)" by fastforce
  from assms(1) obtain row v where v: "shash_find_data idl k = Some row" "vlan_at s k = Some v"
    by (auto simp: st update_vlan_def split: option.splits)
  from assms(2) have s: "state_typed E s" by (simp add: st)
  have "vlan_typed k (v\<lparr>vd_admin := a\<rparr>)" for a
    using state_typedD(4) [OF s find_data_set [OF v(2)]] by (simp add: vlan_typed_def)
  with assms(1) s v show ?thesis
    by (auto simp: st update_vlan_def split: if_splits option.splits intro: typed_configure)
qed

lemma typed_update_vlan_cache:
  assumes env: "env_ok E" and ids: "ids_typed db" and "update_vlan_cache E db s = Some st'" and "state_typed E s"
  shows "state_typed E (snd st')"
proof -
  let ?idl = "collect_vlans (hash_rank E) (vlans db)"
  let ?t = "add_missing_vlans E db ?idl (delete_stale_vlans E ?idl s)"
  from assms(3) have f: "foldM (update_vlan E db ?idl) (shash_nodes (all_vlans ?t)) (0, ?t) = Some st'"
    by (simp add: update_vlan_cache_def update_changed_vlans_def Let_def)
  have "state_typed E ?t"
    using ids by (intro typed_add_missing_vlans [OF env] typed_delete_stale_vlans [OF env assms(4)])
      (auto simp: ids_typed_def dest: collect_vlans_nodes)
  then show ?thesis by (intro typed_foldM [OF f]) (auto dest: typed_update_vlan)
qed

section \<open>A run and the whole loop\<close>

lemma typed_reconfigure:
  assumes "env_ok E" and "ids_typed db" and "vland_reconfigure E db s = Some (rc, s')" and "state_typed E s"
  shows "state_typed E s'"
proof (cases "seqno db = idl_seqno s")
  case True
  with assms(3,4) show ?thesis by (simp add: vland_reconfigure_def)
next
  case False
  with assms(3) obtain n s1 m s2 where u: "update_port_cache E db s = Some (n, s1)"
    "update_vlan_cache E db s1 = Some (m, s2)" "s' = s2\<lparr>idl_seqno := seqno db\<rparr>"
    by (auto simp: vland_reconfigure_def Let_def split: option.splits prod.splits if_splits)
  from typed_update_vlan_cache [OF assms(1,2) u(2)] typed_update_port_cache [OF assms(1) u(1) assms(4)] u(3)
  show ?thesis by simp
qed

lemma state_typed_same:
  "same_caches s t \<and> txn_writes t = txn_writes s \<Longrightarrow> state_typed E t = state_typed E s"
  by (simp add: state_typed_def same_caches_def)

text \<open>The replicas of a pass: the one it starts from and the one after the default VLAN's commit.\<close>

definition input_typed :: "run_input \<Rightarrow> bool" where
  "input_typed inp \<longleftrightarrow> ids_typed (ri_replica inp) \<and> ids_typed (ri_after_commit inp)"

definition committed_typed :: "committed \<Rightarrow> bool" where
  "committed_typed txs \<longleftrightarrow> (\<forall>(ws, st) \<in> set txs. \<forall>w \<in> set ws. well_typed w)"

lemma committed_typed_simps [simp]:
  "committed_typed []" "committed_typed (txs @ txs') \<longleftrightarrow> committed_typed txs \<and> committed_typed txs'"
  "committed_typed [(ws, st)] \<longleftrightarrow> (\<forall>w \<in> set ws. well_typed w)"
  by (auto simp: committed_typed_def)

lemma default_vlan_writes_typed: "w \<in> set (default_vlan_writes r b) \<Longrightarrow> well_typed w"
  by (auto simp: default_vlan_writes_def DEFAULT_VID_def VALID_VID_def)

lemma prepare_typed:
  assumes "vland_prepare inp s = (t, Some (db, txs))" and "input_typed inp"
  shows "ids_typed db" and "committed_typed txs"
  using assms
  by (auto simp: vland_prepare_def create_default_vlan_def Let_def input_typed_def
      default_vlan_writes_typed split: if_splits option.splits)

lemma typed_run:
  assumes env: "env_ok E" and "vland_run E inp s = Some (s', txs)" and "input_typed inp" and "state_typed E s"
  shows "state_typed E s' \<and> committed_typed txs"
proof -
  obtain t act where p: "vland_prepare inp s = (t, act)" by fastforce
  have t: "state_typed E t" using state_typed_same [OF vland_prepare_caches [OF p]] assms(4) by simp
  show ?thesis
  proof (cases act)
    case None
    with assms(2) p t show ?thesis by (auto simp: vland_run_def)
  next
    case (Some a)
    then obtain db txs0 where act: "act = Some (db, txs0)" by (cases a) auto
    with assms(2) p obtain rc u where r: "vland_reconfigure E db (t\<lparr>txn_writes := []\<rparr>) = Some (rc, u)"
      and s': "s' = u\<lparr>txn_writes := []\<rparr>"
      and txs: "txs = (if rc \<noteq> 0 then txs0 @ [(txn_writes u, ri_commit inp (txn_writes u))] else txs0)"
      by (auto simp: vland_run_def split: option.splits)
    note P = prepare_typed [OF p [unfolded act] assms(3)]
    from typed_reconfigure [OF env P(1) r typed_clear [OF t]] have u: "state_typed E u" .
    with P(2) state_typedD(6) [OF u] show ?thesis by (auto simp: s' txs intro: typed_clear)
  qed
qed

lemma typed_init: "env_ok E \<Longrightarrow> state_typed E (vland_ovsdb_init E n)"
  by (simp add: state_typed_def vland_ovsdb_init_def bitmap_size_def bitmap_simps)

lemma typed_exit: "state_typed E s \<Longrightarrow> state_typed E (vland_ovsdb_exit s)"
  by (simp add: state_typed_def vland_ovsdb_exit_def)

lemma typed_main_loop:
  assumes "env_ok E"
  shows "vland_main_loop E passes s = Some (s', txs) \<Longrightarrow> \<forall>(inp, exiting) \<in> set passes. input_typed inp \<Longrightarrow>
    state_typed E s \<Longrightarrow> state_typed E s' \<and> committed_typed txs"
proof (induction passes arbitrary: s s' txs)
  case Nil
  then show ?case by simp
next
  case (Cons pass rest)
  obtain inp exiting where pass: "pass = (inp, exiting)" by fastforce
  from Cons.prems(1) obtain t txs1 where r: "vland_run E inp s = Some (t, txs1)"
    by (auto simp: pass split: option.splits)
  from Cons.prems(2) have inp: "input_typed inp" and rest: "\<forall>(inp, exiting) \<in> set rest. input_typed inp"
    by (simp_all add: pass)
  from typed_run [OF assms r inp Cons.prems(3)] have t: "state_typed E t" "committed_typed txs1" by simp_all
  show ?case
  proof (cases exiting)
    case True
    with Cons.prems(1) r t typed_exit [OF t(1)] show ?thesis by (auto simp: pass)
  next
    case False
    with Cons.prems(1) r obtain u txs2 where l: "vland_main_loop E rest t = Some (u, txs2)" "s' = u" "txs = txs1 @ txs2"
      by (auto simp: pass split: option.splits)
    from Cons.IH [OF l(1) rest t(1)] t(2) l(2,3) show ?thesis by simp
  qed
qed

end
