(* ===== verification/Process_Properties.thy ===== *)
theory Process_Properties
  imports Daemon_Example Vland_Startup Vland_Typing
begin

text \<open>
  The properties of the daemon's process as a whole (\<^verbatim>\<open>main\<close> of \<^verbatim>\<open>src/vland.c\<close>): it serves until
  it is told to exit, it ends early exactly on a bad command line, and all it ever caches or writes
  is well-typed. Each is followed by an instance on a concrete host.
\<close>

section \<open>A concrete host\<close>

text \<open>One library option, which ends the process with status 2, as a bad log level might.\<close>

definition ex_host :: "unit host" where
  "ex_host = \<lparr> program_name = ''ops-vland'', daemon_usage = '''', vlog_usage = '''',
     library_option = (\<lambda>_. Some (Exit_Status 2)), ovs_rundir = ''/run'',
     unixctl_server_create = (\<lambda>path. if path = Some ''/bad'' then 2 else 0), idl_create_seqno = (\<lambda>_. 0) \<rparr>"

definition ex_line :: "unit command_line" where
  "ex_line = \<lparr> cl_options = [Opt_Unixctl ''/a'', Opt_Unixctl ''/b''], cl_arguments = [''unix:db''] \<rparr>"

lemma ex_line_parses: "parse_options ex_host ex_line = Inr (''unix:db'', Some ''/b'')"
  by (simp add: parse_options_def ex_line_def parse_database_def)

lemma ex_input1_typed: "input_typed (ex_input ex_db1 TXN_SUCCESS)"
  by (simp add: input_typed_def ids_typed_def ex_input_def ex_db1_def ex_db_def ex_vlan_def VALID_VID_def Let_def)

section \<open>Serving\<close>

text \<open>
  C3: A process whose command line is in order and whose control socket opens serves every pass of a
  well-behaved environment until the one in which it is asked to exit, whatever would follow. It
  answers every request of every pass, the dumps with the state after the run of that pass. Then
  \<^verbatim>\<open>main\<close> returns 0 with its caches released, and the server's columns of every VLAN row (L3 ports
  apart) are what the specification reads off the replica the daemon processed last.
\<close>
theorem vland_main_serves:
  fixes E :: "'b vland_env"
  assumes "env_ok E" and "parse_options H cl = Inr (sock, path)" and "unixctl_server_create H path = 0"
    and y: "y = \<lparr> daemon = vland_ovsdb_init E (idl_create_seqno H sock), seen = empty_db, server = c \<rparr>"
    and "env_steps E y (map fst passes @ [inp])"
    and "\<forall>(inp, reqs) \<in> set passes. \<not> asks_exit reqs" and "asks_exit reqs"
  shows "\<exists>s txs. vland_main E H cl (passes @ (inp, reqs) # rest) =
      Returned 0 s txs (answers E y (passes @ [(inp, reqs)])) \<and>
    map length (answers E y (passes @ [(inp, reqs)])) = map (length \<circ> snd) (passes @ [(inp, reqs)]) \<and>
    all_ports s = [] \<and> all_vlans s = [] \<and>
    (let db = seen (last (sys_trace E y (map fst passes @ [inp]))) in
     \<forall>row \<in> set (vlans db). \<not> l3_internal row \<longrightarrow>
       server_after txs c (v_row row) = spec_columns (ops E) db row)"
proof -
  have boot: "vland_reach E y" unfolding y by (rule vland_reach.boot)
  have srv: "server y = c" by (simp add: y)
  from serve_until_exit [OF assms(1,7) boot assms(5,6), of rest, unfolded srv] obtain z txs where
    z: "serve E started (passes @ (inp, reqs) # rest) (daemon y) =
        Some (True, daemon z, txs, answers E y (passes @ [(inp, reqs)]))"
      "last (sys_trace E y (map fst passes @ [inp])) = z" "vland_reach E z" "server z = server_after txs c"
    by blast
  have "vland_main E H cl (passes @ (inp, reqs) # rest) =
      Returned 0 (vland_exit (daemon z)) txs (answers E y (passes @ [(inp, reqs)]))"
    using z(1) by (simp add: vland_main_def assms(2,3) vland_init_eq y)
  moreover have "map length (answers E y (passes @ [(inp, reqs)])) = map (length \<circ> snd) (passes @ [(inp, reqs)])"
    using assms(5) by (intro answers_length [OF assms(1) boot]) simp
  ultimately show ?thesis
    using reach_columns [OF assms(1) z(3)] z(2,4)
    by (intro exI [of _ "vland_exit (daemon z)"] exI [of _ txs])
      (simp add: vland_exit_def vland_ovsdb_exit_def Let_def)
qed

lemma vland_main_serves_witness:
  "\<exists>s txs replies. vland_main ex_env ex_host ex_line
     [(ex_input ex_db1 TXN_SUCCESS, [Appctl ''ops-vland/dump'', Appctl ''exit'']), (ex_input ex_db2 TXN_ERROR, [])] =
       Returned 0 s txs [replies] \<and> length replies = 2"
proof -
  have boot: "\<lparr> daemon = vland_ovsdb_init ex_env (idl_create_seqno ex_host ''unix:db''), seen = empty_db,
      server = (\<lambda>_. ([], '''', '''')) \<rparr> = ex_boot" by (simp add: ex_boot_def ex_host_def)
  have steps: "env_steps ex_env ex_boot (map fst [] @ [ex_input ex_db1 TXN_SUCCESS])"
    by (simp add: ex_step1 split: option.split)
  have sock: "unixctl_server_create ex_host (Some ''/b'') = 0" by (simp add: ex_host_def)
  from vland_main_serves [OF ex_env_ok ex_line_parses sock boot [symmetric] steps,
      of "[Appctl ''ops-vland/dump'', Appctl ''exit'']" "[(ex_input ex_db2 TXN_ERROR, [])]"]
  show ?thesis by (force simp: asks_exit_def map_eq_Cons_conv)
qed

section \<open>Ending early\<close>

text \<open>
  C16: The process ends before it serves anything on the first option that ends it (\<open>--help\<close> with
  status 0 and the usage text, an unknown one with status 1, a value the switch has no case for by
  abort, a library option as the library decides); otherwise exactly when there is more than one
  argument, with status 1 and the fatal message that at most one is accepted, or when the control
  socket, at the path given last, does not open, with status 1 and no message of its own. A process
  that serves is connected to the given database, or the default one in the run directory.
\<close>
theorem vland_main_ends_early:
  "case first_ending H cl of
     Some (e, text) \<Rightarrow> vland_main E H cl passes = Ended e text
   | None \<Rightarrow>
       (if 1 < length (cl_arguments cl)
        then vland_main E H cl passes =
          Ended (Exit_Status 1) ''at most one non-option argument accepted; use --help for usage''
        else if unixctl_server_create H (control_socket cl) \<noteq> 0
        then vland_main E H cl passes = Ended (Exit_Status 1) ''''
        else
          (let sock = (case cl_arguments cl of [] \<Rightarrow> ''unix:'' @ ovs_rundir H @ ''/db.sock'' | db # _ \<Rightarrow> db)
           in case serve E started passes (vland_ovsdb_init E (idl_create_seqno H sock)) of
                None \<Rightarrow> vland_main E H cl passes = Reads_Gone_Row
              | Some (True, s, txs, replies) \<Rightarrow>
                  vland_main E H cl passes = Returned 0 (vland_ovsdb_exit s) txs replies
              | Some (False, s, txs, replies) \<Rightarrow> vland_main E H cl passes = Running sock s txs replies))"
  by (auto simp: vland_main_def parse_options_eq vland_init_eq vland_exit_def EXIT_FAILURE_def Let_def
      split: option.split prod.split bool.split list.split)

lemma vland_main_ends_early_witness:
  "vland_main ex_env ex_host (ex_line\<lparr>cl_options := [Opt_Unixctl ''/a'', Opt_Library (), Opt_Help]\<rparr>) [] =
     Ended (Exit_Status 2) '''' \<and>
   vland_main ex_env ex_host (ex_line\<lparr>cl_options := [Opt_Unixctl ''/a'', Opt_Unixctl ''/bad'']\<rparr>) [] =
     Ended (Exit_Status 1) '''' \<and>
   vland_main ex_env ex_host (ex_line\<lparr>cl_arguments := [''unix:db'', ''unix:db2'']\<rparr>) [] =
     Ended (Exit_Status 1) ''at most one non-option argument accepted; use --help for usage''"
  using vland_main_ends_early [where H = ex_host and E = ex_env and passes = "[]"
      and cl = "ex_line\<lparr>cl_options := [Opt_Unixctl ''/a'', Opt_Library (), Opt_Help]\<rparr>"]
    vland_main_ends_early [where H = ex_host and E = ex_env and passes = "[]"
      and cl = "ex_line\<lparr>cl_options := [Opt_Unixctl ''/a'', Opt_Unixctl ''/bad'']\<rparr>"]
    vland_main_ends_early [where H = ex_host and E = ex_env and passes = "[]"
      and cl = "ex_line\<lparr>cl_arguments := [''unix:db'', ''unix:db2'']\<rparr>"]
  by (simp add: first_ending_def control_socket_def map_filter_simps ex_host_def ex_line_def)

section \<open>Typing\<close>

text \<open>
  C9: A process that still runs or has returned, that is, one that has not read a row that is gone,
  is well-typed whatever replicas with ids in 1..4094 it was fed, consistent with one another or
  not, and whatever became of its commits: every value it has written to the database is of its
  column's type, and so are its caches. The names in each cache are unique and every entry is filed
  under its own name; a VLAN's state and reason fit together; a port in trunk mode has no native
  VLAN, and a port in access mode is in its own VLAN at most.
\<close>
theorem vland_main_well_typed:
  assumes "env_ok E" and "\<forall>(inp, reqs) \<in> set passes. input_typed inp"
    and "vland_main E H cl passes \<in> {Running sock s txs replies, Returned status s txs replies}"
  shows "state_typed E s \<and> committed_typed txs"
proof -
  from assms(3) obtain n ended t where t: "serve E started passes (vland_ovsdb_init E n) = Some (ended, t, txs, replies)"
    and s: "s = (if ended then vland_ovsdb_exit t else t)"
    by (auto simp: vland_main_def vland_init_eq vland_exit_def Let_def
        split: sum.splits option.splits if_splits prod.splits)
  have "vland_main_loop E (map (\<lambda>(inp, reqs). (inp, asks_exit reqs)) passes) (vland_ovsdb_init E n) = Some (s, txs)"
    by (simp add: serve_main_loop [symmetric] t s)
  from typed_main_loop [OF assms(1) this _ typed_init [OF assms(1)]] assms(2) show ?thesis
    by (auto simp: split_beta)
qed

lemma vland_main_well_typed_witness:
  "\<exists>s txs replies. vland_main ex_env ex_host ex_line [(ex_input ex_db1 TXN_SUCCESS, [])] =
     Running ''unix:db'' s txs replies \<and> state_typed ex_env s \<and> committed_typed txs"
proof -
  obtain s txs where "vland_run ex_env (ex_input ex_db1 TXN_SUCCESS) (daemon ex_boot) = Some (s, txs)"
    by (rule vland_run_inv [OF ex_env_ok vland_reach_inv [OF ex_reach_boot ex_env_ok] ex_step1])
  then have m: "vland_main ex_env ex_host ex_line [(ex_input ex_db1 TXN_SUCCESS, [])] =
      Running ''unix:db'' s txs [[]]"
    by (simp add: vland_main_def ex_line_parses vland_init_eq ex_boot_def) (simp add: ex_host_def)
  have "state_typed ex_env s \<and> committed_typed txs"
    by (rule vland_main_well_typed [OF ex_env_ok]) (use m ex_input1_typed in auto)
  with m show ?thesis by blast
qed

end
