(* ===== verification/Cli_Base.thy ===== *)
theory Cli_Base
  imports Column_Types C_Strings Shash
begin

text \<open>
  Common ground of the VLAN commands of the CLI (\<^verbatim>\<open>src/cli/vlan_vty.c\<close>). A command reads the
  client's replica, opens a transaction, writes columns, and commits or aborts; it may print
  and it may move the terminal to another node. The state keeps the replica with the pending
  writes applied, and the trace of everything observable. What \<^verbatim>\<open>libvtysh\<close>, \<^verbatim>\<open>ops-utils\<close> and the
  schema headers provide is a parameter (\<open>vty_env\<close>).
\<close>

section \<open>Commands\<close>

datatype cmd_ret = CMD_SUCCESS | CMD_ERR_NOTHING_TODO | CMD_OVSDB_FAILURE | CMD_ERR_NO_MATCH

datatype node = CONFIG_NODE | VLAN_NODE | VLAN_INTERFACE_NODE | INTERFACE_NODE
| LINK_AGGREGATION_NODE | ENABLE_NODE

text \<open>
  The column writes of the commands. \<open>Port_Set_Trunks r vs n\<close> passes an array whose first
  elements are \<open>vs\<close> and the count \<open>n\<close>; \<open>Bridge_Set_Vlans_Count\<close> likewise.
\<close>

datatype cli_write =
  Db_Write db_write
| Vlan_Delete row_ref
| Bridge_Set_Vlans_Count row_ref "row_ref list" int
| Port_Set_Vlan_Mode row_ref "string option"
| Port_Set_Tag row_ref int
| Port_Set_Trunks row_ref "int list" int
| System_Set_Other_Config row_ref smap

datatype cli_event =
  Txn_Start bool
| Write cli_write
| Port_Added string
| Txn_Abort
| Txn_Finish txn_status
| Out string

record cli =
  c_node :: node
  c_index :: string
  c_db :: ovsdb
  c_trace :: "cli_event list"

record vty_env =
  VTY_NEWLINE :: string
  cli_do_config_start :: bool
  cli_do_config_finish :: txn_status
  apply_cli_write :: "cli_write \<Rightarrow> ovsdb \<Rightarrow> ovsdb"
  utils :: ops_utils
  check_internal_vlan :: "ovsdb \<Rightarrow> int \<Rightarrow> int"
  check_if_internal_vlan :: "ovsrec_vlan \<Rightarrow> bool"
  check_iface_in_bridge :: "ovsdb \<Rightarrow> string \<Rightarrow> bool"
  vtysh_check_port_in_bridge :: "ovsdb \<Rightarrow> string \<Rightarrow> bool"
  check_iface_in_vrf :: "string \<Rightarrow> bool"
  port_lookup :: "ovsdb \<Rightarrow> string \<Rightarrow> ovsrec_port option"
  port_check_and_add :: "ovsdb \<Rightarrow> string \<Rightarrow> ovsrec_port option \<times> ovsdb"
  vtysh_ovsdb_port_match :: "ovsdb \<Rightarrow> string \<Rightarrow> bool"
  verify_ifname :: "string \<Rightarrow> bool"
  create_vlan_interface :: "ovsdb \<Rightarrow> string \<Rightarrow> cmd_ret \<times> ovsdb"
  delete_vlan_interface :: "ovsdb \<Rightarrow> string \<Rightarrow> cmd_ret \<times> ovsdb"
  VLANIF_NAME :: "string \<Rightarrow> string"
  cmd_get_range_value :: "string \<Rightarrow> string list"
  smap_get_int :: "smap \<Rightarrow> string \<Rightarrow> int \<Rightarrow> int"
  inserted_row :: row_ref
  MIN_INTERNAL_VLAN :: string
  MAX_INTERNAL_VLAN :: string
  INTERNAL_VLAN_POLICY :: string
  POLICY_ASCENDING_DEFAULT :: string
  POLICY_DESCENDING :: string
  DFLT_MIN_INTERNAL_VLAN_ID :: int
  DFLT_MAX_INTERNAL_VLAN_ID :: int
  PORT_INTERNAL_VLAN_ID :: string
  OVSREC_INTERFACE_TYPE_SYSTEM :: string
  sort_interface :: "string list \<Rightarrow> string list"
  vty_hash_rank :: sh_rank

definition DEFAULT_VLAN :: int where
  "DEFAULT_VLAN = 1"

text \<open>The result of a command: \<open>None\<close> when it reads through a null pointer.\<close>

type_synonym command = "vty_env \<Rightarrow> string list \<Rightarrow> cli \<Rightarrow> (cmd_ret \<times> cli) option"

definition emit :: "cli_event \<Rightarrow> cli \<Rightarrow> cli" where
  "emit e s = s\<lparr>c_trace := c_trace s @ [e]\<rparr>"

definition vty_out :: "string \<Rightarrow> cli \<Rightarrow> cli" where
  "vty_out t s = emit (Out t) s"

definition idl_write :: "vty_env \<Rightarrow> cli_write \<Rightarrow> cli \<Rightarrow> cli" where
  "idl_write env w s = emit (Write w) (s\<lparr>c_db := apply_cli_write env w (c_db s)\<rparr>)"

definition add_port :: "vty_env \<Rightarrow> string \<Rightarrow> cli \<Rightarrow> ovsrec_port option \<times> cli" where
  "add_port env ifname s =
     (let (row, db) = port_check_and_add env (c_db s) ifname
      in (row, emit (Port_Added ifname) (s\<lparr>c_db := db\<rparr>)))"

text \<open>
  The fragments every command repeats: opening the transaction, giving up with a message,
  giving up silently, and the commit at the end with its two outcomes.
\<close>

definition with_txn :: "vty_env \<Rightarrow> string \<Rightarrow> (cli \<Rightarrow> (cmd_ret \<times> cli) option) \<Rightarrow> cli \<Rightarrow>
    (cmd_ret \<times> cli) option" where
  "with_txn env err body s =
     (if cli_do_config_start env then body (emit (Txn_Start True) s)
      else Some (CMD_SUCCESS, vty_out err (emit Txn_Abort (emit (Txn_Start False) s))))"

definition give_up :: "string \<Rightarrow> cli \<Rightarrow> (cmd_ret \<times> cli) option" where
  "give_up msg s = Some (CMD_SUCCESS, emit Txn_Abort (vty_out msg s))"

definition quit :: "cli \<Rightarrow> (cmd_ret \<times> cli) option" where
  "quit s = Some (CMD_SUCCESS, emit Txn_Abort s)"

definition txn_done :: "txn_status \<Rightarrow> bool" where
  "txn_done st \<longleftrightarrow> st = TXN_SUCCESS \<or> st = TXN_UNCHANGED"

definition commit_then ::
  "vty_env \<Rightarrow> string \<Rightarrow> (cli \<Rightarrow> cli) \<Rightarrow> cli \<Rightarrow> (cmd_ret \<times> cli) option" where
  "commit_then env err ok s =
     (let status = cli_do_config_finish env;
          s = emit (Txn_Finish status) s
      in if txn_done status then Some (CMD_SUCCESS, ok s) else Some (CMD_SUCCESS, vty_out err s))"

definition commit :: "vty_env \<Rightarrow> string \<Rightarrow> cli \<Rightarrow> (cmd_ret \<times> cli) option" where
  "commit env err s = commit_then env err (\<lambda>s. s) s"

lemma cli_fields [simp]:
  "c_trace (emit e s) = c_trace s @ [e]" "c_db (emit e s) = c_db s"
  "c_index (emit e s) = c_index s" "c_node (emit e s) = c_node s"
  "c_trace (vty_out t s) = c_trace s @ [Out t]" "c_db (vty_out t s) = c_db s"
  "c_index (vty_out t s) = c_index s" "c_node (vty_out t s) = c_node s"
  "c_trace (idl_write env w s) = c_trace s @ [Write w]"
  "c_db (idl_write env w s) = apply_cli_write env w (c_db s)"
  "c_index (idl_write env w s) = c_index s" "c_node (idl_write env w s) = c_node s"
  by (simp_all add: emit_def vty_out_def idl_write_def)

lemma add_port_fields:
  "add_port env ifname s = (row, s') \<Longrightarrow>
     c_trace s' = c_trace s @ [Port_Added ifname] \<and> c_index s' = c_index s \<and> c_node s' = c_node s \<and>
     port_check_and_add env (c_db s) ifname = (row, c_db s')"
  by (auto simp: add_port_def split: prod.splits)

section \<open>The transaction discipline\<close>

text \<open>
  What a command owes the database client: a transaction it opened is ended exactly once, by
  an abort or by a finish, and nothing is written outside a transaction.
\<close>

datatype txn_phase = Idle | Open | Failed | Bad

fun txn_step :: "txn_phase \<Rightarrow> cli_event \<Rightarrow> txn_phase" where
  "txn_step Bad e = Bad"
| "txn_step ph (Out t) = ph"
| "txn_step Idle (Txn_Start b) = (if b then Open else Failed)"
| "txn_step Open (Write w) = Open"
| "txn_step Open (Port_Added i) = Open"
| "txn_step Open Txn_Abort = Idle"
| "txn_step Open (Txn_Finish st) = Idle"
| "txn_step Failed Txn_Abort = Idle"
| "txn_step ph e = Bad"

definition phase :: "cli_event list \<Rightarrow> txn_phase" where
  "phase es = foldl txn_step Idle es"

lemma phase_simps [simp]:
  "phase [] = Idle" "phase (es @ [e]) = txn_step (phase es) e"
  by (simp_all add: phase_def)

lemma phase_append: "phase (es @ fs) = foldl txn_step (phase es) fs"
  by (simp add: phase_def)

text \<open>The writes that reach the database: the batches of the transactions that went through.\<close>

fun committed_from :: "cli_write list \<Rightarrow> cli_event list \<Rightarrow> cli_write list list" where
  "committed_from pend [] = []"
| "committed_from pend (Txn_Start b # es) = committed_from [] es"
| "committed_from pend (Write w # es) = committed_from (pend @ [w]) es"
| "committed_from pend (Txn_Abort # es) = committed_from [] es"
| "committed_from pend (Txn_Finish st # es) =
     (if txn_done st then pend # committed_from [] es else committed_from [] es)"
| "committed_from pend (_ # es) = committed_from pend es"

definition committed_writes :: "cli_event list \<Rightarrow> cli_write list list" where
  "committed_writes es = committed_from [] es"

section \<open>The types of the writes\<close>

text \<open>
  What the columns allow of a command's write. The \<open>vlan_mode\<close> of a port is optional and
  enumerated. Ids and counts are not typed here: the shell has matched the ids against the
  syntax of the command, and \<open>remove_trunk\<close> is about the counts.
\<close>

fun cli_typed :: "cli_write \<Rightarrow> bool" where
  "cli_typed (Db_Write w) \<longleftrightarrow> (case w of Vlan_Set_Id r vid \<Rightarrow> True | _ \<Rightarrow> well_typed w)"
| "cli_typed (Port_Set_Vlan_Mode r (Some mode)) \<longleftrightarrow>
     value_typing (String_Value mode)
       (Enum_Column [OVSREC_PORT_VLAN_MODE_ACCESS, OVSREC_PORT_VLAN_MODE_TRUNK,
          OVSREC_PORT_VLAN_MODE_NATIVE_TAGGED, OVSREC_PORT_VLAN_MODE_NATIVE_UNTAGGED])"
| "cli_typed _ \<longleftrightarrow> True"

definition typed_events :: "cli_event list \<Rightarrow> bool" where
  "typed_events es \<longleftrightarrow> (\<forall>w. Write w \<in> set es \<longrightarrow> cli_typed w)"

lemma typed_events_simps [simp]:
  "typed_events []" "typed_events (es @ fs) \<longleftrightarrow> typed_events es \<and> typed_events fs"
  "typed_events (e # es) \<longleftrightarrow> (\<forall>w. e = Write w \<longrightarrow> cli_typed w) \<and> typed_events es"
  by (auto simp: typed_events_def)

text \<open>A trace that goes on after another one with typed writes only.\<close>

definition goes_on :: "cli_event list \<Rightarrow> cli_event list \<Rightarrow> bool" where
  "goes_on tr tr' \<longleftrightarrow> (\<exists>es. tr' = tr @ es \<and> typed_events es)"

lemma goes_on_refl [simp]: "goes_on tr tr"
  by (simp add: goes_on_def)

lemma goes_on_same [simp]: "goes_on tr (tr @ es) \<longleftrightarrow> typed_events es"
  by (simp add: goes_on_def)

lemma goes_on_append [intro]: "goes_on tr tr' \<Longrightarrow> typed_events es \<Longrightarrow> goes_on tr (tr' @ es)"
  by (auto simp: goes_on_def)

lemma goes_on_trans: "goes_on tr tr' \<Longrightarrow> goes_on tr' tr'' \<Longrightarrow> goes_on tr tr''"
  by (auto simp: goes_on_def)

text \<open>A contract for commands, with what any session of such commands gives.\<close>

locale config_command =
  fixes run :: command
  assumes keeps_phase: "run env argv s = Some (r, s') \<Longrightarrow> phase (c_trace s) = Idle \<Longrightarrow>
    phase (c_trace s') = Idle"
    and extends: "run env argv s = Some (r, s') \<Longrightarrow> phase (c_trace s) = Idle \<Longrightarrow>
    goes_on (c_trace s) (c_trace s')"
begin

text \<open>Run on its own, the command leaves no transaction open.\<close>

lemma closes_transaction:
  assumes "run env argv s = Some (r, s')" and "c_trace s = []"
  shows "phase (c_trace s') = Idle"
  using keeps_phase [OF assms(1)] assms(2) by simp

text \<open>Everything it does comes after what was there, so earlier commits stay committed.\<close>

lemma keeps_history:
  assumes "run env argv s = Some (r, s')" and "phase (c_trace s) = Idle"
  shows "take (length (c_trace s)) (c_trace s') = c_trace s"
  using extends [OF assms] by (auto simp: goes_on_def)

text \<open>Repeating it any number of times keeps the discipline.\<close>

lemma session:
  assumes "foldM (\<lambda>(env, argv) s. map_option snd (run env argv s)) calls s = Some s'"
    and "phase (c_trace s) = Idle"
  shows "phase (c_trace s') = Idle"
  using assms(1) by (rule foldM_result_inv) (use assms(2) keeps_phase in auto)

end

text \<open>The automaton on the shared fragments.\<close>

definition ends :: "(cmd_ret \<times> cli) option \<Rightarrow> cli_event list \<Rightarrow> bool" where
  "ends res tr \<longleftrightarrow> (case res of None \<Rightarrow> True
     | Some (r, s') \<Rightarrow> phase (c_trace s') = Idle \<and> goes_on tr (c_trace s'))"

definition open_from :: "cli_event list \<Rightarrow> cli \<Rightarrow> bool" where
  "open_from tr s \<longleftrightarrow> phase (c_trace s) = Open \<and> goes_on tr (c_trace s)"

lemma endsI:
  assumes "phase (c_trace s) = ph" and "goes_on tr (c_trace s)"
    and "c_trace s' = c_trace s @ fs" and "foldl txn_step ph fs = Idle" and "typed_events fs"
  shows "ends (Some (r, s')) tr"
  using assms(1,2,4,5) phase_append [of "c_trace s" fs] by (auto simp: ends_def assms(3))

lemma ends_give_up: "open_from tr s \<Longrightarrow> ends (give_up m s) tr"
  unfolding give_up_def open_from_def
  by (elim conjE, erule endsI [where fs = "[Out m, Txn_Abort]"]) simp_all

lemma ends_quit: "open_from tr s \<Longrightarrow> ends (quit s) tr"
  unfolding quit_def open_from_def by (elim conjE, erule endsI [where fs = "[Txn_Abort]"]) simp_all

lemma ends_commit_then:
  assumes "open_from tr s" and "\<And>t. c_trace (ok t) = c_trace t"
  shows "ends (commit_then env m ok s) tr"
  using assms
  by (cases "txn_done (cli_do_config_finish env)")
    (auto simp: commit_then_def Let_def open_from_def
      intro: endsI [where fs = "[Txn_Finish (cli_do_config_finish env)]"]
        endsI [where fs = "[Txn_Finish (cli_do_config_finish env), Out m]"])

lemma ends_commit: "open_from tr s \<Longrightarrow> ends (commit env m s) tr"
  unfolding commit_def by (erule ends_commit_then) simp

lemma ends_None: "ends None tr"
  by (simp add: ends_def)

lemma open_from_emit:
  "open_from tr s \<Longrightarrow> cli_typed w \<Longrightarrow> open_from tr (idl_write env w s)"
  "open_from tr s \<Longrightarrow> open_from tr (vty_out m s)"
  by (auto simp: open_from_def)

lemma ends_with_txn:
  assumes "phase (c_trace s) = Idle" and "\<And>t. open_from (c_trace s) t \<Longrightarrow> ends (body t) (c_trace s)"
  shows "ends (with_txn env m body s) (c_trace s)"
proof (cases "cli_do_config_start env")
  case True
  have "ends (body (emit (Txn_Start True) s)) (c_trace s)"
    by (rule assms(2)) (simp add: assms(1) open_from_def)
  with True show ?thesis by (simp add: with_txn_def)
next
  case False
  have "ends (Some (CMD_SUCCESS, vty_out m (emit Txn_Abort (emit (Txn_Start False) s)))) (c_trace s)"
    by (rule endsI [OF assms(1), where fs = "[Txn_Start False, Txn_Abort, Out m]"]) simp_all
  with False show ?thesis by (simp add: with_txn_def)
qed

text \<open>One rule per control construct, so that a command is walked through by its syntax.\<close>

lemma ends_if: "(b \<Longrightarrow> ends x tr) \<Longrightarrow> (\<not> b \<Longrightarrow> ends y tr) \<Longrightarrow> ends (if b then x else y) tr"
  by simp

lemma ends_case_option:
  "ends a tr \<Longrightarrow> (\<And>y. ends (f y) tr) \<Longrightarrow> ends (case x of None \<Rightarrow> a | Some y \<Rightarrow> f y) tr"
  by (cases x) simp_all

lemma ends_case_sum:
  "(\<And>y. ends (f y) tr) \<Longrightarrow> (\<And>z. ends (g z) tr) \<Longrightarrow> ends (case x of Inl y \<Rightarrow> f y | Inr z \<Rightarrow> g z) tr"
  by (cases x) simp_all

lemma ends_case_prod: "(\<And>y z. x = (y, z) \<Longrightarrow> ends (f y z) tr) \<Longrightarrow> ends (case x of (y, z) \<Rightarrow> f y z) tr"
  by (cases x) simp

lemma open_from_if: "open_from tr x \<Longrightarrow> open_from tr y \<Longrightarrow> open_from tr (if b then x else y)"
  by simp

lemmas ends_intros = ends_with_txn ends_give_up ends_quit ends_commit ends_None open_from_emit
  open_from_if ends_if ends_case_option ends_case_sum ends_case_prod

lemma config_commandI:
  assumes "\<And>env argv s. phase (c_trace s) = Idle \<Longrightarrow> ends (run env argv s) (c_trace s)"
  shows "config_command run"
proof
  fix env argv s r s' assume run: "run env argv s = Some (r, s')" and "phase (c_trace s) = Idle"
  with assms [of s env argv] show "phase (c_trace s') = Idle" "goes_on (c_trace s) (c_trace s')"
    by (simp_all add: ends_def)
qed

end
