(* ===== verification/Cli_Interface.thy ===== *)
theory Cli_Interface
  imports Cli_Base
begin

text \<open>
  The VLAN commands of the interface node (\<^verbatim>\<open>cli_intf_...\<close> in \<^verbatim>\<open>src/cli/vlan_vty.c\<close>). Each command
  finds the port of the interface, checks that the port is switched and the VLAN exists, and
  rewrites the port's \<open>vlan_mode\<close>, \<open>tag\<close> and \<open>trunks\<close> columns.
\<close>

section \<open>Messages\<close>

definition OVSDB_INTF_VLAN_ACCESS_ERROR :: "int \<Rightarrow> string \<Rightarrow> string" where
  "OVSDB_INTF_VLAN_ACCESS_ERROR vid nl = ''Failed to set access VLAN '' @ dec vid @ nl"

definition OVSDB_INTF_VLAN_REMOVE_ACCESS_ERROR :: "string \<Rightarrow> string" where
  "OVSDB_INTF_VLAN_REMOVE_ACCESS_ERROR nl = ''Failed to remove access VLAN'' @ nl"

definition OVSDB_INTF_VLAN_TRUNK_ALLOWED_ERROR :: "int \<Rightarrow> string \<Rightarrow> string" where
  "OVSDB_INTF_VLAN_TRUNK_ALLOWED_ERROR vid nl = ''Failed to set allowed trunk VLAN '' @ dec vid @ nl"

definition OVSDB_INTF_VLAN_REMOVE_TRUNK_ALLOWED_ERROR :: "int \<Rightarrow> string \<Rightarrow> string" where
  "OVSDB_INTF_VLAN_REMOVE_TRUNK_ALLOWED_ERROR vid nl =
     ''Failed to remove allowed trunk VLAN '' @ dec vid @ nl"

definition OVSDB_INTF_VLAN_TRUNK_NATIVE_ERROR :: "int \<Rightarrow> string \<Rightarrow> string" where
  "OVSDB_INTF_VLAN_TRUNK_NATIVE_ERROR vid nl = ''Failed to set native VLAN '' @ dec vid @ nl"

definition OVSDB_INTF_VLAN_REMOVE_TRUNK_NATIVE_ERROR :: "string \<Rightarrow> string" where
  "OVSDB_INTF_VLAN_REMOVE_TRUNK_NATIVE_ERROR nl = ''Failed to remove native VLAN'' @ nl"

definition OVSDB_INTF_VLAN_TRUNK_NATIVE_TAG_ERROR :: "string \<Rightarrow> string" where
  "OVSDB_INTF_VLAN_TRUNK_NATIVE_TAG_ERROR nl =
     ''Failed to set native VLAN tagging on the interface'' @ nl"

definition OVSDB_INTF_VLAN_REMOVE_TRUNK_NATIVE_TAG_ERROR :: "string \<Rightarrow> string" where
  "OVSDB_INTF_VLAN_REMOVE_TRUNK_NATIVE_TAG_ERROR nl =
     ''Failed to remove native VLAN tagging on the interface'' @ nl"

definition vlan_not_found :: "int \<Rightarrow> string \<Rightarrow> string" where
  "vlan_not_found vid nl = ''VLAN '' @ dec vid @ '' not found'' @ nl"

definition part_of_lag :: "string \<Rightarrow> string \<Rightarrow> string" where
  "part_of_lag lag nl = ''Can't configure VLAN, interface is part of LAG '' @ lag @ ''.'' @ nl"

section \<open>Finding the port\<close>

definition deref_port :: "ovsdb \<Rightarrow> row_ref \<Rightarrow> ovsrec_port option" where
  "deref_port db r = find (\<lambda>p. p_row p = r) (ports db)"

definition find_interface :: "ovsdb \<Rightarrow> string \<Rightarrow> row_ref option" where
  "find_interface db ifname =
     map_option i_row (find (\<lambda>intf_row. i_name intf_row = ifname) (interfaces db))"

text \<open>
  The loop over the Port table: a port of another name that holds the interface is a LAG, the
  port of the interface's own name is remembered (the last one met wins).
\<close>

fun scan_ports ::
  "row_ref option \<Rightarrow> string \<Rightarrow> ovsrec_port list \<Rightarrow> row_ref option \<Rightarrow> string + row_ref option" where
  "scan_ports intf ifname [] vlan_port_row = Inr vlan_port_row"
| "scan_ports intf ifname (port_row # rows) vlan_port_row =
     (if (case intf of None \<Rightarrow> False | Some r \<Rightarrow> r \<in> set (p_interfaces port_row)) then
        (if p_name port_row \<noteq> ifname then Inl (p_name port_row)
         else scan_ports intf ifname rows (Some (p_row port_row)))
      else scan_ports intf ifname rows vlan_port_row)"

definition add_port_ref :: "vty_env \<Rightarrow> string \<Rightarrow> cli \<Rightarrow> row_ref option \<times> cli" where
  "add_port_ref env ifname s =
     (let (row, s) = add_port env ifname s in (map_option p_row row, s))"

text \<open>
  The port a command works on; \<open>cur\<close> is the value its variable \<^verbatim>\<open>vlan_port_row\<close> has before. The
  port is created when there is none.
\<close>

definition obtain_port ::
  "vty_env \<Rightarrow> string \<Rightarrow> row_ref option \<Rightarrow> cli \<Rightarrow> (string + row_ref option) \<times> cli" where
  "obtain_port env ifname cur s =
     (let intf = find_interface (c_db s) ifname;
          (found, s) =
            (if ports (c_db s) = [] then
               (let (r, s) = add_port_ref env ifname s in (Inr r, s))
             else (scan_ports intf ifname (ports (c_db s)) cur, s))
      in case found of
           Inl lag \<Rightarrow> (Inl lag, s)
         | Inr None \<Rightarrow> (let (r, s) = add_port_ref env ifname s in (Inr r, s))
         | Inr (Some r) \<Rightarrow> (Inr (Some r), s))"

definition vlan_exists :: "ovsdb \<Rightarrow> int \<Rightarrow> bool" where
  "vlan_exists db vid \<longleftrightarrow> list_ex (\<lambda>vlan_row. v_id vlan_row = vid) (vlans db)"

section \<open>Access mode\<close>

definition cli_intf_vlan_access :: command where
  "cli_intf_vlan_access env argv s =
     (let vlan_id = atoi (argv ! 0);
          nl = VTY_NEWLINE env;
          err = OVSDB_INTF_VLAN_ACCESS_ERROR vlan_id nl
      in with_txn env err (\<lambda>s.
         if list_ex (\<lambda>tmp_row. check_internal_vlan env (c_db s) vlan_id = 0) (interfaces (c_db s))
         then give_up (''Error : Vlan ID is an internal vlan.'' @ nl) s
         else
           (let ifname = c_index s in
            case obtain_port env ifname None s of
              (Inl lag, s) \<Rightarrow> give_up (part_of_lag lag nl) s
            | (Inr port, s) \<Rightarrow>
                if \<not> check_iface_in_bridge env (c_db s) ifname
                then give_up (''Failed to set access VLAN. Disable routing on the interface.'' @ nl) s
                else if vlans (c_db s) = [] then give_up (vlan_not_found vlan_id nl) s
                else if \<not> vlan_exists (c_db s) vlan_id then give_up (vlan_not_found vlan_id nl) s
                else
                  case port of
                    None \<Rightarrow> None
                  | Some r \<Rightarrow>
                      commit env err
                        (idl_write env (Port_Set_Trunks r [] 0)
                        (idl_write env (Port_Set_Tag r vlan_id)
                        (idl_write env (Port_Set_Vlan_Mode r (Some OVSREC_PORT_VLAN_MODE_ACCESS)) s))))) s)"

text \<open>
  \<^verbatim>\<open>no vlan access\<close> with and without an argument: \<^verbatim>\<open>argc\<close> is the length of \<open>argv\<close>.
\<close>

definition cli_intf_no_vlan_access :: command where
  "cli_intf_no_vlan_access env argv s =
     (let vlan_id = (if argv \<noteq> [] then atoi (argv ! 0) else 0);
          nl = VTY_NEWLINE env;
          err = OVSDB_INTF_VLAN_REMOVE_ACCESS_ERROR nl
      in with_txn env err (\<lambda>s.
         if vlans (c_db s) = []
         then give_up (''VLAN '' @ dec vlan_id @ '' not found.'' @ nl) s
         else if vlan_id \<noteq> 0 \<and> \<not> vlan_exists (c_db s) vlan_id
         then give_up (''VLAN '' @ dec vlan_id @ '' is not configured.'' @ nl) s
         else
           (let ifname = c_index s in
            case obtain_port env ifname None s of
              (Inl lag, s) \<Rightarrow> give_up (part_of_lag lag nl) s
            | (Inr port, s) \<Rightarrow>
                if \<not> check_iface_in_bridge env (c_db s) ifname
                then give_up (''Failed to remove access VLAN. Disable routing on the interface.'' @ nl) s
                else
                  case Option.bind port (deref_port (c_db s)) of
                    None \<Rightarrow> None
                  | Some row \<Rightarrow>
                      if p_vlan_mode row \<noteq> Some OVSREC_PORT_VLAN_MODE_ACCESS
                      then give_up (''Interface is not in access mode.'' @ nl) s
                      else if vlan_id \<noteq> 0 \<and> ops_port_get_tag (utils env) row \<noteq> vlan_id
                      then give_up (''VLAN '' @ dec vlan_id @
                        '' is not configured in interface access mode.'' @ nl) s
                      else
                        commit env err
                          (idl_write env (Port_Set_Tag (p_row row) DEFAULT_VLAN)
                          (idl_write env
                            (Port_Set_Vlan_Mode (p_row row) (Some OVSREC_PORT_VLAN_MODE_ACCESS)) s)))) s)"

definition cli_intf_no_vlan_access_val :: command where
  "cli_intf_no_vlan_access_val env argv s = cli_intf_no_vlan_access env argv s"

section \<open>Trunk mode\<close>

definition native_mode :: "string \<Rightarrow> bool" where
  "native_mode m \<longleftrightarrow>
     m = OVSREC_PORT_VLAN_MODE_NATIVE_TAGGED \<or> m = OVSREC_PORT_VLAN_MODE_NATIVE_UNTAGGED"

definition aborting_all :: "int \<Rightarrow> string \<Rightarrow> string list \<Rightarrow> string \<Rightarrow> string" where
  "aborting_all vid ifname values nl =
     ''VLAN '' @ dec vid @ '' not found for interface '' @ ifname @ '', aborting all the VLAN's '' @
     concat (map (\<lambda>v. v @ '', '') (butlast values)) @ last values @ '' configurations.'' @ nl"

text \<open>
  The loop over the values of the range. \<open>all_values\<close> is the whole list (for the message),
  \<open>started\<close> the transaction pointer, \<open>cur\<close> the variable \<^verbatim>\<open>vlan_port_row\<close>, which keeps its value
  from one iteration to the next.
\<close>

fun trunk_allowed_loop ::
  "vty_env \<Rightarrow> string list \<Rightarrow> int \<Rightarrow> int \<Rightarrow> bool \<Rightarrow> string list \<Rightarrow> int \<Rightarrow> row_ref option \<Rightarrow> cli \<Rightarrow>
    (cmd_ret \<times> cli) option" where
  "trunk_allowed_loop env all_values min_vlan max_vlan started [] vlan_id cur s =
     commit env (OVSDB_INTF_VLAN_TRUNK_ALLOWED_ERROR vlan_id (VTY_NEWLINE env)) s"
| "trunk_allowed_loop env all_values min_vlan max_vlan started (value # values) _ cur s =
     (let vlan_id = atoi value;
          nl = VTY_NEWLINE env;
          err = OVSDB_INTF_VLAN_TRUNK_ALLOWED_ERROR vlan_id nl;
          ifname = c_index s
      in if \<not> started then Some (CMD_SUCCESS, vty_out err (emit Txn_Abort s))
         else if check_internal_vlan env (c_db s) vlan_id = 0 then
           trunk_allowed_loop env all_values min_vlan max_vlan started values vlan_id cur
             (vty_out (''Error : Vlan ID-'' @ dec vlan_id @ '' is an internal vlan.'' @ nl) s)
         else if min_vlan \<le> vlan_id \<and> vlan_id \<le> max_vlan then
           give_up (''Unable to set VLAN. VLAN '' @ value @ '' is part of internal VLAN.'' @ nl) s
         else
           case obtain_port env ifname cur s of
             (Inl lag, s) \<Rightarrow> give_up (part_of_lag lag nl) s
           | (Inr port, s) \<Rightarrow>
               if \<not> check_iface_in_bridge env (c_db s) ifname
               then give_up (''Failed to set allowed trunk VLAN. Disable routing on the interface '' @
                 ifname @ ''.'' @ nl) s
               else if vlans (c_db s) = [] then give_up (aborting_all vlan_id ifname all_values nl) s
               else if \<not> vlan_exists (c_db s) vlan_id
               then give_up (aborting_all vlan_id ifname all_values nl) s
               else
                 case Option.bind port (deref_port (c_db s)) of
                   None \<Rightarrow> None
                 | Some row \<Rightarrow>
                     (case p_vlan_mode row of
                        None \<Rightarrow> None
                      | Some mode \<Rightarrow>
                          (let s = (if \<not> native_mode mode
                                    then idl_write env (Port_Set_Vlan_Mode (p_row row)
                                      (Some OVSREC_PORT_VLAN_MODE_NATIVE_UNTAGGED)) s
                                    else s)
                           in case deref_port (c_db s) (p_row row) of
                                None \<Rightarrow> None
                              | Some row \<Rightarrow>
                                  if vlan_id \<in> set (port_trunks (utils env) row)
                                  then commit env err (vty_out (''The VLAN '' @ dec vlan_id @
                                    '' is already allowed on the interface'' @ ifname @ ''.'' @ nl) s)
                                  else
                                    trunk_allowed_loop env all_values min_vlan max_vlan started values
                                      vlan_id port
                                      (idl_write env (Port_Set_Trunks (p_row row)
                                        (port_trunks (utils env) row @ [vlan_id])
                                        (int (n_vlan_trunks row) + 1)) s))))"

definition cli_intf_vlan_trunk_allowed :: command where
  "cli_intf_vlan_trunk_allowed env argv s =
     (let values = cmd_get_range_value env (argv ! 0)
      in if values = [] then Some (CMD_ERR_NO_MATCH, s)
         else
           (let started = cli_do_config_start env;
                s = emit (Txn_Start started) s
            in case ovsrec_system_first (c_db s) of
                 None \<Rightarrow> Some (CMD_OVSDB_FAILURE, emit Txn_Abort s)
               | Some const_row \<Rightarrow>
                   (let min_vlan = smap_get_int env (s_other_config const_row) (MIN_INTERNAL_VLAN env) (-1);
                        max_vlan = smap_get_int env (s_other_config const_row) (MAX_INTERNAL_VLAN env) (-1)
                    in trunk_allowed_loop env values min_vlan max_vlan started values 0 None s)))"

text \<open>
  The trunks of a row without one VLAN. The code allocates an array with one entry less than the
  row has trunks, copies the entries that differ to \<^verbatim>\<open>trunks[n++]\<close>, and passes the array on with
  the count of its entries. An entry of the array is \<open>None\<close> until it is written. There is no
  result when an entry is written outside the array, when the array passed on holds one that was
  never written, or when there are no trunks (the size asked of \<^verbatim>\<open>xmalloc\<close> is then negative).
\<close>

fun copy_trunks :: "int \<Rightarrow> int list \<Rightarrow> int option list \<Rightarrow> nat \<Rightarrow> int option list option" where
  "copy_trunks vid [] trunks n = Some trunks"
| "copy_trunks vid (v # vs) trunks n =
     (if vid \<noteq> v then
        (if n < length trunks then copy_trunks vid vs (trunks[n := Some v]) (Suc n) else None)
      else copy_trunks vid vs trunks n)"

definition remove_trunk :: "ops_utils \<Rightarrow> ovsrec_port \<Rightarrow> int \<Rightarrow> (int list \<times> int) option" where
  "remove_trunk U row vid =
     (if n_vlan_trunks row = 0 then None
      else
        (let trunks = replicate (n_vlan_trunks row - 1) None
         in case Option.bind (copy_trunks vid (port_trunks U row) trunks 0) those of
              None \<Rightarrow> None
            | Some trunks \<Rightarrow> Some (trunks, int (n_vlan_trunks row) - 1)))"

definition trunk_mode :: "string \<Rightarrow> bool" where
  "trunk_mode m \<longleftrightarrow> m = OVSREC_PORT_VLAN_MODE_TRUNK \<or> native_mode m"

definition cli_intf_no_vlan_trunk_allowed :: command where
  "cli_intf_no_vlan_trunk_allowed env argv s =
     (let vlan_id = atoi (argv ! 0);
          nl = VTY_NEWLINE env;
          ifname = c_index s
      in with_txn env (''Failed to remove trunk VLAN'' @ nl) (\<lambda>s.
         if ports (c_db s) = [] then quit s
         else
           case scan_ports (find_interface (c_db s) ifname) ifname (ports (c_db s)) None of
             Inl lag \<Rightarrow> quit s
           | Inr None \<Rightarrow> quit s
           | Inr (Some r) \<Rightarrow>
               if \<not> check_iface_in_bridge env (c_db s) ifname
               then give_up (''Failed to remove trunk VLAN. Disable routing on the interface.'' @ nl) s
               else
                 case deref_port (c_db s) r of
                   None \<Rightarrow> None
                 | Some row \<Rightarrow>
                     if (case p_vlan_mode row of None \<Rightarrow> False | Some m \<Rightarrow> \<not> trunk_mode m)
                     then give_up (''The interface is not in trunk mode.'' @ nl) s
                     else if vlan_id \<notin> set (port_trunks (utils env) row) then quit s
                     else
                       case remove_trunk (utils env) row vlan_id of
                         None \<Rightarrow> None
                       | Some (trunks, trunk_count) \<Rightarrow>
                           (let s = idl_write env (Port_Set_Trunks r trunks trunk_count) s;
                                s = (if p_vlan_mode row = Some OVSREC_PORT_VLAN_MODE_TRUNK \<and> trunk_count = 0
                                     then idl_write env (Port_Set_Tag r DEFAULT_VLAN)
                                       (idl_write env
                                         (Port_Set_Vlan_Mode r (Some OVSREC_PORT_VLAN_MODE_ACCESS)) s)
                                     else s)
                            in commit env (OVSDB_INTF_VLAN_REMOVE_TRUNK_ALLOWED_ERROR vlan_id nl) s)) s)"

section \<open>The native VLAN\<close>

definition cli_intf_vlan_trunk_native :: command where
  "cli_intf_vlan_trunk_native env argv s =
     (let vlan_id = atoi (argv ! 0);
          nl = VTY_NEWLINE env;
          err = OVSDB_INTF_VLAN_TRUNK_NATIVE_ERROR vlan_id nl
      in with_txn env err (\<lambda>s.
         if list_ex (\<lambda>tmp_row. check_internal_vlan env (c_db s) vlan_id = 0) (interfaces (c_db s))
         then give_up (''Error : Vlan ID-'' @ dec vlan_id @ '' is an internal vlan.'' @ nl) s
         else
           (let ifname = c_index s in
            case obtain_port env ifname None s of
              (Inl lag, s) \<Rightarrow> give_up (part_of_lag lag nl) s
            | (Inr port, s) \<Rightarrow>
                if \<not> check_iface_in_bridge env (c_db s) ifname
                then give_up (''Failed to add native vlan. Disable routing on the interface.'' @ nl) s
                else if vlans (c_db s) = [] then give_up (vlan_not_found vlan_id nl) s
                else if \<not> vlan_exists (c_db s) vlan_id then give_up (vlan_not_found vlan_id nl) s
                else
                  case Option.bind port (deref_port (c_db s)) of
                    None \<Rightarrow> None
                  | Some row \<Rightarrow>
                      (let s = (if (case p_vlan_mode row of None \<Rightarrow> True | Some m \<Rightarrow> \<not> native_mode m)
                                then idl_write env (Port_Set_Vlan_Mode (p_row row)
                                  (Some OVSREC_PORT_VLAN_MODE_NATIVE_UNTAGGED)) s
                                else s)
                       in commit env err (idl_write env (Port_Set_Tag (p_row row) vlan_id) s)))) s)"

definition cli_intf_no_vlan_trunk_native :: command where
  "cli_intf_no_vlan_trunk_native env argv s =
     (let vlan_id = (if argv \<noteq> [] then atoi (argv ! 0) else 0);
          nl = VTY_NEWLINE env;
          err = OVSDB_INTF_VLAN_REMOVE_TRUNK_NATIVE_ERROR nl
      in with_txn env err (\<lambda>s.
           (let ifname = c_index s in
            case obtain_port env ifname None s of
              (Inl lag, s) \<Rightarrow> give_up (part_of_lag lag nl) s
            | (Inr port, s) \<Rightarrow>
                if \<not> check_iface_in_bridge env (c_db s) ifname
                then give_up (''Failed to remove native VLAN. Disable routing on the interface.'' @ nl) s
                else
                  case Option.bind port (deref_port (c_db s)) of
                    None \<Rightarrow> None
                  | Some row \<Rightarrow>
                      if (case p_vlan_mode row of None \<Rightarrow> False | Some m \<Rightarrow> \<not> native_mode m)
                      then give_up (''The interface is not in native mode.'' @ nl) s
                      else if vlan_id \<noteq> 0 \<and> ops_port_get_tag (utils env) row \<noteq> vlan_id
                      then give_up (''VLAN '' @ dec vlan_id @
                        '' is not the native vlan in this interface.'' @ nl) s
                      else
                        (let s = idl_write env (Port_Set_Tag (p_row row) DEFAULT_VLAN) s
                         in commit env err
                              (idl_write env (Port_Set_Vlan_Mode (p_row row)
                                (Some (if n_vlan_trunks row \<noteq> 0 then OVSREC_PORT_VLAN_MODE_TRUNK
                                       else OVSREC_PORT_VLAN_MODE_ACCESS))) s)))) s)"

definition cli_intf_vlan_trunk_native_tag :: command where
  "cli_intf_vlan_trunk_native_tag env argv s =
     (let nl = VTY_NEWLINE env;
          err = OVSDB_INTF_VLAN_TRUNK_NATIVE_TAG_ERROR nl
      in with_txn env err (\<lambda>s.
           (let ifname = c_index s in
            case obtain_port env ifname None s of
              (Inl lag, s) \<Rightarrow> give_up (part_of_lag lag nl) s
            | (Inr port, s) \<Rightarrow>
                if \<not> check_iface_in_bridge env (c_db s) ifname
                then give_up (''Failed to set native VLAN tagging. Disable routing on the interface.'' @ nl) s
                else
                  case Option.bind port (deref_port (c_db s)) of
                    None \<Rightarrow> None
                  | Some row \<Rightarrow>
                      if p_vlan_mode row = Some OVSREC_PORT_VLAN_MODE_ACCESS
                      then give_up (''The interface is in access mode.'' @ nl) s
                      else commit env err
                        (idl_write env (Port_Set_Vlan_Mode (p_row row)
                          (Some OVSREC_PORT_VLAN_MODE_NATIVE_TAGGED)) s))) s)"

definition cli_intf_no_vlan_trunk_native_tag :: command where
  "cli_intf_no_vlan_trunk_native_tag env argv s =
     (let nl = VTY_NEWLINE env;
          err = OVSDB_INTF_VLAN_REMOVE_TRUNK_NATIVE_TAG_ERROR nl
      in with_txn env err (\<lambda>s.
           (let ifname = c_index s in
            case obtain_port env ifname None s of
              (Inl lag, s) \<Rightarrow> give_up (part_of_lag lag nl) s
            | (Inr port, s) \<Rightarrow>
                if \<not> check_iface_in_bridge env (c_db s) ifname
                then give_up
                  (''Failed to remove native VLAN tagging. Disable routing on the interface.'' @ nl) s
                else
                  case Option.bind port (deref_port (c_db s)) of
                    None \<Rightarrow> None
                  | Some row \<Rightarrow>
                      if (case p_vlan_mode row of None \<Rightarrow> False
                          | Some m \<Rightarrow> m \<noteq> OVSREC_PORT_VLAN_MODE_NATIVE_TAGGED)
                      then give_up (''The interface is not in native-tagged mode.'' @ nl) s
                      else commit env err
                        (idl_write env (Port_Set_Vlan_Mode (p_row row)
                          (Some OVSREC_PORT_VLAN_MODE_NATIVE_UNTAGGED)) s))) s)"

section \<open>The commands keep the transaction discipline\<close>

lemma add_port_ref_open:
  assumes "add_port_ref env ifname s = (r, s')" and "open_from tr s"
  shows "open_from tr s' \<and> c_index s' = c_index s"
proof -
  from assms(1) obtain row where "add_port env ifname s = (row, s')"
    by (auto simp: add_port_ref_def split: prod.splits)
  from add_port_fields [OF this] assms(2) show ?thesis by (auto simp: open_from_def)
qed

lemma obtain_port_open:
  assumes "obtain_port env ifname cur s = (found, s')" and "open_from tr s"
  shows "open_from tr s' \<and> c_index s' = c_index s"
proof -
  obtain f s1 where f: "(if ports (c_db s) = [] then (let (r, s) = add_port_ref env ifname s in (Inr r, s))
      else (scan_ports (find_interface (c_db s) ifname) ifname (ports (c_db s)) cur, s)) = (f, s1)"
    by fastforce
  have s1: "open_from tr s1 \<and> c_index s1 = c_index s"
    using f assms(2) add_port_ref_open by (fastforce split: if_splits prod.splits)
  show ?thesis
  proof (cases f)
    case (Inl lag)
    with assms(1) f s1 show ?thesis by (simp add: obtain_port_def)
  next
    case (Inr r)
    obtain r' s2 where a: "add_port_ref env ifname s1 = (r', s2)" by fastforce
    with s1 add_port_ref_open [OF a] assms(1) f Inr show ?thesis
      by (cases r) (auto simp: obtain_port_def)
  qed
qed

lemma obtain_port_openD:
  "obtain_port env ifname cur s = (found, s') \<Longrightarrow> open_from tr s \<Longrightarrow> open_from tr s'"
  using obtain_port_open by blast

interpretation intf_access: config_command cli_intf_vlan_access
  by (rule config_commandI, unfold cli_intf_vlan_access_def Let_def)
    (intro ends_intros | assumption | erule obtain_port_openD | (simp; fail))+

interpretation intf_no_access: config_command cli_intf_no_vlan_access
  by (rule config_commandI, unfold cli_intf_no_vlan_access_def Let_def)
    (intro ends_intros | assumption | erule obtain_port_openD | (simp; fail))+

interpretation intf_no_access_val: config_command cli_intf_no_vlan_access_val
  by (rule config_commandI)
    (auto simp: cli_intf_no_vlan_access_val_def ends_def split: option.split
      intro: intf_no_access.keeps_phase intf_no_access.extends)

interpretation intf_no_trunk: config_command cli_intf_no_vlan_trunk_allowed
  by (rule config_commandI, unfold cli_intf_no_vlan_trunk_allowed_def Let_def)
    (intro ends_intros | assumption | erule obtain_port_openD | (simp; fail))+

interpretation intf_native: config_command cli_intf_vlan_trunk_native
  by (rule config_commandI, unfold cli_intf_vlan_trunk_native_def Let_def)
    (intro ends_intros | assumption | erule obtain_port_openD | (simp; fail))+

interpretation intf_no_native: config_command cli_intf_no_vlan_trunk_native
  by (rule config_commandI, unfold cli_intf_no_vlan_trunk_native_def Let_def)
    (intro ends_intros | assumption | erule obtain_port_openD | (simp; fail))+

interpretation intf_tag: config_command cli_intf_vlan_trunk_native_tag
  by (rule config_commandI, unfold cli_intf_vlan_trunk_native_tag_def Let_def)
    (intro ends_intros | assumption | erule obtain_port_openD | (simp; fail))+

interpretation intf_no_tag: config_command cli_intf_no_vlan_trunk_native_tag
  by (rule config_commandI, unfold cli_intf_no_vlan_trunk_native_tag_def Let_def)
    (intro ends_intros | assumption | erule obtain_port_openD | (simp; fail))+

lemma trunk_allowed_loop_ends:
  "open_from tr s \<Longrightarrow>
     ends (trunk_allowed_loop env all_values min_vlan max_vlan True vals vlan_id cur s) tr"
proof (induction vals arbitrary: vlan_id cur s)
  case Nil
  then show ?case by (simp add: ends_commit)
next
  case (Cons val vals)
  note step = Cons.IH [OF open_from_emit(1)] Cons.IH [OF open_from_emit(2)]
  show ?case
    unfolding trunk_allowed_loop.simps Let_def
    using Cons.prems
    by - (rule ends_if, simp, (intro ends_intros step | assumption | erule obtain_port_openD | (simp; fail))+)
qed

interpretation intf_trunk: config_command cli_intf_vlan_trunk_allowed
proof (rule config_commandI)
  fix env :: vty_env and argv and s :: cli assume idle: "phase (c_trace s) = Idle"
  let ?vs = "cmd_get_range_value env (argv ! 0)" and ?b = "cli_do_config_start env"
  let ?s = "emit (Txn_Start ?b) s"
  show "ends (cli_intf_vlan_trunk_allowed env argv s) (c_trace s)"
  proof (cases "?vs")
    case Nil
    with idle show ?thesis by (simp add: cli_intf_vlan_trunk_allowed_def ends_def)
  next
    case (Cons v vs)
    show ?thesis
    proof (cases "ovsrec_system_first (c_db s)")
      case None
      have "ends (Some (CMD_OVSDB_FAILURE, emit Txn_Abort ?s)) (c_trace s)"
        by (rule endsI [OF idle, where fs = "[Txn_Start ?b, Txn_Abort]"]) (cases ?b, simp_all)
      with None Cons show ?thesis by (simp add: cli_intf_vlan_trunk_allowed_def Let_def)
    next
      case (Some sys)
      show ?thesis
      proof (cases ?b)
        case True
        have "open_from (c_trace s) ?s" using idle True by (simp add: open_from_def)
        from trunk_allowed_loop_ends [OF this] Some Cons True show ?thesis
          by (simp add: cli_intf_vlan_trunk_allowed_def Let_def del: trunk_allowed_loop.simps)
      next
        case False
        have "ends (Some (CMD_SUCCESS, vty_out m (emit Txn_Abort ?s))) (c_trace s)" for m
          by (rule endsI [OF idle, where fs = "[Txn_Start False, Txn_Abort, Out m]"]) (simp_all add: False)
        with Some Cons False show ?thesis by (simp add: cli_intf_vlan_trunk_allowed_def Let_def)
      qed
    qed
  qed
qed

end
