(* ===== verification/Cli_Lag.thy ===== *)
theory Cli_Lag
  imports Cli_Interface
begin

text \<open>
  The VLAN commands of the link aggregation node (\<^verbatim>\<open>cli_lag_...\<close> in \<^verbatim>\<open>src/cli/vlan_vty.c\<close>). They
  find the port by the name of the LAG and never create it; some of them do not check that
  they found one.
\<close>

definition find_lag :: "ovsdb \<Rightarrow> string \<Rightarrow> ovsrec_port option" where
  "find_lag db lagname = find (\<lambda>port_row. p_name port_row = lagname) (ports db)"

definition no_port_entry :: "string \<Rightarrow> string" where
  "no_port_entry nl = ''Failed to find port entry.'' @ nl"

definition cli_lag_vlan_access :: command where
  "cli_lag_vlan_access env argv s =
     (let vlan_id = atoi (argv ! 0);
          nl = VTY_NEWLINE env;
          err = OVSDB_INTF_VLAN_ACCESS_ERROR vlan_id nl;
          lagname = c_index s
      in with_txn env err (\<lambda>s.
         if \<not> vtysh_check_port_in_bridge env (c_db s) lagname
         then give_up (''Failed to set access VLAN. Disable routing on the LAG.'' @ nl) s
         else if vlans (c_db s) = [] then give_up (vlan_not_found vlan_id nl) s
         else if \<not> vlan_exists (c_db s) vlan_id then give_up (vlan_not_found vlan_id nl) s
         else
           case find_lag (c_db s) lagname of
             None \<Rightarrow> None
           | Some vlan_port_row \<Rightarrow>
               (let r = p_row vlan_port_row
                in commit env err
                     (idl_write env (Port_Set_Trunks r [] 0)
                     (idl_write env (Port_Set_Tag r vlan_id)
                     (idl_write env (Port_Set_Vlan_Mode r (Some OVSREC_PORT_VLAN_MODE_ACCESS)) s))))) s)"

definition cli_lag_no_vlan_access :: command where
  "cli_lag_no_vlan_access env argv s =
     (let nl = VTY_NEWLINE env;
          err = OVSDB_INTF_VLAN_REMOVE_ACCESS_ERROR nl;
          lagname = c_index s
      in with_txn env err (\<lambda>s.
         if \<not> vtysh_check_port_in_bridge env (c_db s) lagname
         then give_up (''Failed to remove access VLAN. Disable routing on the LAG.'' @ nl) s
         else
           case find_lag (c_db s) lagname of
             None \<Rightarrow> give_up (no_port_entry nl) s
           | Some vlan_port_row \<Rightarrow>
               if (case p_vlan_mode vlan_port_row of None \<Rightarrow> False
                   | Some m \<Rightarrow> m \<noteq> OVSREC_PORT_VLAN_MODE_ACCESS)
               then give_up (''The LAG is not in access mode'' @ nl) s
               else
                 (let r = p_row vlan_port_row
                  in commit env err
                       (idl_write env (Port_Set_Tag r DEFAULT_VLAN)
                       (idl_write env (Port_Set_Vlan_Mode r None) s)))) s)"

definition cli_lag_vlan_trunk_allowed :: command where
  "cli_lag_vlan_trunk_allowed env argv s =
     (let vlan_id = atoi (argv ! 0);
          nl = VTY_NEWLINE env;
          err = OVSDB_INTF_VLAN_TRUNK_ALLOWED_ERROR vlan_id nl;
          lagname = c_index s
      in with_txn env err (\<lambda>s.
         if \<not> vtysh_check_port_in_bridge env (c_db s) lagname
         then give_up (''Failed to remove access VLAN. Disable routing on the LAG.'' @ nl) s
         else if vlans (c_db s) = [] then give_up (vlan_not_found vlan_id nl) s
         else if \<not> vlan_exists (c_db s) vlan_id then give_up (vlan_not_found vlan_id nl) s
         else
           case find_lag (c_db s) lagname of
             None \<Rightarrow> None
           | Some vlan_port_row \<Rightarrow>
               (let r = p_row vlan_port_row;
                    s = (if (case p_vlan_mode vlan_port_row of None \<Rightarrow> True | Some m \<Rightarrow> \<not> native_mode m)
                         then idl_write env (Port_Set_Vlan_Mode r (Some OVSREC_PORT_VLAN_MODE_TRUNK)) s
                         else s)
                in if vlan_id \<in> set (port_trunks (utils env) vlan_port_row)
                   then commit env err (vty_out (''The VLAN is already allowed on the LAG.'' @ nl) s)
                   else
                     commit env err
                       (idl_write env (Port_Set_Trunks r
                         (port_trunks (utils env) vlan_port_row @ [vlan_id])
                         (int (n_vlan_trunks vlan_port_row) + 1)) s))) s)"

definition cli_lag_no_vlan_trunk_allowed :: command where
  "cli_lag_no_vlan_trunk_allowed env argv s =
     (let vlan_id = atoi (argv ! 0);
          nl = VTY_NEWLINE env;
          err = OVSDB_INTF_VLAN_REMOVE_TRUNK_ALLOWED_ERROR vlan_id nl;
          lagname = c_index s
      in with_txn env err (\<lambda>s.
         if \<not> vtysh_check_port_in_bridge env (c_db s) lagname
         then give_up (''Failed to remove trunk VLAN. Disable routing on the LAG.'' @ nl) s
         else
           case find_lag (c_db s) lagname of
             None \<Rightarrow> give_up (no_port_entry nl) s
           | Some vlan_port_row \<Rightarrow>
               if (case p_vlan_mode vlan_port_row of None \<Rightarrow> False | Some m \<Rightarrow> \<not> trunk_mode m)
               then give_up (''The LAG is not in trunk mode.'' @ nl) s
               else
                 (let r = p_row vlan_port_row;
                      found = vlan_id \<in> set (port_trunks (utils env) vlan_port_row);
                      removed = (if found then remove_trunk (utils env) vlan_port_row vlan_id
                                 else Some ([], int (n_vlan_trunks vlan_port_row)))
                  in case removed of
                       None \<Rightarrow> None
                     | Some (trunks, trunk_count) \<Rightarrow>
                         (let s = (if found then idl_write env (Port_Set_Trunks r trunks trunk_count) s
                                   else s)
                          in case p_vlan_mode vlan_port_row of
                               None \<Rightarrow> None
                             | Some mode \<Rightarrow>
                                 commit env err
                                   (if mode = OVSREC_PORT_VLAN_MODE_TRUNK \<and> trunk_count = 0
                                    then idl_write env (Port_Set_Tag r DEFAULT_VLAN)
                                      (idl_write env
                                        (Port_Set_Vlan_Mode r (Some OVSREC_PORT_VLAN_MODE_ACCESS)) s)
                                    else s)))) s)"

definition cli_lag_vlan_trunk_native :: command where
  "cli_lag_vlan_trunk_native env argv s =
     (let vlan_id = atoi (argv ! 0);
          nl = VTY_NEWLINE env;
          err = OVSDB_INTF_VLAN_TRUNK_NATIVE_ERROR vlan_id nl;
          lagname = c_index s
      in with_txn env err (\<lambda>s.
         if \<not> vtysh_check_port_in_bridge env (c_db s) lagname
         then give_up (''Failed to add native VLAN. Disable routing on the LAG.'' @ nl) s
         else if vlans (c_db s) = [] then give_up (vlan_not_found vlan_id nl) s
         else if \<not> vlan_exists (c_db s) vlan_id then give_up (vlan_not_found vlan_id nl) s
         else
           case find_lag (c_db s) lagname of
             None \<Rightarrow> give_up (no_port_entry nl) s
           | Some vlan_port_row \<Rightarrow>
               (let r = p_row vlan_port_row;
                    s = (if (case p_vlan_mode vlan_port_row of None \<Rightarrow> True | Some m \<Rightarrow> \<not> native_mode m)
                         then idl_write env
                           (Port_Set_Vlan_Mode r (Some OVSREC_PORT_VLAN_MODE_NATIVE_UNTAGGED)) s
                         else s)
                in commit env err (idl_write env (Port_Set_Tag r vlan_id) s))) s)"

definition cli_lag_no_vlan_trunk_native :: command where
  "cli_lag_no_vlan_trunk_native env argv s =
     (let nl = VTY_NEWLINE env;
          err = OVSDB_INTF_VLAN_REMOVE_TRUNK_NATIVE_ERROR nl;
          lagname = c_index s
      in with_txn env err (\<lambda>s.
         if \<not> vtysh_check_port_in_bridge env (c_db s) lagname
         then give_up (''Failed to remove native VLAN. Disable routing on the LAG.'' @ nl) s
         else
           case find_lag (c_db s) lagname of
             None \<Rightarrow> None
           | Some vlan_port_row \<Rightarrow>
               if (case p_vlan_mode vlan_port_row of None \<Rightarrow> False | Some m \<Rightarrow> \<not> native_mode m)
               then give_up (''The LAG is not in native mode.'' @ nl) s
               else
                 (let r = p_row vlan_port_row;
                      s = idl_write env (Port_Set_Tag r DEFAULT_VLAN) s
                  in commit env err
                       (idl_write env (Port_Set_Vlan_Mode r
                         (Some (if n_vlan_trunks vlan_port_row \<noteq> 0 then OVSREC_PORT_VLAN_MODE_TRUNK
                                else OVSREC_PORT_VLAN_MODE_ACCESS))) s))) s)"

definition cli_lag_vlan_trunk_native_tag :: command where
  "cli_lag_vlan_trunk_native_tag env argv s =
     (let nl = VTY_NEWLINE env;
          err = OVSDB_INTF_VLAN_TRUNK_NATIVE_TAG_ERROR nl;
          lagname = c_index s
      in with_txn env err (\<lambda>s.
         if \<not> vtysh_check_port_in_bridge env (c_db s) lagname
         then give_up (''Failed to set native VLAN tagging. Disable routing on the LAG.'' @ nl) s
         else
           case find_lag (c_db s) lagname of
             None \<Rightarrow> give_up (no_port_entry nl) s
           | Some vlan_port_row \<Rightarrow>
               if p_vlan_mode vlan_port_row = Some OVSREC_PORT_VLAN_MODE_ACCESS
               then give_up (''The LAG is in access mode.'' @ nl) s
               else commit env err
                 (idl_write env (Port_Set_Vlan_Mode (p_row vlan_port_row)
                   (Some OVSREC_PORT_VLAN_MODE_NATIVE_TAGGED)) s)) s)"

definition cli_lag_no_vlan_trunk_native_tag :: command where
  "cli_lag_no_vlan_trunk_native_tag env argv s =
     (let nl = VTY_NEWLINE env;
          err = OVSDB_INTF_VLAN_REMOVE_TRUNK_NATIVE_TAG_ERROR nl;
          lagname = c_index s
      in with_txn env err (\<lambda>s.
         if \<not> vtysh_check_port_in_bridge env (c_db s) lagname
         then give_up (''Failed to remove native VLAN tagging. Disable routing on the LAG.'' @ nl) s
         else
           case find_lag (c_db s) lagname of
             None \<Rightarrow> give_up (no_port_entry nl) s
           | Some vlan_port_row \<Rightarrow>
               if (case p_vlan_mode vlan_port_row of None \<Rightarrow> False
                   | Some m \<Rightarrow> m \<noteq> OVSREC_PORT_VLAN_MODE_NATIVE_TAGGED)
               then give_up (''The LAG is not in native-tagged mode.'' @ nl) s
               else commit env err
                 (idl_write env (Port_Set_Vlan_Mode (p_row vlan_port_row)
                   (Some OVSREC_PORT_VLAN_MODE_NATIVE_UNTAGGED)) s)) s)"

section \<open>The commands keep the transaction discipline\<close>

interpretation lag_access: config_command cli_lag_vlan_access
  by (rule config_commandI, unfold cli_lag_vlan_access_def Let_def)
    (intro ends_intros | assumption | erule obtain_port_openD | (simp; fail))+

interpretation lag_no_access: config_command cli_lag_no_vlan_access
  by (rule config_commandI, unfold cli_lag_no_vlan_access_def Let_def)
    (intro ends_intros | assumption | erule obtain_port_openD | (simp; fail))+

interpretation lag_trunk: config_command cli_lag_vlan_trunk_allowed
  by (rule config_commandI, unfold cli_lag_vlan_trunk_allowed_def Let_def)
    (intro ends_intros | assumption | erule obtain_port_openD | (simp; fail))+

interpretation lag_no_trunk: config_command cli_lag_no_vlan_trunk_allowed
  by (rule config_commandI, unfold cli_lag_no_vlan_trunk_allowed_def Let_def)
    (intro ends_intros | assumption | erule obtain_port_openD | (simp; fail))+

interpretation lag_native: config_command cli_lag_vlan_trunk_native
  by (rule config_commandI, unfold cli_lag_vlan_trunk_native_def Let_def)
    (intro ends_intros | assumption | erule obtain_port_openD | (simp; fail))+

interpretation lag_no_native: config_command cli_lag_no_vlan_trunk_native
  by (rule config_commandI, unfold cli_lag_no_vlan_trunk_native_def Let_def)
    (intro ends_intros | assumption | erule obtain_port_openD | (simp; fail))+

interpretation lag_tag: config_command cli_lag_vlan_trunk_native_tag
  by (rule config_commandI, unfold cli_lag_vlan_trunk_native_tag_def Let_def)
    (intro ends_intros | assumption | erule obtain_port_openD | (simp; fail))+

interpretation lag_no_tag: config_command cli_lag_no_vlan_trunk_native_tag
  by (rule config_commandI, unfold cli_lag_no_vlan_trunk_native_tag_def Let_def)
    (intro ends_intros | assumption | erule obtain_port_openD | (simp; fail))+

end
