(* ===== verification/Cli_Vlan.thy ===== *)
theory Cli_Vlan
  imports Cli_Lag
begin

text \<open>
  The commands that create, delete, enable and disable VLANs and their interfaces, and the
  commands for the range of internal VLANs (\<^verbatim>\<open>src/cli/vlan_vty.c\<close>).
\<close>

section \<open>VLAN interfaces\<close>

definition vtysh_interface_vlan :: command where
  "vtysh_interface_vlan env argv s =
     (let s = s\<lparr>c_node := VLAN_INTERFACE_NODE\<rparr>;
          vlan_id = atoi (argv ! 0);
          vlan_if = VLANIF_NAME env (argv ! 0)
      in if \<not> verify_ifname env vlan_if then Some (CMD_ERR_NOTHING_TODO, s\<lparr>c_node := CONFIG_NODE\<rparr>)
         else if vlan_exists (c_db s) vlan_id then
           (let (ret, db) = create_vlan_interface env (c_db s) vlan_if;
                s = s\<lparr>c_db := db\<rparr>
            in if ret = CMD_OVSDB_FAILURE then Some (CMD_ERR_NOTHING_TODO, s\<lparr>c_node := CONFIG_NODE\<rparr>)
               else Some (CMD_SUCCESS, s\<lparr>c_index := vlan_if\<rparr>))
         else
           (let s = vty_out (''VLAN '' @ dec vlan_id @ '' should be created before creating interface VLAN'' @
                      dec vlan_id @ ''.'' @ VTY_NEWLINE env) s
            in Some (CMD_ERR_NOTHING_TODO, s\<lparr>c_node := CONFIG_NODE\<rparr>)))"

definition no_vtysh_interface_vlan :: command where
  "no_vtysh_interface_vlan env argv s =
     (let s = s\<lparr>c_node := CONFIG_NODE\<rparr>;
          vlan_if = VLANIF_NAME env (argv ! 0)
      in if \<not> verify_ifname env vlan_if then Some (CMD_OVSDB_FAILURE, s)
         else
           (let (ret, db) = delete_vlan_interface env (c_db s) vlan_if;
                s = s\<lparr>c_db := db\<rparr>
            in if ret = CMD_OVSDB_FAILURE then Some (CMD_OVSDB_FAILURE, s)
               else Some (CMD_SUCCESS, s\<lparr>c_index := vlan_if\<rparr>)))"

section \<open>Creating and deleting VLANs\<close>

definition find_vlan :: "ovsdb \<Rightarrow> int \<Rightarrow> ovsrec_vlan option" where
  "find_vlan db vid = find (\<lambda>vlan_row. v_id vlan_row = vid) (vlans db)"

text \<open>
  The bridge whose \<open>vlans\<close> column is rewritten: the one named \<^verbatim>\<open>bridge_normal\<close>, and the first
  bridge when there is none of that name. An empty Bridge table gives a null pointer.
\<close>

definition default_bridge :: "ovsdb \<Rightarrow> ovsrec_bridge option" where
  "default_bridge db =
     (case bridges db of
        [] \<Rightarrow> None
      | first # _ \<Rightarrow>
          (case find (\<lambda>bridge_row. b_name bridge_row = DEFAULT_BRIDGE_NAME) (bridges db) of
             Some b \<Rightarrow> Some b
           | None \<Rightarrow> Some first))"

definition new_vlan_writes :: "row_ref \<Rightarrow> int \<Rightarrow> string \<Rightarrow> cli_write list" where
  "new_vlan_writes row vid name =
     [Db_Write (Vlan_Insert row), Db_Write (Vlan_Set_Id row vid), Db_Write (Vlan_Set_Name row name),
      Db_Write (Vlan_Set_Admin row OVSREC_VLAN_ADMIN_DOWN),
      Db_Write (Vlan_Set_Oper_State row OVSREC_VLAN_OPER_STATE_DOWN),
      Db_Write (Vlan_Set_Oper_State_Reason row OVSREC_VLAN_OPER_STATE_REASON_ADMIN_DOWN)]"

definition write_all :: "vty_env \<Rightarrow> cli_write list \<Rightarrow> cli \<Rightarrow> cli" where
  "write_all env ws s = foldl (\<lambda>s w. idl_write env w s) s ws"

text \<open>The VLAN joins the port of its interface, when there is one.\<close>

definition join_vlan_interface :: "vty_env \<Rightarrow> string \<Rightarrow> int \<Rightarrow> cli \<Rightarrow> cli" where
  "join_vlan_interface env vlan_if vid s =
     foldl (\<lambda>s port_row.
         if p_name port_row = vlan_if
         then idl_write env (Port_Set_Vlan_Mode (p_row port_row) None)
                (idl_write env (Port_Set_Tag (p_row port_row) vid) s)
         else s)
       s (ports (c_db s))"

definition vtysh_vlan :: command where
  "vtysh_vlan env argv s =
     (let vlan_id = atoi (argv ! 0);
          vlan = take 4 (argv ! 0);
          vlan_name = take 8 (''VLAN'' @ argv ! 0);
          nl = VTY_NEWLINE env;
          err = ''Failed to create the vlan'' @ nl
      in case find_vlan (c_db s) vlan_id of
           Some vlan_row \<Rightarrow>
             if check_if_internal_vlan env vlan_row
             then Some (CMD_SUCCESS, vty_out (''VLAN'' @ dec (v_id vlan_row) @
               '' is used as an internal VLAN. No further configuration allowed.'' @ nl) s)
             else Some (CMD_SUCCESS, s\<lparr>c_node := VLAN_NODE, c_index := vlan\<rparr>)
         | None \<Rightarrow>
             with_txn env err (\<lambda>s.
               let row = inserted_row env;
                   s = write_all env (new_vlan_writes row vlan_id vlan_name) s
               in case default_bridge (c_db s) of
                    None \<Rightarrow> None
                  | Some b \<Rightarrow>
                      (let s = idl_write env (Db_Write (Bridge_Set_Vlans (b_row b) (b_vlans b @ [row]))) s;
                           s = join_vlan_interface env (VLANIF_NAME env (argv ! 0)) vlan_id s
                       in commit_then env err (\<lambda>s. s\<lparr>c_node := VLAN_NODE, c_index := vlan\<rparr>) s)) s)"

text \<open>What deleting a VLAN does to one port that refers to it.\<close>

definition unlink_port :: "vty_env \<Rightarrow> int \<Rightarrow> ovsrec_port \<Rightarrow> cli \<Rightarrow> cli option" where
  "unlink_port env vid port_row s =
     (let r = p_row port_row;
          in_trunks = (vid \<in> set (port_trunks (utils env) port_row));
          removed = (if in_trunks then remove_trunk (utils env) port_row vid
                     else Some ([], int (n_vlan_trunks port_row)))
      in case removed of
           None \<Rightarrow> None
         | Some (trunks, trunk_count) \<Rightarrow>
             (let s = (if in_trunks then idl_write env (Port_Set_Trunks r trunks trunk_count) s else s);
                  vlan_found = (in_trunks \<or>
                    p_vlan_tag port_row \<noteq> None \<and> ops_port_get_tag (utils env) port_row = vid)
              in Some
                (if \<not> vlan_found then s
                 else if trunk_count \<noteq> 0 then
                   idl_write env (Port_Set_Tag r 0)
                     (idl_write env (Port_Set_Vlan_Mode r (Some OVSREC_PORT_VLAN_MODE_TRUNK)) s)
                 else
                   case find (\<lambda>ifrow. i_name ifrow = p_name port_row) (interfaces (c_db s)) of
                     None \<Rightarrow> s
                   | Some ifrow \<Rightarrow>
                       if i_type ifrow = OVSREC_INTERFACE_TYPE_SYSTEM env then
                         idl_write env (Port_Set_Tag r DEFAULT_VLAN)
                           (idl_write env (Port_Set_Vlan_Mode r (Some OVSREC_PORT_VLAN_MODE_ACCESS)) s)
                       else s)))"

definition vtysh_no_vlan :: command where
  "vtysh_no_vlan env argv s =
     (let vlan_id = atoi (argv ! 0);
          nl = VTY_NEWLINE env
      in case find_vlan (c_db s) vlan_id of
           None \<Rightarrow>
             Some (CMD_SUCCESS, vty_out (''Couldn't find the VLAN '' @ dec vlan_id @
               ''. Make sure it's configured'' @ nl) s)
         | Some vlan_row \<Rightarrow>
             if check_if_internal_vlan env vlan_row
             then Some (CMD_SUCCESS, vty_out (''VLAN'' @ dec (v_id vlan_row) @
               '' is used as an internal VLAN. Deletion not allowed.'' @ nl) s)
             else if \<not> vtysh_ovsdb_port_match env (c_db s) (VLANIF_NAME env (argv ! 0))
             then Some (CMD_ERR_NOTHING_TODO, (vty_out (''VLAN'' @ dec (v_id vlan_row) @
               '' is used as an interface VLAN. Deletion not allowed.'' @ nl) s)\<lparr>c_node := CONFIG_NODE\<rparr>)
             else
               with_txn env (''Failed to create the vlan'' @ nl) (\<lambda>s.
                 case default_bridge (c_db s) of
                   None \<Rightarrow> None
                 | Some b \<Rightarrow>
                     (let s = idl_write env (Bridge_Set_Vlans_Count (b_row b)
                                (filter (\<lambda>v. v \<noteq> v_row vlan_row) (b_vlans b))
                                (int (length (b_vlans b)) - 1)) s
                      in case foldM (unlink_port env vlan_id) (ports (c_db s)) s of
                           None \<Rightarrow> None
                         | Some s \<Rightarrow>
                             commit env (''Failed to delete the vlan'' @ nl)
                               (idl_write env (Vlan_Delete (v_row vlan_row)) s))) s)"

section \<open>Administrative state\<close>

definition OVSDB_VLAN_SHUTDOWN_ERROR :: "string \<Rightarrow> string" where
  "OVSDB_VLAN_SHUTDOWN_ERROR nl = ''Failed to shutdown VLAN'' @ nl"

definition OVSDB_VLAN_NO_SHUTDOWN_ERROR :: "string \<Rightarrow> string" where
  "OVSDB_VLAN_NO_SHUTDOWN_ERROR nl = ''Failed to enable VLAN'' @ nl"

definition cli_vlan_admin :: command where
  "cli_vlan_admin env argv s =
     (let vlan_id = atoi (c_index s);
          err = OVSDB_VLAN_SHUTDOWN_ERROR (VTY_NEWLINE env)
      in with_txn env err (\<lambda>s.
         if vlan_id = DEFAULT_VLAN then
           Some (CMD_SUCCESS, vty_out (''Shutdown not permitted in DEFAULT_VLAN_'' @ dec vlan_id @ ''.'' @
             [CHR 0x0A]) (emit Txn_Abort s))
         else
           case find_vlan (c_db s) vlan_id of
             None \<Rightarrow> None
           | Some vlan_row \<Rightarrow>
               commit env err
                 (idl_write env (Db_Write (Vlan_Set_Admin (v_row vlan_row) OVSREC_VLAN_ADMIN_DOWN)) s)) s)"

definition cli_no_vlan_admin :: command where
  "cli_no_vlan_admin env argv s =
     (let vlan_id = atoi (c_index s);
          err = OVSDB_VLAN_NO_SHUTDOWN_ERROR (VTY_NEWLINE env)
      in with_txn env err (\<lambda>s.
           case find_vlan (c_db s) vlan_id of
             None \<Rightarrow> None
           | Some vlan_row \<Rightarrow>
               commit env err
                 (idl_write env (Db_Write (Vlan_Set_Admin (v_row vlan_row) OVSREC_VLAN_ADMIN_UP)) s)) s)"

section \<open>The range of internal VLANs\<close>

text \<open>
  Both functions test the status of the finish as a truth value: every status but
  \<^verbatim>\<open>TXN_UNCOMMITTED\<close>, whose value is 0, counts as success.
\<close>

definition finish_nonzero :: "vty_env \<Rightarrow> cli \<Rightarrow> (cmd_ret \<times> cli) option" where
  "finish_nonzero env s =
     (let s = emit (Txn_Finish (cli_do_config_finish env)) s
      in if cli_do_config_finish env \<noteq> TXN_UNCOMMITTED then Some (CMD_SUCCESS, s)
         else Some (CMD_OVSDB_FAILURE, s))"

definition vlan_int_range_add :: "vty_env \<Rightarrow> string \<Rightarrow> string \<Rightarrow> string \<Rightarrow> cli \<Rightarrow> (cmd_ret \<times> cli) option" where
  "vlan_int_range_add env min_vlan max_vlan policy s =
     (if \<not> cli_do_config_start env
      then Some (CMD_OVSDB_FAILURE, emit Txn_Abort (emit (Txn_Start False) s))
      else
        (let s = emit (Txn_Start True) s
         in case ovsrec_system_first (c_db s) of
              None \<Rightarrow> Some (CMD_OVSDB_FAILURE, emit Txn_Abort s)
            | Some const_row \<Rightarrow>
                (let other_config =
                       smap_replace (INTERNAL_VLAN_POLICY env) policy
                         (smap_replace (MAX_INTERNAL_VLAN env) max_vlan
                           (smap_replace (MIN_INTERNAL_VLAN env) min_vlan (s_other_config const_row)))
                 in finish_nonzero env
                      (idl_write env (System_Set_Other_Config (s_row const_row) other_config) s))))"

definition cli_vlan_int_range_add :: command where
  "cli_vlan_int_range_add env argv s =
     (let min_vlan = c_uint16 (atoi (argv ! 0));
          max_vlan = c_uint16 (atoi (argv ! 1));
          policy = (if take 1 (argv ! 2) = ''a'' then POLICY_ASCENDING_DEFAULT env else POLICY_DESCENDING env)
      in if max_vlan < min_vlan
         then Some (CMD_SUCCESS, vty_out
           (''Invalid VLAN range. End VLAN must be greater or equal to start VLAN.'' @ [CHR 0x0A]) s)
         else vlan_int_range_add env (argv ! 0) (argv ! 1) policy s)"

definition INTERNAL_VLAN_ID_INVALID :: int where
  "INTERNAL_VLAN_ID_INVALID = -1"

definition vlan_int_range_del :: "vty_env \<Rightarrow> int \<Rightarrow> int \<Rightarrow> cli \<Rightarrow> (cmd_ret \<times> cli) option" where
  "vlan_int_range_del env min_vlan_in max_vlan_in s =
     (if \<not> cli_do_config_start env
      then Some (CMD_OVSDB_FAILURE, emit Txn_Abort (emit (Txn_Start False) s))
      else
        (let s = emit (Txn_Start True) s
         in case ovsrec_system_first (c_db s) of
              None \<Rightarrow> Some (CMD_OVSDB_FAILURE, emit Txn_Abort s)
            | Some const_row \<Rightarrow>
                (let cfg = s_other_config const_row;
                     min_vlan_db = c_uint16 (smap_get_int env cfg (MIN_INTERNAL_VLAN env) INTERNAL_VLAN_ID_INVALID);
                     max_vlan_db = c_uint16 (smap_get_int env cfg (MAX_INTERNAL_VLAN env) INTERNAL_VLAN_ID_INVALID);
                     (other_config, s) =
                       (if min_vlan_db = min_vlan_in \<and> max_vlan_db = max_vlan_in \<or>
                           min_vlan_in = 0 \<and> max_vlan_in = 0
                        then (smap_replace (INTERNAL_VLAN_POLICY env) (POLICY_ASCENDING_DEFAULT env)
                               (smap_replace (MAX_INTERNAL_VLAN env) (take 4 (dec (DFLT_MAX_INTERNAL_VLAN_ID env)))
                                 (smap_replace (MIN_INTERNAL_VLAN env)
                                   (take 4 (dec (DFLT_MIN_INTERNAL_VLAN_ID env))) cfg)), s)
                        else (cfg, vty_out (''Invalid internal VLAN range specified.Configured internal VLAN range: '' @
                               dec min_vlan_db @ ''-'' @ dec max_vlan_db @ VTY_NEWLINE env) s))
                 in finish_nonzero env
                      (idl_write env (System_Set_Other_Config (s_row const_row) other_config) s))))"

definition cli_vlan_int_range_del :: command where
  "cli_vlan_int_range_del env argv s = vlan_int_range_del env 0 0 s"

definition cli_vlan_int_range_del_arg :: command where
  "cli_vlan_int_range_del_arg env argv s =
     (let min_vlan = c_uint16 (atoi (argv ! 0));
          max_vlan = c_uint16 (atoi (argv ! 1))
      in if max_vlan < min_vlan
         then Some (CMD_SUCCESS, vty_out
           (''Invalid VLAN range. End VLAN must be greater or equal to start VLAN.'' @ VTY_NEWLINE env) s)
         else vlan_int_range_del env min_vlan max_vlan s)"

section \<open>The commands keep the transaction discipline\<close>

lemma open_from_write_all:
  "open_from tr s \<Longrightarrow> \<forall>w \<in> set ws. cli_typed w \<Longrightarrow> open_from tr (write_all env ws s)"
  unfolding write_all_def by (induction ws arbitrary: s) (auto intro: open_from_emit)

lemma new_vlan_writes_typed: "\<forall>w \<in> set (new_vlan_writes row vid name). cli_typed w"
  by (simp add: new_vlan_writes_def)

lemma foldl_open:
  "open_from tr s \<Longrightarrow> (\<And>x s. open_from tr s \<Longrightarrow> open_from tr (f s x)) \<Longrightarrow> open_from tr (foldl f s xs)"
  by (induction xs arbitrary: s) auto

lemma open_from_join: "open_from tr s \<Longrightarrow> open_from tr (join_vlan_interface env n vid s)"
  unfolding join_vlan_interface_def by (erule foldl_open) (simp add: open_from_emit)

lemma open_from_unlink: "unlink_port env vid p s = Some t \<Longrightarrow> open_from tr s \<Longrightarrow> open_from tr t"
  unfolding unlink_port_def Let_def
  by (auto intro!: open_from_emit split: prod.split_asm option.split_asm if_split_asm)

lemma ends_unlinks:
  assumes "open_from tr s" and "\<And>t. open_from tr t \<Longrightarrow> ends (f t) tr"
  shows "ends (case foldM (unlink_port env vid) ps s of None \<Rightarrow> None | Some t \<Rightarrow> f t) tr"
proof (cases "foldM (unlink_port env vid) ps s")
  case None
  then show ?thesis by (simp add: ends_None)
next
  case (Some t)
  from Some have "open_from tr t" by (rule foldM_result_inv) (use assms(1) open_from_unlink in auto)
  with Some assms(2) show ?thesis by simp
qed

lemma ends_idle:
  "phase (c_trace s) = Idle \<Longrightarrow> c_trace s' = c_trace s \<Longrightarrow> ends (Some (r, s')) (c_trace s)"
  "phase (c_trace s) = Idle \<Longrightarrow> c_trace s' = c_trace s @ [Out m] \<Longrightarrow> ends (Some (r, s')) (c_trace s)"
  by (simp_all add: ends_def)

lemma ends_finish:
  "open_from tr s \<Longrightarrow> c_trace s' = c_trace s @ [Txn_Finish st] \<Longrightarrow> ends (Some (r, s')) tr"
  "open_from tr s \<Longrightarrow> c_trace s' = c_trace s @ [Txn_Finish st, Out m] \<Longrightarrow> ends (Some (r, s')) tr"
  "open_from tr s \<Longrightarrow> c_trace s' = c_trace s @ [Txn_Abort] \<Longrightarrow> ends (Some (r, s')) tr"
  "open_from tr s \<Longrightarrow> c_trace s' = c_trace s @ [Txn_Abort, Out m] \<Longrightarrow> ends (Some (r, s')) tr"
  using endsI [of s Open tr s' "[Txn_Finish st]" r] endsI [of s Open tr s' "[Txn_Finish st, Out m]" r]
    endsI [of s Open tr s' "[Txn_Abort]" r] endsI [of s Open tr s' "[Txn_Abort, Out m]" r]
  by (auto simp: open_from_def)

lemma ends_not_started:
  "phase (c_trace s) = Idle \<Longrightarrow>
     ends (Some (r, emit Txn_Abort (emit (Txn_Start False) s))) (c_trace s)"
  by (erule endsI [where fs = "[Txn_Start False, Txn_Abort]"]) simp_all

lemma open_from_start: "phase (c_trace s) = Idle \<Longrightarrow> open_from (c_trace s) (emit (Txn_Start True) s)"
  by (simp add: open_from_def)

lemma ends_finish_nonzero: "open_from tr s \<Longrightarrow> ends (finish_nonzero env s) tr"
  by (auto simp: finish_nonzero_def Let_def intro: ends_finish(1))

interpretation interface_vlan: config_command vtysh_interface_vlan
  by (rule config_commandI) (auto simp: vtysh_interface_vlan_def Let_def split_beta intro: ends_idle)

interpretation no_interface_vlan: config_command no_vtysh_interface_vlan
  by (rule config_commandI) (auto simp: no_vtysh_interface_vlan_def Let_def split_beta intro: ends_idle)

lemmas vlan_intros = ends_intros ends_commit_then open_from_join open_from_write_all
  new_vlan_writes_typed

interpretation vlan: config_command vtysh_vlan
  by (rule config_commandI, unfold vtysh_vlan_def Let_def)
    (intro vlan_intros | assumption | (simp; fail) | (rule ends_idle(1), assumption, simp; fail)
      | (rule ends_idle(2), assumption, simp; fail))+

interpretation no_vlan: config_command vtysh_no_vlan
  by (rule config_commandI, unfold vtysh_no_vlan_def Let_def)
    (intro ends_unlinks vlan_intros | assumption | (simp; fail) | (rule ends_idle(1), assumption, simp; fail)
      | (rule ends_idle(2), assumption, simp; fail))+

interpretation vlan_admin: config_command cli_vlan_admin
  by (rule config_commandI, unfold cli_vlan_admin_def Let_def)
    (intro ends_intros | assumption | erule ends_finish(4), simp | (simp; fail))+

interpretation no_vlan_admin: config_command cli_no_vlan_admin
  by (rule config_commandI, unfold cli_no_vlan_admin_def Let_def)
    (intro ends_intros | assumption | (simp; fail))+

lemma vlan_int_range_add_ends:
  "phase (c_trace s) = Idle \<Longrightarrow> ends (vlan_int_range_add env a b p s) (c_trace s)"
  by (auto simp: vlan_int_range_add_def Let_def ends_not_started
      intro!: ends_if ends_case_option ends_finish_nonzero open_from_emit open_from_start
      intro: ends_finish(3) [OF open_from_start])

lemma vlan_int_range_del_ends:
  "phase (c_trace s) = Idle \<Longrightarrow> ends (vlan_int_range_del env a b s) (c_trace s)"
  by (auto simp: vlan_int_range_del_def Let_def ends_not_started
      intro!: ends_if ends_case_option ends_case_prod ends_finish_nonzero open_from_emit open_from_start
      intro: ends_finish(3) [OF open_from_start])

interpretation int_range_add: config_command cli_vlan_int_range_add
  by (rule config_commandI)
    (auto simp: cli_vlan_int_range_add_def Let_def intro: ends_idle vlan_int_range_add_ends)

interpretation int_range_del: config_command cli_vlan_int_range_del
  by (rule config_commandI) (simp add: cli_vlan_int_range_del_def vlan_int_range_del_ends)

interpretation int_range_del_arg: config_command cli_vlan_int_range_del_arg
  by (rule config_commandI)
    (auto simp: cli_vlan_int_range_del_arg_def Let_def intro: ends_idle vlan_int_range_del_ends)

end
