(* ===== verification/Cli_Show.thy ===== *)
theory Cli_Show
  imports Cli_Vlan
begin

text \<open>
  The commands that print VLANs (\<^verbatim>\<open>show vlan ...\<close> in \<^verbatim>\<open>src/cli/vlan_vty.c\<close>) and the callbacks that
  print the running configuration (\<^verbatim>\<open>src/cli/vtysh_ovsdb_vlan_context.c\<close>).
\<close>

section \<open>Sorting by VLAN id\<close>

text \<open>\<^verbatim>\<open>sscanf\<close> with \<^verbatim>\<open>%d\<close> into an unsigned integer.\<close>

definition scan_uint :: "string \<Rightarrow> int" where
  "scan_uint name = take_bit 32 (atoi name)"

definition compare_nodes_by_vlan_id_in_numerical :: "string \<times> 'a \<Rightarrow> string \<times> 'a \<Rightarrow> int" where
  "compare_nodes_by_vlan_id_in_numerical a b =
     (let i1 = scan_uint (fst a); i2 = scan_uint (fst b)
      in if i1 = i2 then 0 else if i1 < i2 then -1 else 1)"

text \<open>
  \<^verbatim>\<open>sort_vlan_id\<close>: null for an empty table, otherwise the nodes sorted with the comparator
  (insertion in front of the first node that is not smaller; \<^verbatim>\<open>qsort\<close> leaves the order of nodes
  that compare equal open).
\<close>

fun insert_node :: "string \<times> 'a \<Rightarrow> (string \<times> 'a) list \<Rightarrow> (string \<times> 'a) list" where
  "insert_node n [] = [n]"
| "insert_node n (m # ms) =
     (if compare_nodes_by_vlan_id_in_numerical n m \<le> 0 then n # m # ms else m # insert_node n ms)"

definition sort_vlan_id :: "'a shash \<Rightarrow> (string \<times> 'a) list option" where
  "sort_vlan_id sh = (if sh = [] then None else Some (foldr insert_node sh []))"

definition shash_add :: "sh_rank \<Rightarrow> string \<Rightarrow> 'a \<Rightarrow> 'a shash \<Rightarrow> 'a shash" where
  "shash_add rank k v sh = shash_place rank k v sh"

text \<open>The nodes the loops over the sorted array visit: none when the array is null.\<close>

definition sorted_nodes :: "'a shash \<Rightarrow> (string \<times> 'a) list" where
  "sorted_nodes sh = (case sort_vlan_id sh of None \<Rightarrow> [] | Some ns \<Rightarrow> ns)"

definition vlan_table :: "sh_rank \<Rightarrow> (int \<Rightarrow> string) \<Rightarrow> ovsrec_vlan list \<Rightarrow> ovsrec_vlan shash" where
  "vlan_table rank key rows = foldl (\<lambda>sh vlan_row. shash_add rank (key (v_id vlan_row)) vlan_row sh) [] rows"

section \<open>The ports of a VLAN\<close>

definition tag_is :: "ops_utils \<Rightarrow> int \<Rightarrow> ovsrec_port \<Rightarrow> bool" where
  "tag_is U vid port_row \<longleftrightarrow> p_vlan_tag port_row \<noteq> None \<and> ops_port_get_tag U port_row = vid"

text \<open>\<^verbatim>\<open>port_nodes\<close> of \<^verbatim>\<open>cli_show_vlan\<close>, and the size its allocation provides for.\<close>

definition port_nodes :: "ops_utils \<Rightarrow> int \<Rightarrow> ovsrec_port list \<Rightarrow> ovsrec_port list" where
  "port_nodes U vid rows =
     concat (map (\<lambda>port_row.
       (let in_trunks = (vid \<in> set (port_trunks U port_row));
            print_tag = (in_trunks \<and> tag_is U vid port_row)
        in (if in_trunks then [port_row] else []) @
           (if \<not> print_tag \<and> tag_is U vid port_row then [port_row] else []))) rows)"

definition port_count :: "ovsrec_port list \<Rightarrow> nat" where
  "port_count rows =
     length (filter (\<lambda>port_row. p_vlan_tag port_row \<noteq> None \<or> n_vlan_trunks port_row \<noteq> 0) rows)"

section \<open>\<^verbatim>\<open>show vlan\<close>\<close>

definition show_header :: "string \<Rightarrow> string list" where
  "show_header nl =
     [nl, replicate 86 CHR ''-'' @ nl,
      ''VLAN    Name            Status   Reason         Reserved       Interfaces'' @ nl,
      replicate 86 CHR ''-'' @ nl]"

definition show_columns :: "string \<Rightarrow> ovsrec_vlan \<Rightarrow> string list" where
  "show_columns vlan_id vlan_row =
     [pad_right 8 vlan_id, pad_right 16 (v_name vlan_row), pad_right 9 (v_oper_state vlan_row),
      pad_right 15 (v_oper_state_reason vlan_row),
      pad_right 15 (if v_internal_usage vlan_row \<noteq> [] then ''l3port'' else '''')]"

fun comma_separated :: "string list \<Rightarrow> string list" where
  "comma_separated [] = []"
| "comma_separated [x] = [x]"
| "comma_separated (x # xs) = (x @ '', '') # comma_separated xs"

definition show_vlan_row :: "vty_env \<Rightarrow> ovsdb \<Rightarrow> ovsrec_vlan \<Rightarrow> string list" where
  "show_vlan_row env db vlan_row =
     (let nodes = port_nodes (utils env) (v_id vlan_row) (ports db);
          table = foldl (\<lambda>sh p. shash_add (vty_hash_rank env) (p_name p) () sh) [] nodes
      in show_columns (take 4 (dec (v_id vlan_row))) vlan_row @
         (case smap_get (v_internal_usage vlan_row) VLAN_INTERNAL_USAGE_L3PORT of
            None \<Rightarrow> [] | Some l3_port \<Rightarrow> [l3_port]) @
         (if nodes \<noteq> [] then comma_separated (sort_interface env (shash_nodes table)) else []) @
         [VTY_NEWLINE env])"

definition print_all :: "string list \<Rightarrow> cli \<Rightarrow> cli" where
  "print_all ts s = foldl (\<lambda>s t. vty_out t s) s ts"

definition cli_show_vlan :: command where
  "cli_show_vlan env argv s =
     (let db = c_db s; nl = VTY_NEWLINE env
      in if vlans db = [] then Some (CMD_SUCCESS, vty_out (''No vlan is configured'' @ nl) s)
         else
           Some (CMD_SUCCESS,
             print_all
               (show_header nl @
                concat (map (\<lambda>n. show_vlan_row env db (snd n))
                  (sorted_nodes (vlan_table (vty_hash_rank env) dec (vlans db))))) s))"

definition cli_show_vlan_summary :: command where
  "cli_show_vlan_summary env argv s =
     Some (CMD_SUCCESS, vty_out (''Number of existing VLANs: '' @
       dec (int (length (vlans (c_db s)))) @ VTY_NEWLINE env) s)"

text \<open>
  The port names of \<^verbatim>\<open>show vlan <id>\<close>: \<open>count\<close> says whether a name was printed before, and
  \<open>print_tag\<close> keeps its value from one port to the next.
\<close>

definition print_name :: "bool \<Rightarrow> string \<Rightarrow> string" where
  "print_name first name = (if first then name else '', '' @ name)"

fun show_trunk_names :: "bool \<Rightarrow> string \<Rightarrow> int \<Rightarrow> int list \<Rightarrow> string list \<times> bool" where
  "show_trunk_names first name vid [] = ([], first)"
| "show_trunk_names first name vid (t # ts) =
     (if vid = t then
        (let (out, f) = show_trunk_names False name vid ts in (print_name first name # out, f))
      else show_trunk_names first name vid ts)"

fun show_port_names ::
  "ops_utils \<Rightarrow> int \<Rightarrow> ovsrec_port list \<Rightarrow> bool \<Rightarrow> bool \<Rightarrow> string list" where
  "show_port_names U vid [] first print_tag = []"
| "show_port_names U vid (port_row # rows) first print_tag =
     (let trunks = port_trunks U port_row;
          (out, first) = show_trunk_names first (p_name port_row) vid trunks;
          print_tag = (print_tag \<or> vid \<in> set trunks \<and> tag_is U vid port_row)
      in if \<not> print_tag \<and> tag_is U vid port_row
         then out @ print_name first (p_name port_row) # show_port_names U vid rows False print_tag
         else out @ show_port_names U vid rows first print_tag)"

definition cli_show_vlan_id :: command where
  "cli_show_vlan_id env argv s =
     (let db = c_db s; nl = VTY_NEWLINE env; vlan_id = atoi (argv ! 0)
      in if vlans db = [] then Some (CMD_SUCCESS, vty_out (''No vlan is configured'' @ nl) s)
         else
           case find_vlan db vlan_id of
             None \<Rightarrow>
               Some (CMD_SUCCESS, vty_out (''VLAN '' @ dec vlan_id @ '' has not been configured'' @ nl) s)
           | Some vlan_row \<Rightarrow>
               Some (CMD_SUCCESS,
                 print_all
                   (show_header nl @ show_columns (argv ! 0) vlan_row @
                    (if ports db \<noteq> [] then
                       show_port_names (utils env) (v_id vlan_row) (ports db) True False @
                       (case smap_get (v_internal_usage vlan_row) VLAN_INTERNAL_USAGE_L3PORT of
                          None \<Rightarrow> [] | Some l3_port \<Rightarrow> [l3_port])
                     else []) @ [nl]) s))"

section \<open>\<^verbatim>\<open>show vlan internal\<close>\<close>

definition tab_line :: "string \<Rightarrow> string \<Rightarrow> string" where
  "tab_line a b = [CHR 0x09] @ pad_right 4 a @ [CHR 0x09, CHR 0x09] @ pad_right 16 b @ [CHR 0x0A]"

definition show_vlan_int_range :: "vty_env \<Rightarrow> cli \<Rightarrow> (cmd_ret \<times> cli) option" where
  "show_vlan_int_range env s =
     (case ovsrec_system_first (c_db s) of
        None \<Rightarrow> Some (CMD_OVSDB_FAILURE, s)
      | Some const_row \<Rightarrow>
          (let cfg = s_other_config const_row;
               min_vlan = c_uint16 (smap_get_int env cfg (MIN_INTERNAL_VLAN env) INTERNAL_VLAN_ID_INVALID);
               max_vlan = c_uint16 (smap_get_int env cfg (MAX_INTERNAL_VLAN env) INTERNAL_VLAN_ID_INVALID);
               policy = smap_get cfg (INTERNAL_VLAN_POLICY env);
               (min_vlan, max_vlan, policy) =
                 (if min_vlan = INTERNAL_VLAN_ID_INVALID \<or> max_vlan = INTERNAL_VLAN_ID_INVALID \<or> policy = None
                  then (c_uint16 (DFLT_MIN_INTERNAL_VLAN_ID env), c_uint16 (DFLT_MAX_INTERNAL_VLAN_ID env),
                        POLICY_ASCENDING_DEFAULT env)
                  else (min_vlan, max_vlan, the policy));
               table = foldl (\<lambda>sh port_row.
                   case smap_get (p_hw_config port_row) (PORT_INTERNAL_VLAN_ID env) of
                     None \<Rightarrow> sh
                   | Some port_vlan_str \<Rightarrow> shash_add (vty_hash_rank env) port_vlan_str port_row sh)
                 [] (ports (c_db s))
           in Some (CMD_SUCCESS,
                print_all
                  ([CHR 0x0A # ''Internal VLAN range  : '' @ dec min_vlan @ ''-'' @ dec max_vlan @ [CHR 0x0A],
                    ''Internal VLAN policy : '' @ policy @ [CHR 0x0A],
                    ''------------------------'' @ [CHR 0x0A],
                    ''Assigned Interfaces:'' @ [CHR 0x0A],
                    tab_line ''VLAN'' ''Interface'', tab_line ''----'' ''---------''] @
                   map (\<lambda>n. tab_line (fst n) (p_name (snd n))) (sorted_nodes table)) s)))"

definition cli_show_vlan_int_range :: command where
  "cli_show_vlan_int_range env argv s = show_vlan_int_range env s"

section \<open>The running configuration\<close>

definition VLAN_ID_LEN :: nat where
  "VLAN_ID_LEN = 5"

definition VLAN_POLICY_STR_LEN :: nat where
  "VLAN_POLICY_STR_LEN = 11"

text \<open>The sorted list and its count.\<close>

definition vtysh_vlan_context_init ::
  "sh_rank \<Rightarrow> ovsdb \<Rightarrow> (string \<times> ovsrec_vlan) list option \<times> nat" where
  "vtysh_vlan_context_init rank db =
     (let table = vlan_table rank (\<lambda>id. take (VLAN_ID_LEN - 1) (dec id)) (vlans db)
      in (sort_vlan_id table, length table))"

text \<open>\<open>None\<close>: \<^verbatim>\<open>strcmp\<close> on a null \<open>admin\<close> column.\<close>

definition vtysh_vlan_context_clientcallback :: "vty_env \<Rightarrow> ovsrec_vlan \<Rightarrow> string list option" where
  "vtysh_vlan_context_clientcallback env vlan_row =
     (if check_if_internal_vlan env vlan_row then Some []
      else
        case v_admin vlan_row of
          None \<Rightarrow> None
        | Some a \<Rightarrow>
            Some ([''vlan '' @ dec (c_int (v_id vlan_row))] @
              (if a = OVSREC_VLAN_ADMIN_UP then [''    no shutdown''] else []) @
              (case v_description vlan_row of
                 None \<Rightarrow> [] | Some d \<Rightarrow> [''    description '' @ d])))"

definition trunk_lines :: "ops_utils \<Rightarrow> ovsrec_port \<Rightarrow> string list" where
  "trunk_lines U port_row =
     map (\<lambda>v. ''    vlan trunk allowed '' @ dec (c_int v)) (port_trunks U port_row)"

definition native_line :: "ops_utils \<Rightarrow> ovsrec_port \<Rightarrow> string list" where
  "native_line U port_row =
     (if p_vlan_tag port_row \<noteq> None
      then [''    vlan trunk native '' @ dec (c_int (ops_port_get_tag U port_row))] else [])"

definition vtysh_ovsdb_intftable_parse_vlan :: "vty_env \<Rightarrow> ovsdb \<Rightarrow> string \<Rightarrow> string list" where
  "vtysh_ovsdb_intftable_parse_vlan env db if_name =
     (case port_lookup env db if_name of
        None \<Rightarrow> []
      | Some port_row \<Rightarrow>
          (case p_vlan_mode port_row of
             None \<Rightarrow> []
           | Some mode \<Rightarrow>
               if mode = OVSREC_PORT_VLAN_MODE_ACCESS then
                 (if p_vlan_tag port_row \<noteq> None
                  then [''    vlan access '' @ dec (c_int (ops_port_get_tag (utils env) port_row))] else [])
               else if mode = OVSREC_PORT_VLAN_MODE_TRUNK then trunk_lines (utils env) port_row
               else if mode = OVSREC_PORT_VLAN_MODE_NATIVE_UNTAGGED then
                 native_line (utils env) port_row @ trunk_lines (utils env) port_row
               else if mode = OVSREC_PORT_VLAN_MODE_NATIVE_TAGGED then
                 native_line (utils env) port_row @ [''    vlan trunk native tag''] @
                 trunk_lines (utils env) port_row
               else []))"

definition DEFAULT_INTERNAL_VLAN_MIN_VID_VALUE :: int where
  "DEFAULT_INTERNAL_VLAN_MIN_VID_VALUE = 1024"

definition DEFAULT_INTERNAL_VLAN_MAX_VID_VALUE :: int where
  "DEFAULT_INTERNAL_VLAN_MAX_VID_VALUE = 4094"

definition vtysh_vlan_global_context_clientcallback :: "vty_env \<Rightarrow> ovsdb \<Rightarrow> string list" where
  "vtysh_vlan_global_context_clientcallback env db =
     (case ovsrec_system_first db of
        None \<Rightarrow> []
      | Some system_row \<Rightarrow>
          (let cfg = s_other_config system_row;
               min_id = c_uint16 (smap_get_int env cfg (MIN_INTERNAL_VLAN env) INTERNAL_VLAN_ID_INVALID);
               max_id = c_uint16 (smap_get_int env cfg (MAX_INTERNAL_VLAN env) INTERNAL_VLAN_ID_INVALID)
           in case smap_get cfg (INTERNAL_VLAN_POLICY env) of
                None \<Rightarrow> []
              | Some vlan_policy \<Rightarrow>
                  if min_id \<noteq> DEFAULT_INTERNAL_VLAN_MIN_VID_VALUE \<or>
                     max_id \<noteq> DEFAULT_INTERNAL_VLAN_MAX_VID_VALUE \<or>
                     take VLAN_POLICY_STR_LEN vlan_policy \<noteq>
                       take VLAN_POLICY_STR_LEN (POLICY_ASCENDING_DEFAULT env)
                  then [''vlan internal range '' @ dec min_id @ '' '' @ dec max_id @ '' '' @ vlan_policy]
                  else []))"

text \<open>The lines of an interface, and the flag that its header has been printed.\<close>

definition vtysh_intf_context_vlan_clientcallback ::
  "vty_env \<Rightarrow> ovsdb \<Rightarrow> string \<Rightarrow> bool \<Rightarrow> string list \<times> bool" where
  "vtysh_intf_context_vlan_clientcallback env db ifname disp_header_cfg =
     (case port_lookup env db ifname of
        None \<Rightarrow> ([], disp_header_cfg)
      | Some port_row \<Rightarrow>
          if \<not> check_iface_in_vrf env ifname then
            ((if \<not> disp_header_cfg then [''interface '' @ ifname] else []) @ [''    no routing''] @
               vtysh_ovsdb_intftable_parse_vlan env db ifname, True)
          else ([], disp_header_cfg))"

text \<open>What is printed appears on the terminal in its order, and changes nothing else.\<close>

lemma print_all_trace: "c_trace (print_all ts s) = c_trace s @ map Out ts" "c_db (print_all ts s) = c_db s"
  unfolding print_all_def by (induction ts arbitrary: s) auto

end
