(* ===== verification/Cli_Facts.thy ===== *)
theory Cli_Facts
  imports Cli_Show Port_Sync
begin

text \<open>
  What the properties of the CLI share: the batches a command commits, the effect of port writes
  on the replica as the client library documents it (\<open>port_write_laws\<close>), and facts about the
  search for the port of an interface.
\<close>

section \<open>Committed batches\<close>

lemma committed_from_start:
  "committed_from pend (es @ Txn_Start b # fs) = committed_from pend es @ committed_from [] fs"
proof (induction es arbitrary: pend)
  case (Cons e es)
  then show ?case by (cases e) simp_all
qed simp

text \<open>A transaction that starts now adds its batch, if it has one, to those committed before.\<close>

lemma committed_writes_start:
  "committed_writes (es @ Txn_Start b # fs) = committed_writes es @ committed_from [] fs"
  unfolding committed_writes_def by (rule committed_from_start)

lemma committed_writes_out: "committed_from pend (es @ [Out m]) = committed_from pend es"
proof (induction es arbitrary: pend)
  case (Cons e es)
  then show ?case by (cases e) simp_all
qed simp

lemma committed_from_added: "committed_from pend (map Port_Added is @ es) = committed_from pend es"
  by (induction "is") simp_all

lemma add_port_ref_trace:
  "add_port_ref env ifname s = (r, s') \<Longrightarrow> c_trace s' = c_trace s @ map Port_Added [ifname] \<and> c_index s' = c_index s"
  by (auto simp: add_port_ref_def add_port_def split: prod.splits)

lemma obtain_port_trace:
  assumes "obtain_port env ifname cur s = (found, s')"
  shows "\<exists>is. c_trace s' = c_trace s @ map Port_Added is \<and> c_index s' = c_index s"
proof -
  obtain f s1 where f: "(if ports (c_db s) = [] then (let (r, s) = add_port_ref env ifname s in (Inr r, s))
      else (scan_ports (find_interface (c_db s) ifname) ifname (ports (c_db s)) cur, s)) = (f, s1)"
    by fastforce
  then obtain is1 where is1: "c_trace s1 = c_trace s @ map Port_Added is1" "c_index s1 = c_index s"
  proof (cases "ports (c_db s) = []")
    case True
    obtain r t where "add_port_ref env ifname s = (r, t)" by fastforce
    with add_port_ref_trace [OF this] f True show ?thesis by (intro that [of "[ifname]"]) auto
  next
    case False
    with f show ?thesis by (intro that [of "[]"]) auto
  qed
  obtain r2 s2 where a: "add_port_ref env ifname s1 = (r2, s2)" by fastforce
  from add_port_ref_trace [OF a] is1 have s2: "c_trace s2 = c_trace s @ map Port_Added (is1 @ [ifname])"
    "c_index s2 = c_index s" by simp_all
  from assms f a have "s' = s1 \<or> s' = s2"
    by (cases f) (auto simp: obtain_port_def split: option.splits)
  with is1 s2 show ?thesis by blast
qed

text \<open>
  \<open>in_txn tr ws s\<close>: since the trace \<open>tr\<close> the command has opened a transaction, perhaps added
  ports, and written \<open>ws\<close>. Each way to end the command gives the batches committed by then.
\<close>

definition in_txn :: "cli_event list \<Rightarrow> cli_write list \<Rightarrow> cli \<Rightarrow> bool" where
  "in_txn tr ws s \<longleftrightarrow> (\<exists>is. c_trace s = tr @ Txn_Start True # map Port_Added is @ map Write ws)"

lemma committed_from_writes: "committed_from pend (map Write ws @ es) = committed_from (pend @ ws) es"
  by (induction ws arbitrary: pend) simp_all

lemma in_txn_start: "in_txn (c_trace s) [] (emit (Txn_Start True) s)"
  unfolding in_txn_def by (rule exI [of _ "[]"]) simp

lemma in_txn_write: "in_txn tr ws s \<Longrightarrow> in_txn tr (ws @ [w]) (idl_write env w s)"
  by (auto simp: in_txn_def)

lemma in_txn_obtain:
  assumes "obtain_port env ifname cur s = (found, s')" and "in_txn tr [] s"
  shows "in_txn tr [] s' \<and> c_index s' = c_index s"
proof -
  from obtain_port_trace [OF assms(1)] obtain is1 where
    is1: "c_trace s' = c_trace s @ map Port_Added is1" "c_index s' = c_index s" by blast
  from assms(2) obtain is0 where "c_trace s = tr @ Txn_Start True # map Port_Added is0"
    by (auto simp: in_txn_def)
  with is1 have "c_trace s' = tr @ Txn_Start True # map Port_Added (is0 @ is1) @ map Write []" by simp
  with is1(2) show ?thesis unfolding in_txn_def by blast
qed

lemma in_txn_give_up:
  "in_txn tr ws s \<Longrightarrow> give_up m s = Some (r, s') \<Longrightarrow>
     r = CMD_SUCCESS \<and> committed_writes (c_trace s') = committed_writes tr \<and> c_db s' = c_db s"
  by (auto simp: in_txn_def give_up_def committed_writes_start committed_from_added committed_from_writes)

lemma in_txn_quit:
  "in_txn tr ws s \<Longrightarrow> quit s = Some (r, s') \<Longrightarrow>
     r = CMD_SUCCESS \<and> committed_writes (c_trace s') = committed_writes tr \<and> c_db s' = c_db s"
  by (auto simp: in_txn_def quit_def committed_writes_start committed_from_added committed_from_writes)

lemma in_txn_commit:
  "in_txn tr ws s \<Longrightarrow> commit env m s = Some (r, s') \<Longrightarrow>
     r = CMD_SUCCESS \<and> c_db s' = c_db s \<and> committed_writes (c_trace s') =
       committed_writes tr @ (if txn_done (cli_do_config_finish env) then [ws] else [])"
  by (auto simp: in_txn_def commit_def commit_then_def Let_def committed_writes_start committed_from_added
      committed_from_writes split: if_splits)

lemma in_txn_commit_out:
  "in_txn tr ws s \<Longrightarrow> commit env m (vty_out t s) = Some (r, s') \<Longrightarrow>
     r = CMD_SUCCESS \<and> c_db s' = c_db s \<and> committed_writes (c_trace s') =
       committed_writes tr @ (if txn_done (cli_do_config_finish env) then [ws] else [])"
  by (auto simp: in_txn_def commit_def commit_then_def Let_def committed_writes_start committed_from_added
      committed_from_writes split: if_splits)

lemma commit_returns: "\<exists>r s'. commit env m s = Some (r, s')"
  by (cases "txn_done (cli_do_config_finish env)") (simp_all add: commit_def commit_then_def Let_def)

lemma with_txn_cases:
  assumes "with_txn env m body s = Some (r, s')"
  obtains (failed) "\<not> cli_do_config_start env" "r = CMD_SUCCESS" "c_db s' = c_db s"
      "committed_writes (c_trace s') = committed_writes (c_trace s)"
    | (started) "cli_do_config_start env" "body (emit (Txn_Start True) s) = Some (r, s')"
proof (cases "cli_do_config_start env")
  case True
  with assms started show ?thesis by (simp add: with_txn_def)
next
  case False
  with assms failed show ?thesis by (auto simp: with_txn_def committed_writes_start)
qed

text \<open>
  Walking through a command: \<open>returns P res\<close> says that \<open>P\<close> holds of what the command returns, if it
  does not read through a null pointer. One rule per control construct leaves the ends of the
  paths, each with the conditions that lead there.
\<close>

definition returns :: "(cmd_ret \<Rightarrow> cli \<Rightarrow> bool) \<Rightarrow> (cmd_ret \<times> cli) option \<Rightarrow> bool" where
  "returns P res \<longleftrightarrow> (\<forall>r s'. res = Some (r, s') \<longrightarrow> P r s')"

lemma returnsD: "returns P res \<Longrightarrow> res = Some (r, s') \<Longrightarrow> P r s'"
  by (simp add: returns_def)

lemma returns_None: "returns P None"
  by (simp add: returns_def)

lemma returns_if: "(b \<Longrightarrow> returns P x) \<Longrightarrow> (\<not> b \<Longrightarrow> returns P y) \<Longrightarrow> returns P (if b then x else y)"
  by simp

lemma returns_case_option:
  "(x = None \<Longrightarrow> returns P a) \<Longrightarrow> (\<And>y. x = Some y \<Longrightarrow> returns P (f y)) \<Longrightarrow>
     returns P (case x of None \<Rightarrow> a | Some y \<Rightarrow> f y)"
  by (cases x) simp_all

lemma returns_case_sum:
  "(\<And>y. x = Inl y \<Longrightarrow> returns P (f y)) \<Longrightarrow> (\<And>z. x = Inr z \<Longrightarrow> returns P (g z)) \<Longrightarrow>
     returns P (case x of Inl y \<Rightarrow> f y | Inr z \<Rightarrow> g z)"
  by (cases x) simp_all

lemma returns_case_prod: "(\<And>y z. x = (y, z) \<Longrightarrow> returns P (f y z)) \<Longrightarrow> returns P (case x of (y, z) \<Rightarrow> f y z)"
  by (cases x) simp

lemma returns_with_txn:
  assumes "\<And>r t. committed_writes (c_trace t) = committed_writes (c_trace s) \<Longrightarrow> c_db t = c_db s \<Longrightarrow> P CMD_SUCCESS t"
    and "cli_do_config_start env \<Longrightarrow> returns P (body (emit (Txn_Start True) s))"
  shows "returns P (with_txn env m body s)"
  unfolding returns_def
proof (intro allI impI)
  fix r s' assume "with_txn env m body s = Some (r, s')"
  then show "P r s'" by (cases rule: with_txn_cases) (use assms in \<open>auto dest: returnsD\<close>)
qed

lemma returns_stop:
  assumes "in_txn tr ws t"
    and "\<And>s'. committed_writes (c_trace s') = committed_writes tr \<Longrightarrow> c_db s' = c_db t \<Longrightarrow> P CMD_SUCCESS s'"
  shows "returns P (give_up m t)" "returns P (quit t)"
  using in_txn_give_up [OF assms(1)] in_txn_quit [OF assms(1)] assms(2) unfolding returns_def by metis+

lemma returns_commit:
  assumes "in_txn tr ws t"
    and "\<And>s'. committed_writes (c_trace s') =
        committed_writes tr @ (if txn_done (cli_do_config_finish env) then [ws] else []) \<Longrightarrow>
      c_db s' = c_db t \<Longrightarrow> P CMD_SUCCESS s'"
  shows "returns P (commit env m t)"
  using in_txn_commit [OF assms(1)] assms(2) unfolding returns_def by metis

lemmas returns_paths = returns_None returns_if returns_case_option returns_case_sum returns_case_prod

section \<open>Effect of port writes\<close>

definition update_port_row :: "row_ref \<Rightarrow> (ovsrec_port \<Rightarrow> ovsrec_port) \<Rightarrow> ovsdb \<Rightarrow> ovsdb" where
  "update_port_row r f db = db\<lparr>ports := map (\<lambda>p. if p_row p = r then f p else p) (ports db)\<rparr>"

lemma update_port_row_fields [simp]:
  "vlans (update_port_row r f db) = vlans db" "interfaces (update_port_row r f db) = interfaces db"
  "systems (update_port_row r f db) = systems db" "bridges (update_port_row r f db) = bridges db"
  "vlan_exists (update_port_row r f db) = vlan_exists db"
  "find_interface (update_port_row r f db) = find_interface db"
  by (simp_all add: update_port_row_def vlan_exists_def find_interface_def fun_eq_iff)

text \<open>
  A write to a column of a port row replaces that column of that row. The tag becomes a
  reference whose VLAN id reads back if there is such a VLAN; the trunks become references that read back as the set of
  the ids passed (a set column keeps neither order nor duplicates). The id accessors look at
  their own column only.
\<close>

definition port_write_laws :: "vty_env \<Rightarrow> bool" where
  "port_write_laws env \<longleftrightarrow>
     (\<forall>r m db. apply_cli_write env (Port_Set_Vlan_Mode r m) db =
        update_port_row r (\<lambda>p. p\<lparr>p_vlan_mode := m\<rparr>) db) \<and>
     (\<forall>r v db. \<exists>t. apply_cli_write env (Port_Set_Tag r v) db = update_port_row r (\<lambda>p. p\<lparr>p_vlan_tag := t\<rparr>) db) \<and>
     (\<forall>r v db. vlan_exists db v \<longrightarrow> 0 \<le> v \<longrightarrow>
        (\<exists>t. apply_cli_write env (Port_Set_Tag r v) db = update_port_row r (\<lambda>p. p\<lparr>p_vlan_tag := Some t\<rparr>) db \<and>
           (\<forall>p. ops_port_get_tag (utils env) (p\<lparr>p_vlan_tag := Some t\<rparr>) = v))) \<and>
     (\<forall>r vs db. distinct vs \<longrightarrow> (\<forall>v \<in> set vs. vlan_exists db v \<and> 0 \<le> v) \<longrightarrow>
        (\<exists>ts. apply_cli_write env (Port_Set_Trunks r vs (int (length vs))) db =
             update_port_row r (\<lambda>p. p\<lparr>p_vlan_trunks := ts\<rparr>) db \<and> length ts = length vs \<and>
           (\<forall>p. set (port_trunks (utils env) (p\<lparr>p_vlan_trunks := ts\<rparr>)) = set vs))) \<and>
     (\<forall>p m t. port_trunks (utils env) (p\<lparr>p_vlan_mode := m\<rparr>) = port_trunks (utils env) p \<and>
        port_trunks (utils env) (p\<lparr>p_vlan_tag := t\<rparr>) = port_trunks (utils env) p) \<and>
     (\<forall>p m ts. ops_port_get_tag (utils env) (p\<lparr>p_vlan_mode := m\<rparr>) = ops_port_get_tag (utils env) p \<and>
        ops_port_get_tag (utils env) (p\<lparr>p_vlan_trunks := ts\<rparr>) = ops_port_get_tag (utils env) p)"

lemma port_write_lawsD:
  assumes "port_write_laws env"
  shows "apply_cli_write env (Port_Set_Vlan_Mode r m) db = update_port_row r (\<lambda>p. p\<lparr>p_vlan_mode := m\<rparr>) db"
    and "vlan_exists db v \<Longrightarrow> 0 \<le> v \<Longrightarrow>
      \<exists>t. apply_cli_write env (Port_Set_Tag r v) db = update_port_row r (\<lambda>p. p\<lparr>p_vlan_tag := Some t\<rparr>) db \<and>
        (\<forall>p. ops_port_get_tag (utils env) (p\<lparr>p_vlan_tag := Some t\<rparr>) = v)"
    and "distinct vs \<Longrightarrow> \<forall>v \<in> set vs. vlan_exists db v \<and> 0 \<le> v \<Longrightarrow>
      \<exists>ts. apply_cli_write env (Port_Set_Trunks r vs (int (length vs))) db =
          update_port_row r (\<lambda>p. p\<lparr>p_vlan_trunks := ts\<rparr>) db \<and> length ts = length vs \<and>
        (\<forall>p. set (port_trunks (utils env) (p\<lparr>p_vlan_trunks := ts\<rparr>)) = set vs)"
    and "port_trunks (utils env) (p\<lparr>p_vlan_mode := m\<rparr>) = port_trunks (utils env) p"
    and "port_trunks (utils env) (p\<lparr>p_vlan_tag := t\<rparr>) = port_trunks (utils env) p"
    and "ops_port_get_tag (utils env) (p\<lparr>p_vlan_mode := m\<rparr>) = ops_port_get_tag (utils env) p"
    and "ops_port_get_tag (utils env) (p\<lparr>p_vlan_trunks := ts\<rparr>) = ops_port_get_tag (utils env) p"
    and "\<exists>t. apply_cli_write env (Port_Set_Tag r w) db = update_port_row r (\<lambda>p. p\<lparr>p_vlan_tag := t\<rparr>) db"
proof -
  note C = assms [unfolded port_write_laws_def]
  note R = C [THEN conjunct2]
  note R2 = R [THEN conjunct2]
  note R3 = R2 [THEN conjunct2]
  note R4 = R3 [THEN conjunct2]
  note R5 = R4 [THEN conjunct2]
  show "apply_cli_write env (Port_Set_Vlan_Mode r m) db = update_port_row r (\<lambda>p. p\<lparr>p_vlan_mode := m\<rparr>) db"
    using C [THEN conjunct1] by blast
  show "\<exists>t. apply_cli_write env (Port_Set_Tag r w) db = update_port_row r (\<lambda>p. p\<lparr>p_vlan_tag := t\<rparr>) db"
    using R [THEN conjunct1] by blast
  show "vlan_exists db v \<Longrightarrow> 0 \<le> v \<Longrightarrow>
      \<exists>t. apply_cli_write env (Port_Set_Tag r v) db = update_port_row r (\<lambda>p. p\<lparr>p_vlan_tag := Some t\<rparr>) db \<and>
        (\<forall>p. ops_port_get_tag (utils env) (p\<lparr>p_vlan_tag := Some t\<rparr>) = v)"
    using R2 [THEN conjunct1] by blast
  show "distinct vs \<Longrightarrow> \<forall>v \<in> set vs. vlan_exists db v \<and> 0 \<le> v \<Longrightarrow>
      \<exists>ts. apply_cli_write env (Port_Set_Trunks r vs (int (length vs))) db =
          update_port_row r (\<lambda>p. p\<lparr>p_vlan_trunks := ts\<rparr>) db \<and> length ts = length vs \<and>
        (\<forall>p. set (port_trunks (utils env) (p\<lparr>p_vlan_trunks := ts\<rparr>)) = set vs)"
    using R3 [THEN conjunct1] by blast
qed (use assms in \<open>unfold port_write_laws_def, blast+\<close>)

lemma find_update_other:
  assumes "\<And>p. p_row p = r \<Longrightarrow> p_row (f p) = r"
  shows "find (\<lambda>p. p_row p = r) (map (\<lambda>p. if p_row p = r then f p else p) ps) =
    map_option f (find (\<lambda>p. p_row p = r) ps)"
  using assms by (induction ps) auto

lemma deref_update_port_row:
  "(\<And>p. p_row p = r \<Longrightarrow> p_row (f p) = r) \<Longrightarrow>
     deref_port (update_port_row r f db) r = map_option f (deref_port db r)"
  unfolding deref_port_def update_port_row_def by (simp add: find_update_other)

section \<open>The access command\<close>

text \<open>The batch that puts a port in access mode, its effect, and when the command commits it.\<close>

definition access_batch :: "row_ref \<Rightarrow> int \<Rightarrow> cli_write list" where
  "access_batch row vid =
     [Port_Set_Vlan_Mode row (Some OVSREC_PORT_VLAN_MODE_ACCESS), Port_Set_Tag row vid,
      Port_Set_Trunks row [] 0]"

definition in_access_vlan :: "ops_utils \<Rightarrow> int \<Rightarrow> ovsrec_port \<Rightarrow> bool" where
  "in_access_vlan U vid p \<longleftrightarrow> p_vlan_mode p = Some OVSREC_PORT_VLAN_MODE_ACCESS \<and>
     p_vlan_tag p \<noteq> None \<and> ops_port_get_tag U p = vid \<and> p_vlan_trunks p = []"

lemma access_batch_effect:
  assumes laws: "port_write_laws env" and vid: "vlan_exists db vid" "0 \<le> vid"
    and p: "deref_port db row = Some p"
  shows "\<exists>p'. deref_port (fold (apply_cli_write env) (access_batch row vid) db) row = Some p' \<and>
    in_access_vlan (utils env) vid p' \<and> p_name p' = p_name p"
proof -
  note L = port_write_lawsD [OF laws]
  let ?m = "Some OVSREC_PORT_VLAN_MODE_ACCESS"
  have 1: "deref_port (apply_cli_write env (Port_Set_Vlan_Mode row ?m) db) row = Some (p\<lparr>p_vlan_mode := ?m\<rparr>)"
    unfolding L(1) by (simp add: deref_update_port_row p)
  let ?d1 = "apply_cli_write env (Port_Set_Vlan_Mode row ?m) db"
  have "vlan_exists ?d1 vid" using vid(1) by (simp add: L(1))
  from L(2) [OF this vid(2)] obtain t where t: "apply_cli_write env (Port_Set_Tag row vid) ?d1 =
      update_port_row row (\<lambda>p. p\<lparr>p_vlan_tag := Some t\<rparr>) ?d1"
    "\<And>p. ops_port_get_tag (utils env) (p\<lparr>p_vlan_tag := Some t\<rparr>) = vid" by blast
  let ?d2 = "apply_cli_write env (Port_Set_Tag row vid) ?d1"
  have 2: "deref_port ?d2 row = Some (p\<lparr>p_vlan_mode := ?m, p_vlan_tag := Some t\<rparr>)"
    unfolding t(1) by (simp add: deref_update_port_row 1)
  from L(3) [of "[]" ?d2 row] obtain ts where ts: "apply_cli_write env (Port_Set_Trunks row [] 0) ?d2 =
      update_port_row row (\<lambda>p. p\<lparr>p_vlan_trunks := ts\<rparr>) ?d2" "ts = []" by auto
  have "deref_port (apply_cli_write env (Port_Set_Trunks row [] 0) ?d2) row =
      Some (p\<lparr>p_vlan_mode := ?m, p_vlan_tag := Some t, p_vlan_trunks := []\<rparr>)"
    unfolding ts by (simp add: deref_update_port_row 2)
  then show ?thesis
    by (simp add: access_batch_def in_access_vlan_def L(7) t(2))
qed

lemma intf_access_runs:
  assumes "cli_do_config_start env" and "txn_done (cli_do_config_finish env)"
    and "interfaces (c_db s) = [] \<or> check_internal_vlan env (c_db s) (atoi (argv ! 0)) \<noteq> 0"
    and o: "obtain_port env (c_index s) None (emit (Txn_Start True) s) = (Inr (Some row), s1)"
    and "check_iface_in_bridge env (c_db s1) (c_index s)" and v: "vlan_exists (c_db s1) (atoi (argv ! 0))"
  shows "\<exists>s'. cli_intf_vlan_access env argv s = Some (CMD_SUCCESS, s') \<and>
    committed_writes (c_trace s') = committed_writes (c_trace s) @ [access_batch row (atoi (argv ! 0))] \<and>
    c_db s' = fold (apply_cli_write env) (access_batch row (atoi (argv ! 0))) (c_db s1)"
proof -
  let ?vid = "atoi (argv ! 0)"
  from in_txn_obtain [OF o in_txn_start] have in1: "in_txn (c_trace s) [] s1" "c_index s1 = c_index s"
    by simp_all
  let ?u = "idl_write env (Port_Set_Trunks row [] 0) (idl_write env (Port_Set_Tag row ?vid)
        (idl_write env (Port_Set_Vlan_Mode row (Some OVSREC_PORT_VLAN_MODE_ACCESS)) s1))"
  have in3: "in_txn (c_trace s) (access_batch row ?vid) ?u"
    using in_txn_write [OF in_txn_write [OF in_txn_write [OF in1(1)]]] by (simp add: access_batch_def)
  obtain r s' where c: "commit env (OVSDB_INTF_VLAN_ACCESS_ERROR ?vid (VTY_NEWLINE env)) ?u = Some (r, s')"
    using commit_returns by blast
  have ne: "vlans (c_db s1) \<noteq> []" using v by (auto simp: vlan_exists_def)
  have "\<not> list_ex (\<lambda>tmp_row. check_internal_vlan env (c_db s) ?vid = 0) (interfaces (c_db s))"
    using assms(3) by (auto simp: list_ex_iff)
  then have "cli_intf_vlan_access env argv s = Some (r, s')"
    using assms ne c by (simp add: cli_intf_vlan_access_def with_txn_def Let_def)
  with in_txn_commit [OF in3 c] assms(2) show ?thesis by (simp add: access_batch_def)
qed

text \<open>Counting what a filter leaves out of the trunks.\<close>

lemma length_filter_count: "length (filter (\<lambda>v. v \<noteq> x) xs) + count_list xs x = length xs"
  by (induction xs) auto

lemma distinct_count: "distinct xs \<Longrightarrow> x \<in> set xs \<Longrightarrow> count_list xs x = 1"
  by (induction xs) (auto simp: count_list_0_iff)

text \<open>
  The copy loop: what it has written so far is a prefix of the array, and it goes on inside the
  array as long as the entries still to be copied fit behind that prefix.
\<close>

lemma copy_trunks_prefix:
  "copy_trunks vid vs (map Some ws @ replicate k None) (length ws) =
     (let rest = filter (\<lambda>v. v \<noteq> vid) vs
      in if length rest \<le> k then Some (map Some (ws @ rest) @ replicate (k - length rest) None) else None)"
proof (induction vs arbitrary: ws k)
  case (Cons v vs)
  show ?case
  proof (cases "v = vid")
    case False
    show ?thesis
    proof (cases k)
      case (Suc j)
      have "(map Some ws @ replicate k None)[length ws := Some v] = map Some (ws @ [v]) @ replicate j None"
        by (simp add: Suc list_update_append)
      with Cons.IH [of "ws @ [v]" j] False show ?thesis by (simp add: Suc Let_def)
    qed (use False in \<open>simp add: Let_def\<close>)
  qed (use Cons.IH [of ws k] in \<open>simp add: Let_def\<close>)
qed (simp add: Let_def)

lemma those_Some: "those (map Some xs) = Some xs"
  by (induction xs) simp_all

lemma those_None: "those (map Some xs @ None # ys) = None"
  by (induction xs) simp_all

text \<open>So the loop delivers the other entries exactly when the VLAN is listed once.\<close>

lemma remove_trunk_eq:
  "remove_trunk U row vid =
     (if count_list (port_trunks U row) vid = 1
      then Some (filter (\<lambda>v. v \<noteq> vid) (port_trunks U row), int (n_vlan_trunks row) - 1) else None)"
proof -
  let ?vs = "port_trunks U row"
  let ?rest = "filter (\<lambda>v. v \<noteq> vid) ?vs" and ?k = "n_vlan_trunks row - 1"
  have len: "length ?rest + count_list ?vs vid = n_vlan_trunks row"
    using length_filter_count [of vid ?vs] by (simp add: port_trunks_def)
  have copy: "copy_trunks vid ?vs (replicate ?k None) 0 =
      (if length ?rest \<le> ?k then Some (map Some ?rest @ replicate (?k - length ?rest) None) else None)"
    using copy_trunks_prefix [of vid ?vs "[]" ?k] by (simp add: Let_def)
  consider (one) "count_list ?vs vid = 1" | (none) "count_list ?vs vid = 0"
    | (more) "count_list ?vs vid > 1" by linarith
  then show ?thesis
  proof cases
    case one
    then have "length ?rest = ?k" "n_vlan_trunks row \<noteq> 0" using len by simp_all
    with one copy show ?thesis by (simp add: remove_trunk_def those_Some)
  next
    case none
    then have "n_vlan_trunks row = 0 \<or> \<not> length ?rest \<le> ?k" using len by auto
    with none copy show ?thesis by (auto simp: remove_trunk_def)
  next
    case more
    with len obtain j where "?k - length ?rest = Suc j"
      by (metis Suc_diff_Suc add_diff_cancel_left' diff_commute less_imp_Suc_add zero_less_diff)
    with more copy those_None [of ?rest] show ?thesis by (auto simp: remove_trunk_def)
  qed
qed

lemma count_list_one:
  "count_list xs x = 1 \<longleftrightarrow> (\<exists>ys zs. xs = ys @ x # zs \<and> x \<notin> set ys \<and> x \<notin> set zs)"
proof
  assume c: "count_list xs x = 1"
  then have "x \<in> set xs" by (metis count_list_0_iff zero_neq_one)
  then obtain ys zs where "xs = ys @ x # zs" "x \<notin> set ys" by (meson split_list_first)
  with c show "\<exists>ys zs. xs = ys @ x # zs \<and> x \<notin> set ys \<and> x \<notin> set zs"
    by (auto simp: count_list_0_iff)
qed (auto simp: count_list_0_iff)

lemma remove_trunk_result:
  assumes "remove_trunk U row vid = Some (trunks, n)"
  shows "n = int (length trunks)" and "set trunks = set (port_trunks U row) - {vid}"
    and "Suc (length trunks) = n_vlan_trunks row"
  using assms length_filter_count [of vid "port_trunks U row"]
  by (auto simp: remove_trunk_eq port_trunks_def split: if_split_asm)

section \<open>The search for the port of an interface\<close>

text \<open>The port row holds the interface of that name (the first of them in the Interface table).\<close>

definition holds_interface :: "ovsdb \<Rightarrow> string \<Rightarrow> ovsrec_port \<Rightarrow> bool" where
  "holds_interface db ifname p \<longleftrightarrow>
     (\<exists>i. find (\<lambda>i. i_name i = ifname) (interfaces db) = Some i \<and> i_row i \<in> set (p_interfaces p))"

lemma scan_ports_holds:
  "scan_ports (find_interface db ifname) ifname ps cur = Inr res \<Longrightarrow>
     (\<forall>q \<in> set ps. holds_interface db ifname q \<longrightarrow> p_name q = ifname) \<and>
     ((\<exists>p \<in> set ps. holds_interface db ifname p \<and> res = Some (p_row p)) \<or>
      (\<forall>p \<in> set ps. \<not> holds_interface db ifname p) \<and> res = cur)"
proof (induction ps arbitrary: cur)
  case (Cons p ps)
  have holds: "(case find_interface db ifname of None \<Rightarrow> False | Some r \<Rightarrow> r \<in> set (p_interfaces p)) \<longleftrightarrow>
      holds_interface db ifname p" for p
    by (auto simp: find_interface_def holds_interface_def split: option.split)
  show ?case
  proof (cases "holds_interface db ifname p")
    case True
    with Cons.prems have "p_name p = ifname"
      "scan_ports (find_interface db ifname) ifname ps (Some (p_row p)) = Inr res"
      by (auto simp only: scan_ports.simps holds split: if_splits)
    with Cons.IH [OF this(2)] True show ?thesis by auto
  next
    case False
    with Cons.prems have "scan_ports (find_interface db ifname) ifname ps cur = Inr res"
      by (simp only: scan_ports.simps holds if_False)
    with Cons.IH [OF this] False show ?thesis by auto
  qed
qed simp

text \<open>
  Where the port of a command comes from: a port of the interface's own name that holds it, or,
  when no port holds it, the one that \<open>port_check_and_add\<close> delivers.
\<close>

definition added_port :: "vty_env \<Rightarrow> string \<Rightarrow> ovsdb \<Rightarrow> ovsrec_port \<Rightarrow> ovsdb \<Rightarrow> bool" where
  "added_port env ifname db p db1 \<longleftrightarrow>
     (\<exists>db0. (db0 = db \<or> port_check_and_add env db ifname = (None, db0)) \<and>
        port_check_and_add env db0 ifname = (Some p, db1))"

lemma obtain_port_source:
  assumes "obtain_port env ifname None s = (Inr (Some r), s1)"
  shows "(\<forall>q \<in> set (ports (c_db s)). holds_interface (c_db s) ifname q \<longrightarrow> p_name q = ifname) \<and>
    ((\<exists>p \<in> set (ports (c_db s)). holds_interface (c_db s) ifname p \<and> p_row p = r) \<and> c_db s1 = c_db s \<or>
     (\<forall>p \<in> set (ports (c_db s)). \<not> holds_interface (c_db s) ifname p) \<and>
     (\<exists>p. added_port env ifname (c_db s) p (c_db s1) \<and> p_row p = r))"
proof -
  have add: "\<exists>p. port_check_and_add env (c_db u) ifname = (Some p, c_db v) \<and> p_row p = k"
    if "add_port_ref env ifname u = (Some k, v)" for u v k
    using that by (auto simp: add_port_ref_def add_port_def split: prod.splits)
  have add_None: "port_check_and_add env (c_db u) ifname = (None, c_db v)"
    if "add_port_ref env ifname u = (None, v)" for u v
    using that by (auto simp: add_port_ref_def add_port_def split: prod.splits)
  show ?thesis
  proof (cases "ports (c_db s) = []")
    case True
    obtain a t where a: "add_port_ref env ifname s = (a, t)" by fastforce
    obtain b u where b: "add_port_ref env ifname t = (b, u)" by fastforce
    have "\<exists>p. added_port env ifname (c_db s) p (c_db s1) \<and> p_row p = r"
    proof (cases a)
      case None
      with assms True a b have "add_port_ref env ifname t = (Some r, s1)" by (simp add: obtain_port_def)
      with add add_None a None show ?thesis unfolding added_port_def by metis
    next
      case (Some k)
      with assms True a have "add_port_ref env ifname s = (Some r, s1)" by (simp add: obtain_port_def)
      with add show ?thesis unfolding added_port_def by metis
    qed
    with True show ?thesis by simp
  next
    case False
    with assms obtain res where scan:
      "scan_ports (find_interface (c_db s) ifname) ifname (ports (c_db s)) None = Inr res"
      by (auto simp: obtain_port_def split: sum.splits)
    note h = scan_ports_holds [OF scan]
    show ?thesis
    proof (cases res)
      case None
      with assms False scan have "add_port_ref env ifname s = (Some r, s1)"
        by (auto simp: obtain_port_def split: prod.splits)
      with add h None show ?thesis unfolding added_port_def by blast
    next
      case (Some k)
      with assms False scan have "k = r" "s1 = s" by (auto simp: obtain_port_def)
      with h Some show ?thesis by auto
    qed
  qed
qed

text \<open>A port that the search finds is found whatever the variable held before.\<close>

lemma scan_ports_cur:
  "scan_ports intf ifname ps None = Inr (Some r) \<Longrightarrow> scan_ports intf ifname ps cur = Inr (Some r)"
proof (induction intf ifname ps "None :: row_ref option" arbitrary: cur rule: scan_ports.induct)
  case (2 intf ifname row rows)
  then show ?case
    by (cases "scan_ports intf ifname rows (Some (p_row row))") (auto split: if_splits option.splits)
qed simp

text \<open>Writes that keep the name, the interfaces and the address of a row do not change it.\<close>

lemma scan_ports_update:
  assumes "\<And>p. p_row (f p) = p_row p \<and> p_name (f p) = p_name p \<and> p_interfaces (f p) = p_interfaces p"
  shows "scan_ports intf ifname (map (\<lambda>p. if p_row p = r then f p else p) ps) cur =
    scan_ports intf ifname ps cur"
proof (induction ps arbitrary: cur)
  case (Cons p ps)
  have "p_row (if p_row p = r then f p else p) = p_row p" "p_name (if p_row p = r then f p else p) = p_name p"
    "p_interfaces (if p_row p = r then f p else p) = p_interfaces p" using assms by simp_all
  with Cons show ?case by (simp only: list.map scan_ports.simps)
qed simp

end
