(* ===== verification/Cli_Example.thy ===== *)
theory Cli_Example
  imports Cli_Facts Daemon_Example
begin

text \<open>
  A concrete environment of the CLI in which its properties are instantiated: a switch whose
  interfaces are all in the bridge, no internal VLANs, and port writes that keep the laws, with
  the address of a VLAN row being its id as in \<open>Daemon_Example\<close>.
\<close>

fun ex_apply :: "cli_write \<Rightarrow> ovsdb \<Rightarrow> ovsdb" where
  "ex_apply (Port_Set_Vlan_Mode r m) db = update_port_row r (\<lambda>p. p\<lparr>p_vlan_mode := m\<rparr>) db"
| "ex_apply (Port_Set_Tag r v) db = update_port_row r (\<lambda>p. p\<lparr>p_vlan_tag := Some (nat v)\<rparr>) db"
| "ex_apply (Port_Set_Trunks r vs n) db =
     update_port_row r (\<lambda>p. p\<lparr>p_vlan_trunks := map nat (take (nat n) vs)\<rparr>) db"
| "ex_apply (System_Set_Other_Config r m) db =
     db\<lparr>systems := map (\<lambda>s. if s_row s = r then s\<lparr>s_other_config := m\<rparr> else s) (systems db)\<rparr>"
| "ex_apply _ db = db"

definition ex_vty :: vty_env where
  "ex_vty =
     \<lparr> VTY_NEWLINE = [CHR 0x0A], cli_do_config_start = True, cli_do_config_finish = TXN_SUCCESS,
       apply_cli_write = ex_apply, utils = ex_ops, check_internal_vlan = (\<lambda>_ _. 1),
       check_if_internal_vlan = l3_internal, check_iface_in_bridge = (\<lambda>_ _. True),
       vtysh_check_port_in_bridge = (\<lambda>_ _. True), check_iface_in_vrf = (\<lambda>_. False),
       port_lookup = find_lag, port_check_and_add = (\<lambda>db i. (find_lag db i, db)),
       vtysh_ovsdb_port_match = (\<lambda>_ _. True), verify_ifname = (\<lambda>_. True),
       create_vlan_interface = (\<lambda>db _. (CMD_SUCCESS, db)), delete_vlan_interface = (\<lambda>db _. (CMD_SUCCESS, db)),
       VLANIF_NAME = (\<lambda>v. ''vlan'' @ v), cmd_get_range_value = (\<lambda>v. [v]),
       smap_get_int = (\<lambda>m k d. case smap_get m k of None \<Rightarrow> d | Some v \<Rightarrow> atoi v),
       inserted_row = 900, MIN_INTERNAL_VLAN = ''min_internal_vlan'',
       MAX_INTERNAL_VLAN = ''max_internal_vlan'', INTERNAL_VLAN_POLICY = ''internal_vlan_policy'',
       POLICY_ASCENDING_DEFAULT = ''ascending'', POLICY_DESCENDING = ''descending'',
       DFLT_MIN_INTERNAL_VLAN_ID = 1024, DFLT_MAX_INTERNAL_VLAN_ID = 4094,
       PORT_INTERNAL_VLAN_ID = ''internal_vlan_id'', OVSREC_INTERFACE_TYPE_SYSTEM = ''system'',
       sort_interface = (\<lambda>xs. xs), vty_hash_rank = (\<lambda>_ _. 0) \<rparr>"

lemma ex_vty_fields [simp]:
  "VTY_NEWLINE ex_vty = [CHR 0x0A]" "cli_do_config_start ex_vty" "cli_do_config_finish ex_vty = TXN_SUCCESS"
  "apply_cli_write ex_vty = ex_apply" "utils ex_vty = ex_ops" "check_internal_vlan ex_vty db v = 1"
  "check_iface_in_bridge ex_vty db i" "vtysh_check_port_in_bridge ex_vty db i"
  "check_if_internal_vlan ex_vty = l3_internal" "port_lookup ex_vty = find_lag"
  "vtysh_ovsdb_port_match ex_vty db i" "VLANIF_NAME ex_vty n = ''vlan'' @ n" "cmd_get_range_value ex_vty n = [n]"
  "smap_get_int ex_vty m k d = (case smap_get m k of None \<Rightarrow> d | Some x \<Rightarrow> atoi x)" "inserted_row ex_vty = 900"
  "OVSREC_INTERFACE_TYPE_SYSTEM ex_vty = ''system''" "vty_hash_rank ex_vty = (\<lambda>_ _. 0)"
  by (simp_all add: ex_vty_def)

lemma ex_vty_keys [simp]:
  "MIN_INTERNAL_VLAN ex_vty = ''min_internal_vlan''" "MAX_INTERNAL_VLAN ex_vty = ''max_internal_vlan''"
  "INTERNAL_VLAN_POLICY ex_vty = ''internal_vlan_policy''" "POLICY_ASCENDING_DEFAULT ex_vty = ''ascending''"
  "POLICY_DESCENDING ex_vty = ''descending''"
  by (simp_all add: ex_vty_def)

lemma ex_port_trunks [simp]: "port_trunks ex_ops p = map int (p_vlan_trunks p)"
  by (rule nth_equalityI) (simp_all add: port_trunks_def ex_ops_def n_vlan_trunks_def)

lemma ex_vty_laws: "port_write_laws ex_vty"
proof -
  have get: "ops_port_get_tag ex_ops p = (case p_vlan_tag p of None \<Rightarrow> -1 | Some r \<Rightarrow> int r)" for p
    by (simp add: ex_ops_def)
  show ?thesis
    unfolding port_write_laws_def
  proof (intro conjI allI impI)
    fix r vs and db :: ovsdb assume "distinct vs" "\<forall>v \<in> set vs. vlan_exists db v \<and> 0 \<le> v"
    then have "\<forall>v \<in> set vs. 0 \<le> v" by blast
    then show "\<exists>ts. apply_cli_write ex_vty (Port_Set_Trunks r vs (int (length vs))) db =
        update_port_row r (\<lambda>p. p\<lparr>p_vlan_trunks := ts\<rparr>) db \<and> length ts = length vs \<and>
        (\<forall>p. set (port_trunks (utils ex_vty) (p\<lparr>p_vlan_trunks := ts\<rparr>)) = set vs)"
      by (intro exI [of _ "map nat vs"]) auto
  qed (auto simp: get)
qed

text \<open>The terminal in the interface node of interface \<open>1\<close>, whose port is in access VLAN 10.\<close>

definition ex_iface :: "ovsrec_interface" where
  "ex_iface = \<lparr> i_row = 300, i_name = ''1'', i_type = ''system'' \<rparr>"

definition ex_cli_port :: "ovsrec_port" where
  "ex_cli_port = (ex_access 101 ''1'' 1)\<lparr>p_interfaces := [300]\<rparr>"

definition ex_cli :: cli where
  "ex_cli =
     \<lparr> c_node = INTERFACE_NODE, c_index = ''1'',
       c_db = (ex_db [ex_cli_port] [ex_vlan 1 ''DEFAULT_VLAN_1'', ex_vlan 10 ''VLAN10''] 1)
         \<lparr>interfaces := [ex_iface]\<rparr>,
       c_trace = [] \<rparr>"

lemma ex_cli_fields [simp]:
  "c_index ex_cli = ''1''" "c_trace ex_cli = []" "ports (c_db ex_cli) = [ex_cli_port]"
  "interfaces (c_db ex_cli) = [ex_iface]"
  "vlans (c_db ex_cli) = [ex_vlan 1 ''DEFAULT_VLAN_1'', ex_vlan 10 ''VLAN10'']"
  by (simp_all add: ex_cli_def ex_db_def Let_def)

lemma ex_cli_obtain:
  "obtain_port ex_vty ''1'' None (emit (Txn_Start True) ex_cli) = (Inr (Some 101), emit (Txn_Start True) ex_cli)"
  by (simp add: obtain_port_def find_interface_def ex_iface_def ex_cli_port_def ex_access_def)

text \<open>The same terminal with another port in the place of port \<open>1\<close>.\<close>

definition ex_cli_with :: "ovsrec_port \<Rightarrow> cli" where
  "ex_cli_with p = ex_cli\<lparr>c_db := (c_db ex_cli)\<lparr>ports := [p]\<rparr>\<rparr>"

definition ex_trunk_port :: "nat list \<Rightarrow> ovsrec_port" where
  "ex_trunk_port vids = ex_cli_port\<lparr>p_vlan_mode := Some ''trunk'', p_vlan_tag := None, p_vlan_trunks := vids\<rparr>"

lemma ex_cli_with_fields [simp]:
  "c_index (ex_cli_with p) = ''1''" "c_trace (ex_cli_with p) = []" "ports (c_db (ex_cli_with p)) = [p]"
  "interfaces (c_db (ex_cli_with p)) = [ex_iface]"
  "vlans (c_db (ex_cli_with p)) = [ex_vlan 1 ''DEFAULT_VLAN_1'', ex_vlan 10 ''VLAN10'']"
  "systems (c_db (ex_cli_with p)) = systems (c_db ex_cli)"
  by (simp_all add: ex_cli_with_def)

lemma ex_system: "ovsrec_system_first (c_db (ex_cli_with p)) = Some (hd (systems (c_db ex_cli)))"
  "s_other_config (hd (systems (c_db ex_cli))) = []"
  by (simp_all add: ovsrec_system_first_def ex_cli_def ex_db_def Let_def)

lemma ex_scan: "p_name p = ''1'' \<Longrightarrow> p_interfaces p = [300] \<Longrightarrow>
  scan_ports (find_interface (c_db (ex_cli_with p)) ''1'') ''1'' (ports (c_db (ex_cli_with p))) None =
    Inr (Some (p_row p))"
  by (simp add: find_interface_def ex_iface_def)

end
