(* ===== verification/Trunk_Range.thy ===== *)
theory Trunk_Range
  imports Cli_Facts
begin

text \<open>
  The loop of \<open>vlan trunk allowed\<close> over a range of VLANs. Each iteration finds the port again,
  makes it a native port if it is not one, and appends one VLAN to the trunks it reads back; a
  VLAN that is there already ends the loop with a commit. The loop lemma says that on a port that
  passes the checks the VLANs before such a one arrive, in one batch.
\<close>

text \<open>Two replicas that differ in the VLAN columns of port rows only.\<close>

definition same_but_vlans :: "ovsdb \<Rightarrow> ovsdb \<Rightarrow> bool" where
  "same_but_vlans db db' \<longleftrightarrow> vlans db' = vlans db \<and> interfaces db' = interfaces db \<and>
     systems db' = systems db \<and> bridges db' = bridges db \<and>
     map (\<lambda>p. (p_row p, p_name p, p_interfaces p)) (ports db') =
       map (\<lambda>p. (p_row p, p_name p, p_interfaces p)) (ports db)"

lemma same_but_vlans_refl [simp]: "same_but_vlans db db"
  by (simp add: same_but_vlans_def)

lemma same_but_vlans_trans: "same_but_vlans a b \<Longrightarrow> same_but_vlans b c \<Longrightarrow> same_but_vlans a c"
  by (simp add: same_but_vlans_def)

lemma same_but_vlans_update:
  "(\<And>p. p_row (f p) = p_row p \<and> p_name (f p) = p_name p \<and> p_interfaces (f p) = p_interfaces p) \<Longrightarrow>
     same_but_vlans db (update_port_row r f db)"
  by (simp add: same_but_vlans_def) (simp add: update_port_row_def)

text \<open>What the loop relies on at each iteration: the port \<open>k\<close> of the interface, its mode, its trunks.\<close>

definition trunk_port :: "vty_env \<Rightarrow> string \<Rightarrow> row_ref \<Rightarrow> int set \<Rightarrow> ovsdb \<Rightarrow> bool" where
  "trunk_port env ifname k T db \<longleftrightarrow>
     scan_ports (find_interface db ifname) ifname (ports db) None = Inr (Some k) \<and>
     (\<exists>row. deref_port db k = Some row \<and> p_vlan_mode row \<noteq> None \<and>
        set (port_trunks (utils env) row) = T \<and> distinct (port_trunks (utils env) row))"

definition native_port :: "row_ref \<Rightarrow> ovsdb \<Rightarrow> bool" where
  "native_port k db \<longleftrightarrow> (\<exists>row m. deref_port db k = Some row \<and> p_vlan_mode row = Some m \<and> native_mode m)"

lemma obtain_port_found:
  assumes "scan_ports (find_interface (c_db s) ifname) ifname (ports (c_db s)) None = Inr (Some k)"
  shows "obtain_port env ifname cur s = (Inr (Some k), s)"
proof -
  have "ports (c_db s) \<noteq> []" using assms by auto
  with scan_ports_cur [OF assms, of cur] show ?thesis by (simp add: obtain_port_def)
qed

text \<open>Making the port native, and appending one VLAN to its trunks.\<close>

lemma set_native_step:
  assumes laws: "port_write_laws env" and tp: "trunk_port env ifname k T db"
  shows "trunk_port env ifname k T (apply_cli_write env (Port_Set_Vlan_Mode k (Some m)) db)"
    and "native_mode m \<Longrightarrow> native_port k (apply_cli_write env (Port_Set_Vlan_Mode k (Some m)) db)"
    and "same_but_vlans db (apply_cli_write env (Port_Set_Vlan_Mode k (Some m)) db)"
proof -
  note L = port_write_lawsD [OF laws]
  let ?f = "\<lambda>p. p\<lparr>p_vlan_mode := Some m\<rparr>"
  from tp obtain row where row: "deref_port db k = Some row" "set (port_trunks (utils env) row) = T"
    "distinct (port_trunks (utils env) row)"
    "scan_ports (find_interface db ifname) ifname (ports db) None = Inr (Some k)" by (auto simp: trunk_port_def)
  have d: "deref_port (update_port_row k ?f db) k = Some (?f row)"
    by (simp add: deref_update_port_row row(1))
  have "scan_ports (find_interface db ifname) ifname (ports (update_port_row k ?f db)) None = Inr (Some k)"
    by (simp add: update_port_row_def scan_ports_update row(4))
  with d row show "trunk_port env ifname k T (apply_cli_write env (Port_Set_Vlan_Mode k (Some m)) db)"
    by (simp add: L(1) trunk_port_def L(4))
  show "native_mode m \<Longrightarrow> native_port k (apply_cli_write env (Port_Set_Vlan_Mode k (Some m)) db)"
    by (simp add: L(1) native_port_def d)
  show "same_but_vlans db (apply_cli_write env (Port_Set_Vlan_Mode k (Some m)) db)"
    unfolding L(1) by (rule same_but_vlans_update) simp
qed

lemma append_trunk_step:
  assumes laws: "port_write_laws env" and tp: "trunk_port env ifname k T db"
    and row: "deref_port db k = Some row" and new: "vid \<notin> T"
    and ex: "\<forall>v \<in> insert vid T. vlan_exists db v \<and> 0 \<le> v"
  shows "trunk_port env ifname k (insert vid T)
      (apply_cli_write env (Port_Set_Trunks k (port_trunks (utils env) row @ [vid]) (int (n_vlan_trunks row) + 1)) db)"
    and "native_port k db \<Longrightarrow> native_port k
      (apply_cli_write env (Port_Set_Trunks k (port_trunks (utils env) row @ [vid]) (int (n_vlan_trunks row) + 1)) db)"
    and "same_but_vlans db
      (apply_cli_write env (Port_Set_Trunks k (port_trunks (utils env) row @ [vid]) (int (n_vlan_trunks row) + 1)) db)"
proof -
  let ?vs = "port_trunks (utils env) row @ [vid]"
  from tp row have T: "set (port_trunks (utils env) row) = T" "distinct (port_trunks (utils env) row)"
    "p_vlan_mode row \<noteq> None" "scan_ports (find_interface db ifname) ifname (ports db) None = Inr (Some k)"
    by (auto simp: trunk_port_def)
  have vs: "distinct ?vs" "\<forall>v \<in> set ?vs. vlan_exists db v \<and> 0 \<le> v" "int (n_vlan_trunks row) + 1 = int (length ?vs)"
    using T new ex by simp_all
  from port_write_lawsD(3) [OF laws vs(1,2), of k] obtain ts where
    ts: "apply_cli_write env (Port_Set_Trunks k ?vs (int (length ?vs))) db =
        update_port_row k (\<lambda>p. p\<lparr>p_vlan_trunks := ts\<rparr>) db"
      "length ts = length ?vs" "\<And>p. set (port_trunks (utils env) (p\<lparr>p_vlan_trunks := ts\<rparr>)) = set ?vs" by blast
  let ?f = "\<lambda>p. p\<lparr>p_vlan_trunks := ts\<rparr>"
  have d: "deref_port (update_port_row k ?f db) k = Some (?f row)" by (simp add: deref_update_port_row row)
  have "card (set (port_trunks (utils env) (?f row))) = length (port_trunks (utils env) (?f row))"
    using vs(1) distinct_card [of ?vs] by (simp only: ts(3)) (simp add: ts(2) n_vlan_trunks_def)
  then have dist: "distinct (port_trunks (utils env) (?f row))" by (rule card_distinct)
  have "scan_ports (find_interface db ifname) ifname (ports (update_port_row k ?f db)) None = Inr (Some k)"
    by (simp add: update_port_row_def scan_ports_update T(4))
  with d dist T show "trunk_port env ifname k (insert vid T)
      (apply_cli_write env (Port_Set_Trunks k ?vs (int (n_vlan_trunks row) + 1)) db)"
    unfolding vs(3) ts(1) trunk_port_def by (simp add: ts(3))
  show "native_port k db \<Longrightarrow> native_port k
      (apply_cli_write env (Port_Set_Trunks k ?vs (int (n_vlan_trunks row) + 1)) db)"
    unfolding vs(3) ts(1) native_port_def by (auto simp: d row)
  show "same_but_vlans db (apply_cli_write env (Port_Set_Trunks k ?vs (int (n_vlan_trunks row) + 1)) db)"
    unfolding vs(3) ts(1) by (rule same_but_vlans_update) simp
qed

text \<open>The VLANs of the range: known, not internal, and allowed while only VLAN columns change.\<close>

definition range_allowed :: "vty_env \<Rightarrow> string \<Rightarrow> int \<Rightarrow> int \<Rightarrow> ovsdb \<Rightarrow> int set \<Rightarrow> bool" where
  "range_allowed env ifname min_vlan max_vlan db0 V \<longleftrightarrow>
     (\<forall>db. same_but_vlans db0 db \<longrightarrow> check_iface_in_bridge env db ifname \<and>
        (\<forall>v \<in> V. check_internal_vlan env db v \<noteq> 0)) \<and>
     (\<forall>v \<in> V. vlan_exists db0 v \<and> 0 \<le> v \<and> \<not> (min_vlan \<le> v \<and> v \<le> max_vlan))"

lemma trunk_allowed_loop_runs:
  assumes laws: "port_write_laws env" and fin: "txn_done (cli_do_config_finish env)"
    and allowed: "range_allowed env ifname min_vlan max_vlan db0 V"
  shows "c_index s = ifname \<Longrightarrow> same_but_vlans db0 (c_db s) \<Longrightarrow> trunk_port env ifname k T (c_db s) \<Longrightarrow>
    in_txn tr ws s \<Longrightarrow> distinct (map atoi vals) \<Longrightarrow> set (map atoi vals) \<subseteq> V \<Longrightarrow>
    (\<forall>v \<in> T. vlan_exists db0 v \<and> 0 \<le> v) \<Longrightarrow>
    vals \<noteq> [] \<or> native_port k (c_db s) \<Longrightarrow>
    \<exists>s' ws'. trunk_allowed_loop env all_values min_vlan max_vlan True vals vlan_id cur s = Some (CMD_SUCCESS, s') \<and>
      trunk_port env ifname k (T \<union> set (takeWhile (\<lambda>v. v \<notin> T) (map atoi vals))) (c_db s') \<and>
      native_port k (c_db s') \<and> committed_writes (c_trace s') = committed_writes tr @ [ws @ ws']"
proof (induction vals arbitrary: s T ws vlan_id cur)
  case Nil
  obtain r s' where c: "commit env (OVSDB_INTF_VLAN_TRUNK_ALLOWED_ERROR vlan_id (VTY_NEWLINE env)) s = Some (r, s')"
    using commit_returns by blast
  from in_txn_commit [OF Nil.prems(4) c] fin c Nil.prems show ?case
    by (intro exI [of _ s'] exI [of _ "[]"]) simp
next
  case (Cons val vals)
  let ?vid = "atoi val" and ?db = "c_db s"
  have vl: "vlan_exists ?db = vlan_exists db0"
    using Cons.prems(2) by (simp add: vlan_exists_def same_but_vlans_def fun_eq_iff)
  have vid: "vlan_exists ?db ?vid" "0 \<le> ?vid" "\<not> (min_vlan \<le> ?vid \<and> ?vid \<le> max_vlan)"
    "check_internal_vlan env ?db ?vid \<noteq> 0" "check_iface_in_bridge env ?db ifname"
    using allowed Cons.prems(2,6) by (auto simp: range_allowed_def vl)
  have ne: "vlans ?db \<noteq> []" using vid(1) by (auto simp: vlan_exists_def)
  from Cons.prems(3) obtain row m where row: "deref_port ?db k = Some row" "p_vlan_mode row = Some m"
    "set (port_trunks (utils env) row) = T"
    and scan: "scan_ports (find_interface ?db ifname) ifname (ports ?db) None = Inr (Some k)"
    by (auto simp: trunk_port_def)
  have k: "p_row row = k" using row(1) by (auto simp: deref_port_def dest: find_SomeD)
  let ?nu = "OVSREC_PORT_VLAN_MODE_NATIVE_UNTAGGED"
  define s1 where "s1 = (if \<not> native_mode m then idl_write env (Port_Set_Vlan_Mode k (Some ?nu)) s else s)"
  obtain ws1 where s1: "c_index s1 = ifname" "trunk_port env ifname k T (c_db s1)" "native_port k (c_db s1)"
    "same_but_vlans ?db (c_db s1)" "in_txn tr (ws @ ws1) s1"
  proof (cases "native_mode m")
    case True
    with row Cons.prems show ?thesis by (intro that [of "[]"]) (auto simp: s1_def native_port_def)
  next
    case False
    have "native_mode ?nu" by (simp add: native_mode_def)
    with False set_native_step [OF laws Cons.prems(3), of ?nu] Cons.prems(1) in_txn_write [OF Cons.prems(4)]
    show ?thesis by (intro that [of "[Port_Set_Vlan_Mode k (Some ?nu)]"]) (simp_all add: s1_def)
  qed
  from s1(2) obtain row1 where row1: "deref_port (c_db s1) k = Some row1"
    "set (port_trunks (utils env) row1) = T" by (auto simp: trunk_port_def)
  have k1: "p_row row1 = k" using row1(1) by (auto simp: deref_port_def dest: find_SomeD)
  have vl1: "vlan_exists (c_db s1) = vlan_exists db0"
    using s1(4) by (simp add: vlan_exists_def same_but_vlans_def fun_eq_iff vl [symmetric])
  show ?case
  proof (cases "?vid \<in> T")
    case True
    let ?m = "''The VLAN '' @ dec ?vid @ '' is already allowed on the interface'' @ ifname @ ''.'' @ VTY_NEWLINE env"
    obtain r s' where c: "commit env (OVSDB_INTF_VLAN_TRUNK_ALLOWED_ERROR ?vid (VTY_NEWLINE env)) (vty_out ?m s1) =
        Some (r, s')" using commit_returns by blast
    have "trunk_allowed_loop env all_values min_vlan max_vlan True (val # vals) vlan_id cur s = Some (r, s')"
      using vid ne row row1 k k1 True c
      by (cases "native_mode m"; cases "min_vlan \<le> ?vid")
        (simp_all add: Let_def Cons.prems(1) obtain_port_found [OF scan] s1_def)
    with in_txn_commit_out [OF s1(5) c] fin s1 True show ?thesis by auto
  next
    case new: False
    let ?w = "Port_Set_Trunks k (port_trunks (utils env) row1 @ [?vid]) (int (n_vlan_trunks row1) + 1)"
    let ?s2 = "idl_write env ?w s1"
    have ex: "\<forall>v \<in> insert ?vid T. vlan_exists (c_db s1) v \<and> 0 \<le> v"
      using vid(1,2) Cons.prems(7) by (simp add: vl1 vl)
    note st = append_trunk_step [OF laws s1(2) row1(1) new ex]
    have "\<exists>s' ws'. trunk_allowed_loop env all_values min_vlan max_vlan True vals ?vid (Some k) ?s2 =
        Some (CMD_SUCCESS, s') \<and> trunk_port env ifname k
          (insert ?vid T \<union> set (takeWhile (\<lambda>v. v \<notin> insert ?vid T) (map atoi vals))) (c_db s') \<and>
        native_port k (c_db s') \<and> committed_writes (c_trace s') = committed_writes tr @ [(ws @ ws1 @ [?w]) @ ws']"
    proof (rule Cons.IH)
      show "same_but_vlans db0 (c_db ?s2)"
        using Cons.prems(2) s1(4) st(3) same_but_vlans_trans by (simp only: cli_fields)
      show "in_txn tr (ws @ ws1 @ [?w]) ?s2" using in_txn_write [OF s1(5)] by simp
      show "\<forall>v \<in> insert ?vid T. vlan_exists db0 v \<and> 0 \<le> v" using ex by (simp add: vl1)
    qed (use s1 st Cons.prems(5,6) in auto)
    moreover have "trunk_allowed_loop env all_values min_vlan max_vlan True (val # vals) vlan_id cur s =
        trunk_allowed_loop env all_values min_vlan max_vlan True vals ?vid (Some k) ?s2"
      using vid ne row row1 k k1 new
      by (cases "native_mode m"; cases "min_vlan \<le> ?vid") (simp_all add: Let_def Cons.prems(1) obtain_port_found [OF scan] s1_def)
    moreover have "takeWhile (\<lambda>v. v \<notin> insert ?vid T) (map atoi vals) = takeWhile (\<lambda>v. v \<notin> T) (map atoi vals)"
      using Cons.prems(5) by (intro takeWhile_cong) (auto simp: image_iff)
    ultimately show ?thesis using new by (auto simp del: trunk_allowed_loop.simps)
  qed
qed

end
