(* ===== verification/Vlan_Deletion.thy ===== *)
theory Vlan_Deletion
  imports Cli_Facts
begin

text \<open>
  What creating and deleting a VLAN (\<open>vlan\<close>, \<open>no vlan\<close>) does to the ports: the writes of
  \<open>join_vlan_interface\<close>, and the walk of \<open>unlink_port\<close> over the Port table.
\<close>

section \<open>Creating\<close>

text \<open>The writes for the port of the VLAN's interface.\<close>

definition join_writes :: "string \<Rightarrow> int \<Rightarrow> ovsrec_port list \<Rightarrow> cli_write list" where
  "join_writes vlan_if vid ps =
     concat (map (\<lambda>p. if p_name p = vlan_if
       then [Port_Set_Tag (p_row p) vid, Port_Set_Vlan_Mode (p_row p) None] else []) ps)"

lemma in_txn_join: "in_txn tr ws s \<Longrightarrow>
  in_txn tr (ws @ join_writes vlan_if vid (ports (c_db s))) (join_vlan_interface env vlan_if vid s)"
proof -
  have "in_txn tr ws s \<Longrightarrow> in_txn tr (ws @ join_writes vlan_if vid ps)
      (foldl (\<lambda>s port_row. if p_name port_row = vlan_if
         then idl_write env (Port_Set_Vlan_Mode (p_row port_row) None)
                (idl_write env (Port_Set_Tag (p_row port_row) vid) s) else s) s ps)" for ps
  proof (induction ps arbitrary: s ws)
    case (Cons p ps)
    show ?case
    proof (cases "p_name p = vlan_if")
      case True
      with Cons.IH [OF in_txn_write [OF in_txn_write [OF Cons.prems]]] show ?thesis
        by (simp add: join_writes_def)
    next
      case False
      with Cons.IH [OF Cons.prems] show ?thesis by (simp add: join_writes_def)
    qed
  qed (simp add: join_writes_def)
  then show "in_txn tr ws s \<Longrightarrow> ?thesis" by (simp add: join_vlan_interface_def)
qed

lemma default_bridge_found:
  assumes "bridges db \<noteq> []"
  shows "\<exists>b. default_bridge db = Some b \<and> b \<in> set (bridges db) \<and>
    (b_name b = DEFAULT_BRIDGE_NAME \<or>
     b = hd (bridges db) \<and> (\<forall>x \<in> set (bridges db). b_name x \<noteq> DEFAULT_BRIDGE_NAME))"
proof (cases "find (\<lambda>b. b_name b = DEFAULT_BRIDGE_NAME) (bridges db)")
  case None
  from assms obtain b bs where "bridges db = b # bs" by (cases "bridges db") auto
  then have "default_bridge db = Some b" using None by (simp add: default_bridge_def)
  with None \<open>bridges db = b # bs\<close> show ?thesis by (auto simp: find_None)
next
  case (Some b)
  from assms have "default_bridge db = Some b" using Some by (auto simp: default_bridge_def split: list.split)
  with find_SomeD [OF Some] show ?thesis by blast
qed

lemma in_txn_write_all: "in_txn tr ws s \<Longrightarrow> in_txn tr (ws @ us) (write_all env us s)"
proof (induction us arbitrary: s ws)
  case (Cons u us)
  from Cons.IH [OF in_txn_write [OF Cons.prems]] show ?case by (simp add: write_all_def)
qed (simp add: write_all_def)

lemma write_all_db: "c_db (write_all env ws s) = fold (apply_cli_write env) ws (c_db s)"
  unfolding write_all_def by (induction ws arbitrary: s) simp_all

section \<open>Deleting\<close>

text \<open>The writes for a row change that row only, and leave its trunks alone or shrink them.\<close>

definition row_untouched :: "row_ref \<Rightarrow> ovsdb \<Rightarrow> ovsdb \<Rightarrow> bool" where
  "row_untouched r db db' \<longleftrightarrow> vlans db' = vlans db \<and> map p_row (ports db') = map p_row (ports db) \<and>
     (\<forall>r'. r' \<noteq> r \<longrightarrow> deref_port db' r' = deref_port db r')"

lemma row_untouched_refl [simp]: "row_untouched r db db"
  by (simp add: row_untouched_def)

lemma row_untouched_trans: "row_untouched r a b \<Longrightarrow> row_untouched r b c \<Longrightarrow> row_untouched r a c"
  by (simp add: row_untouched_def)

lemma row_untouched_update:
  assumes "\<And>p. p_row (f p) = p_row p"
  shows "row_untouched r db (update_port_row r f db)"
proof -
  have "find (\<lambda>p. p_row p = r') (map (\<lambda>p. if p_row p = r then f p else p) ps) = find (\<lambda>p. p_row p = r') ps"
    if "r' \<noteq> r" for r' ps
    using that assms by (induction ps) auto
  moreover have "map p_row (map (\<lambda>p. if p_row p = r then f p else p) ps) = map p_row ps" for ps
    using assms by (induction ps) auto
  ultimately show ?thesis
    by (simp add: row_untouched_def deref_port_def) (simp add: update_port_row_def)
qed

text \<open>The state of one row's trunks.\<close>

definition trunks_of :: "vty_env \<Rightarrow> row_ref \<Rightarrow> int set \<Rightarrow> ovsdb \<Rightarrow> bool" where
  "trunks_of env r T db \<longleftrightarrow> (\<exists>q. deref_port db r = Some q \<and> set (port_trunks (utils env) q) = T)"

lemma mode_write:
  assumes "port_write_laws env"
  shows "row_untouched r db (apply_cli_write env (Port_Set_Vlan_Mode r m) db)"
    and "trunks_of env r T db \<Longrightarrow> trunks_of env r T (apply_cli_write env (Port_Set_Vlan_Mode r m) db)"
  unfolding port_write_lawsD(1) [OF assms]
  by (simp add: row_untouched_update)
    (auto simp: trunks_of_def deref_update_port_row port_write_lawsD(4) [OF assms])

lemma tag_write:
  assumes "port_write_laws env"
  shows "row_untouched r db (apply_cli_write env (Port_Set_Tag r v) db)"
    and "trunks_of env r T db \<Longrightarrow> trunks_of env r T (apply_cli_write env (Port_Set_Tag r v) db)"
proof -
  from port_write_lawsD(8) [OF assms, of r v db] obtain t where
    t: "apply_cli_write env (Port_Set_Tag r v) db = update_port_row r (\<lambda>p. p\<lparr>p_vlan_tag := t\<rparr>) db" by blast
  show "row_untouched r db (apply_cli_write env (Port_Set_Tag r v) db)"
    unfolding t by (simp add: row_untouched_update)
  show "trunks_of env r T db \<Longrightarrow> trunks_of env r T (apply_cli_write env (Port_Set_Tag r v) db)"
    unfolding t by (auto simp: trunks_of_def deref_update_port_row port_write_lawsD(5) [OF assms])
qed

lemma trunks_write:
  assumes "port_write_laws env" and "distinct vs" and "\<forall>v \<in> set vs. vlan_exists db v \<and> 0 \<le> v"
    and "n = int (length vs)"
  shows "row_untouched r db (apply_cli_write env (Port_Set_Trunks r vs n) db)"
    and "deref_port db r \<noteq> None \<Longrightarrow> trunks_of env r (set vs) (apply_cli_write env (Port_Set_Trunks r vs n) db)"
proof -
  from port_write_lawsD(3) [OF assms(1-3), of r] obtain ts where
    ts: "apply_cli_write env (Port_Set_Trunks r vs n) db = update_port_row r (\<lambda>p. p\<lparr>p_vlan_trunks := ts\<rparr>) db"
      "\<And>p. set (port_trunks (utils env) (p\<lparr>p_vlan_trunks := ts\<rparr>)) = set vs" by (auto simp: assms(4))
  show "row_untouched r db (apply_cli_write env (Port_Set_Trunks r vs n) db)"
    unfolding ts(1) by (simp add: row_untouched_update)
  show "deref_port db r \<noteq> None \<Longrightarrow> trunks_of env r (set vs) (apply_cli_write env (Port_Set_Trunks r vs n) db)"
    unfolding ts(1) by (auto simp: trunks_of_def deref_update_port_row ts(2))
qed

lemma unlink_port_step:
  assumes laws: "port_write_laws env" and p: "deref_port (c_db s) (p_row p) = Some p"
    and dist: "distinct (port_trunks (utils env) p)"
    and ex: "\<forall>v \<in> set (port_trunks (utils env) p). vlan_exists (c_db s) v \<and> 0 \<le> v"
  shows "\<exists>t. unlink_port env vid p s = Some t \<and> row_untouched (p_row p) (c_db s) (c_db t) \<and>
    trunks_of env (p_row p) (set (port_trunks (utils env) p) - {vid}) (c_db t)"
proof -
  let ?r = "p_row p" and ?T = "set (port_trunks (utils env) p)"
  let ?vs = "filter (\<lambda>v. v \<noteq> vid) (port_trunks (utils env) p)" and ?n = "int (n_vlan_trunks p) - 1"
  define db1 where "db1 = (if vid \<in> ?T then apply_cli_write env (Port_Set_Trunks ?r ?vs ?n) (c_db s) else c_db s)"
  have 1: "row_untouched ?r (c_db s) db1 \<and> trunks_of env ?r (?T - {vid}) db1"
  proof (cases "vid \<in> ?T")
    case True
    have n: "?n = int (length ?vs)"
      using length_filter_count [of vid "port_trunks (utils env) p"] distinct_count [OF dist True] by simp
    have "set ?vs = ?T - {vid}" by auto
    with True p trunks_write [OF laws _ _ n, of "c_db s" ?r] dist ex show ?thesis by (simp add: db1_def)
  next
    case False
    with p show ?thesis by (auto simp: db1_def trunks_of_def)
  qed
  have "remove_trunk (utils env) p vid = Some (?vs, ?n)" if "vid \<in> ?T"
    using distinct_count [OF dist that] by (simp add: remove_trunk_eq)
  then have "\<exists>t. unlink_port env vid p s = Some t \<and> (c_db t = db1 \<or>
      (\<exists>m v. c_db t = apply_cli_write env (Port_Set_Tag ?r v) (apply_cli_write env (Port_Set_Vlan_Mode ?r m) db1)))"
    unfolding unlink_port_def db1_def Let_def by (auto split: option.split)
  with 1 mode_write [OF laws] tag_write [OF laws] row_untouched_trans show ?thesis
    by (elim disjE exE conjE) metis+
qed

lemma unlink_ports:
  assumes laws: "port_write_laws env" and rows: "distinct (map p_row (ports (c_db s)))"
    and ok: "\<forall>p \<in> set (ports (c_db s)). distinct (port_trunks (utils env) p) \<and>
      (\<forall>v \<in> set (port_trunks (utils env) p). vlan_exists (c_db s) v \<and> 0 \<le> v)"
  shows "\<exists>t. foldM (unlink_port env vid) (ports (c_db s)) s = Some t \<and>
    (\<forall>q \<in> set (ports (c_db t)). \<exists>p \<in> set (ports (c_db s)). p_row q = p_row p \<and>
       set (port_trunks (utils env) q) = set (port_trunks (utils env) p) - {vid})"
proof -
  let ?ps = "ports (c_db s)" and ?f = "unlink_port env vid"
  define I where "I pre t \<longleftrightarrow> vlans (c_db t) = vlans (c_db s) \<and> map p_row (ports (c_db t)) = map p_row ?ps \<and>
    (\<forall>p \<in> set ?ps. if p \<in> set pre
       then trunks_of env (p_row p) (set (port_trunks (utils env) p) - {vid}) (c_db t)
       else deref_port (c_db t) (p_row p) = Some p)" for pre and t :: cli
  have "\<exists>t. foldM ?f ?ps s = Some t \<and> I ?ps t"
  proof (rule foldM_prefix)
    show "I [] s" using rows find_key [of p_row ?ps] by (simp add: I_def deref_port_def)
  next
    fix pre x post t assume split: "?ps = pre @ x # post" and I: "I pre t"
    from rows split have x: "x \<in> set ?ps" "x \<notin> set pre" by auto
    have vl: "vlan_exists (c_db t) = vlan_exists (c_db s)"
      using I by (simp add: I_def vlan_exists_def fun_eq_iff)
    have d: "deref_port (c_db t) (p_row x) = Some x" using I x unfolding I_def by (simp split: if_split_asm)
    from unlink_port_step [OF laws d, of vid] ok x(1) obtain u where u: "?f x t = Some u"
      and st: "row_untouched (p_row x) (c_db t) (c_db u)"
      "trunks_of env (p_row x) (set (port_trunks (utils env) x) - {vid}) (c_db u)"
      by (auto simp: vl)
    have other: "deref_port (c_db u) (p_row p) = deref_port (c_db t) (p_row p)"
      if "p \<in> set ?ps" "p \<noteq> x" for p
      using st(1) distinct_map_eq [OF rows that(1) x(1)] that(2) by (auto simp: row_untouched_def)
    have "I (pre @ [x]) u"
      unfolding I_def
    proof (intro conjI ballI)
      fix p assume p: "p \<in> set ?ps"
      show "if p \<in> set (pre @ [x])
        then trunks_of env (p_row p) (set (port_trunks (utils env) p) - {vid}) (c_db u)
        else deref_port (c_db u) (p_row p) = Some p"
      proof (cases "p = x")
        case True
        with st(2) show ?thesis by simp
      next
        case False
        with other [OF p] I p show ?thesis by (simp add: I_def trunks_of_def split: if_split_asm)
      qed
    qed (use I st(1) in \<open>simp_all add: I_def row_untouched_def\<close>)
    with u show "\<exists>u. ?f x t = Some u \<and> I (pre @ [x]) u" by blast
  qed
  then obtain t where t: "foldM ?f ?ps s = Some t" and fin: "map p_row (ports (c_db t)) = map p_row ?ps"
    and tr: "\<And>p. p \<in> set ?ps \<Longrightarrow> trunks_of env (p_row p) (set (port_trunks (utils env) p) - {vid})
      (c_db t)" unfolding I_def by auto
  have "\<exists>p \<in> set ?ps. p_row q = p_row p \<and>
      set (port_trunks (utils env) q) = set (port_trunks (utils env) p) - {vid}"
    if q: "q \<in> set (ports (c_db t))" for q
  proof -
    from q have "p_row q \<in> set (map p_row (ports (c_db t)))" by simp
    then obtain p where p: "p \<in> set ?ps" "p_row p = p_row q" unfolding fin by auto
    have "find (\<lambda>y. p_row y = p_row q) (ports (c_db t)) = Some q"
      by (rule find_key) (use q rows in \<open>simp_all add: fin\<close>)
    with tr [OF p(1)] p show ?thesis by (intro bexI [of _ p]) (simp_all add: trunks_of_def deref_port_def)
  qed
  with t show ?thesis by blast
qed

section \<open>The writes of the walk\<close>

fun port_written :: "cli_write \<Rightarrow> row_ref option" where
  "port_written (Port_Set_Vlan_Mode r _) = Some r"
| "port_written (Port_Set_Tag r _) = Some r"
| "port_written (Port_Set_Trunks r _ _) = Some r"
| "port_written _ = None"

lemma in_txn_unlink:
  assumes "in_txn tr ws s" and u: "unlink_port env vid p s = Some t"
  shows "\<exists>us. in_txn tr (ws @ us) t \<and> (\<forall>u \<in> set us. port_written u = Some (p_row p))"
proof -
  define W where "W t \<longleftrightarrow> (\<exists>us. in_txn tr (ws @ us) t \<and> (\<forall>u \<in> set us. port_written u = Some (p_row p)))" for t
  have start: "W s" using assms unfolding W_def by (intro exI [of _ "[]"]) simp
  have step: "W (idl_write env w t)" if t: "W t" and w: "port_written w = Some (p_row p)" for t w
  proof -
    from t obtain us where us: "in_txn tr (ws @ us) t" "\<forall>u \<in> set us. port_written u = Some (p_row p)"
      unfolding W_def by blast
    from in_txn_write [OF us(1)] us(2) w show ?thesis
      unfolding W_def by (intro exI [of _ "us @ [w]"]) simp
  qed
  from u have "W t"
    unfolding unlink_port_def Let_def
    using start by (auto intro!: step split: prod.split_asm option.split_asm if_split_asm)
  then show ?thesis by (simp add: W_def)
qed

lemma in_txn_unlinks:
  assumes "in_txn tr ws s" and "foldM (unlink_port env vid) ps s = Some t"
  shows "\<exists>us. in_txn tr (ws @ us) t \<and>
    (\<forall>u \<in> set us. port_written u \<in> (\<lambda>p. Some (p_row p)) ` set ps)"
  using assms
proof (induction ps arbitrary: s ws)
  case Nil
  then show ?case by (intro exI [of _ "[]"]) simp
next
  case (Cons p ps)
  from Cons.prems(2) obtain s1 where s1: "unlink_port env vid p s = Some s1"
    "foldM (unlink_port env vid) ps s1 = Some t" by (auto split: option.splits)
  from in_txn_unlink [OF Cons.prems(1) s1(1)] obtain us where
    us: "in_txn tr (ws @ us) s1" "\<forall>u \<in> set us. port_written u = Some (p_row p)"
    by blast
  from Cons.IH [OF us(1) s1(2)] obtain vs where
    "in_txn tr ((ws @ us) @ vs) t"
    "\<forall>u \<in> set vs. port_written u \<in> (\<lambda>p. Some (p_row p)) ` set ps" by blast
  with us(2) show ?case by (intro exI [of _ "us @ vs"]) auto
qed

text \<open>
  A write to a bridge, and the deletion of a VLAN row, leave the rows of the Port table as they are;
  the former leaves the VLAN table alone as well.
\<close>

definition other_table_laws :: "vty_env \<Rightarrow> bool" where
  "other_table_laws env \<longleftrightarrow>
     (\<forall>r vs n db. ports (apply_cli_write env (Bridge_Set_Vlans_Count r vs n) db) = ports db \<and>
        vlans (apply_cli_write env (Bridge_Set_Vlans_Count r vs n) db) = vlans db) \<and>
     (\<forall>r db. ports (apply_cli_write env (Vlan_Delete r) db) = ports db)"

end
