(* ===== verification/Lag_Writes.thy ===== *)
theory Lag_Writes
  imports Vlan_Deletion
begin

text \<open>
  What the LAG commands commit: every one of them commits nothing, or one batch of writes to the
  row of its own LAG.
\<close>

text \<open>
  \<open>writing tr ws t\<close>: since the trace \<open>tr\<close> a transaction was opened and \<open>ws\<close> written in it, with any
  output in between.
\<close>

definition writing :: "cli_event list \<Rightarrow> cli_write list \<Rightarrow> cli \<Rightarrow> bool" where
  "writing tr ws t \<longleftrightarrow> (\<exists>es. c_trace t = tr @ Txn_Start True # es \<and>
     (\<forall>pend fs. committed_from pend (es @ fs) = committed_from (pend @ ws) fs))"

lemma writing_start: "writing (c_trace s) [] (emit (Txn_Start True) s)"
  unfolding writing_def by (rule exI [of _ "[]"]) simp

lemma writing_step:
  "writing tr ws t \<Longrightarrow> writing tr (ws @ [w]) (idl_write env w t)"
  "writing tr ws t \<Longrightarrow> writing tr ws (vty_out m t)"
  unfolding writing_def by (elim exE conjE, rule_tac x = "es @ [Write w]" in exI, simp)
    (elim exE conjE, rule_tac x = "es @ [Out m]" in exI, simp)

lemma writing_ends:
  assumes "writing tr ws t" and "c_trace s' = c_trace t @ fs"
  shows "committed_writes (c_trace s') = committed_writes tr @ committed_from ws fs"
  using assms by (auto simp: writing_def committed_writes_start)

text \<open>What a LAG command may leave behind.\<close>

definition lag_result :: "vty_env \<Rightarrow> cli \<Rightarrow> cmd_ret \<Rightarrow> cli \<Rightarrow> bool" where
  "lag_result env s r s' \<longleftrightarrow> r = CMD_SUCCESS \<and> c_node s' = c_node s \<and> c_index s' = c_index s \<and>
     (committed_writes (c_trace s') = committed_writes (c_trace s) \<or>
      (\<exists>lag ws. find_lag (c_db s) (c_index s) = Some lag \<and>
         vtysh_check_port_in_bridge env (c_db s) (c_index s) \<and>
         (\<forall>w \<in> set ws. port_written w = Some (p_row lag)) \<and>
         committed_writes (c_trace s') = committed_writes (c_trace s) @ [ws]))"

text \<open>The state of a LAG command between the start of its transaction and its end.\<close>

definition lag_pending :: "cli \<Rightarrow> row_ref option \<Rightarrow> cli \<Rightarrow> bool" where
  "lag_pending s r t \<longleftrightarrow> c_node t = c_node s \<and> c_index t = c_index s \<and>
     (\<exists>ws. writing (c_trace s) ws t \<and> (\<forall>w \<in> set ws. port_written w = r))"

lemma lag_pending_start: "lag_pending s r (emit (Txn_Start True) s)"
  using writing_start unfolding lag_pending_def by (fastforce intro: exI [of _ "[]"])

lemma lag_pending_out: "lag_pending s r t \<Longrightarrow> lag_pending s r (vty_out m t)"
  by (auto simp: lag_pending_def intro: writing_step)

lemma lag_pending_write:
  "port_written w = r \<Longrightarrow> lag_pending s r t \<Longrightarrow> lag_pending s r (idl_write env w t)"
  unfolding lag_pending_def
proof (elim conjE exE, intro conjI)
  fix ws assume "port_written w = r" "writing (c_trace s) ws t" "\<forall>w \<in> set ws. port_written w = r"
  then show "\<exists>ws. writing (c_trace s) ws (idl_write env w t) \<and> (\<forall>w \<in> set ws. port_written w = r)"
    by (intro exI [of _ "ws @ [w]"]) (simp add: writing_step)
qed simp_all

lemma lag_pending_if: "lag_pending s r t \<Longrightarrow> lag_pending s r u \<Longrightarrow> lag_pending s r (if b then t else u)"
  by simp

lemma lag_stop:
  assumes "lag_pending s r t"
  shows "returns (lag_result env s) (give_up m t)"
proof -
  from assms obtain ws where "writing (c_trace s) ws t" by (auto simp: lag_pending_def)
  then have "committed_writes (c_trace (emit Txn_Abort (vty_out m t))) = committed_writes (c_trace s)"
    using writing_ends [of "c_trace s" ws t "emit Txn_Abort (vty_out m t)" "[Out m, Txn_Abort]"] by simp
  with assms show ?thesis by (simp add: returns_def give_up_def lag_result_def lag_pending_def)
qed

lemma lag_commit:
  assumes "vtysh_check_port_in_bridge env (c_db s) (c_index s)"
    and "find_lag (c_db s) (c_index s) = Some lag" and "lag_pending s (Some (p_row lag)) t"
  shows "returns (lag_result env s) (commit env m t)"
  unfolding returns_def
proof (intro allI impI)
  fix r s' assume c: "commit env m t = Some (r, s')"
  from assms(3) obtain ws where w: "writing (c_trace s) ws t" "\<forall>w \<in> set ws. port_written w = Some (p_row lag)"
    by (auto simp: lag_pending_def)
  let ?st = "cli_do_config_finish env"
  from c have e: "r = CMD_SUCCESS" "c_node s' = c_node t" "c_index s' = c_index t"
    "c_trace s' = c_trace t @ (if txn_done ?st then [Txn_Finish ?st] else [Txn_Finish ?st, Out m])"
    by (auto simp: commit_def commit_then_def Let_def split: if_splits)
  have "committed_writes (c_trace s') = committed_writes (c_trace s) @ (if txn_done ?st then [ws] else [])"
    unfolding writing_ends [OF w(1) e(4)] by simp
  then have "committed_writes (c_trace s') = committed_writes (c_trace s) \<or>
      committed_writes (c_trace s') = committed_writes (c_trace s) @ [ws]" by (simp split: if_splits)
  with e assms w(2) show "lag_result env s r s'" unfolding lag_result_def lag_pending_def by fastforce
qed

lemma lag_with_txn:
  assumes "cli_do_config_start env \<Longrightarrow> returns (lag_result env s) (body (emit (Txn_Start True) s))"
  shows "returns (lag_result env s) (with_txn env m body s)"
proof (cases "cli_do_config_start env")
  case True
  with assms show ?thesis by (simp add: with_txn_def)
next
  case False
  then show ?thesis by (simp add: with_txn_def returns_def lag_result_def committed_writes_start)
qed

lemmas lag_paths = returns_paths lag_with_txn lag_stop lag_commit lag_pending_if lag_pending_out
  lag_pending_write lag_pending_start

section \<open>The commands\<close>

definition lag_commands :: "command list" where
  "lag_commands =
     [cli_lag_vlan_access, cli_lag_no_vlan_access, cli_lag_vlan_trunk_allowed,
      cli_lag_no_vlan_trunk_allowed, cli_lag_vlan_trunk_native, cli_lag_no_vlan_trunk_native,
      cli_lag_vlan_trunk_native_tag, cli_lag_no_vlan_trunk_native_tag]"

lemma lag_access_result:
  "returns (lag_result env s) (cli_lag_vlan_access env argv s)"
  "returns (lag_result env s) (cli_lag_no_vlan_access env argv s)"
  unfolding cli_lag_vlan_access_def cli_lag_no_vlan_access_def Let_def
  by (intro lag_paths | simp)+

lemma lag_trunk_result:
  "returns (lag_result env s) (cli_lag_vlan_trunk_allowed env argv s)"
  "returns (lag_result env s) (cli_lag_no_vlan_trunk_allowed env argv s)"
  unfolding cli_lag_vlan_trunk_allowed_def cli_lag_no_vlan_trunk_allowed_def Let_def
  by (intro lag_paths | simp)+

lemma lag_native_result:
  "returns (lag_result env s) (cli_lag_vlan_trunk_native env argv s)"
  "returns (lag_result env s) (cli_lag_no_vlan_trunk_native env argv s)"
  unfolding cli_lag_vlan_trunk_native_def cli_lag_no_vlan_trunk_native_def Let_def
  by (intro lag_paths | simp)+

lemma lag_tag_result:
  "returns (lag_result env s) (cli_lag_vlan_trunk_native_tag env argv s)"
  "returns (lag_result env s) (cli_lag_no_vlan_trunk_native_tag env argv s)"
  unfolding cli_lag_vlan_trunk_native_tag_def cli_lag_no_vlan_trunk_native_tag_def Let_def
  by (intro lag_paths | simp)+

lemma lag_commands_result: "run \<in> set lag_commands \<Longrightarrow> returns (lag_result env s) (run env argv s)"
  unfolding lag_commands_def
  using lag_access_result lag_trunk_result lag_native_result lag_tag_result by auto

end
