(* ===== verification/Cli_Install.thy ===== *)
theory Cli_Install
  imports Cli_Show
begin

text \<open>
  The commands the module installs (\<^verbatim>\<open>cli_post_init\<close> and the \<^verbatim>\<open>DEFUN\<close> headers of
  \<^verbatim>\<open>src/cli/vlan_vty.c\<close>), and terminal sessions made of them.
\<close>

section \<open>The installed commands\<close>

text \<open>
  The node, the syntax and the handler of each installed element, in the order of
  \<^verbatim>\<open>cli_post_init\<close>. The elements that \<^verbatim>\<open>libvtysh\<close> itself defines (\<^verbatim>\<open>exit\<close> and \<^verbatim>\<open>end\<close>) are not
  listed.
\<close>

definition cli_post_init :: "(node \<times> string \<times> command) list" where
  "cli_post_init =
     [(CONFIG_NODE, ''no interface vlan <1-4094>'', no_vtysh_interface_vlan),
      (CONFIG_NODE, ''vlan <1-4094>'', vtysh_vlan),
      (CONFIG_NODE, ''no vlan <2-4094>'', vtysh_no_vlan),
      (CONFIG_NODE, ''interface vlan <1-4094>'', vtysh_interface_vlan),
      (CONFIG_NODE, ''vlan internal range <2-4094> <2-4094> (ascending|descending)'',
        cli_vlan_int_range_add),
      (CONFIG_NODE, ''no vlan internal range'', cli_vlan_int_range_del),
      (CONFIG_NODE, ''no vlan internal range <2-4094> <2-4094> (ascending|descending)'',
        cli_vlan_int_range_del_arg),
      (ENABLE_NODE, ''show vlan internal'', cli_show_vlan_int_range),
      (ENABLE_NODE, ''show vlan summary'', cli_show_vlan_summary),
      (ENABLE_NODE, ''show vlan'', cli_show_vlan),
      (ENABLE_NODE, ''show vlan <1-4094>'', cli_show_vlan_id),
      (VLAN_NODE, ''shutdown'', cli_vlan_admin),
      (VLAN_NODE, ''no shutdown'', cli_no_vlan_admin),
      (INTERFACE_NODE, ''vlan access <1-4094>'', cli_intf_vlan_access),
      (INTERFACE_NODE, ''no vlan access <2-4094>'', cli_intf_no_vlan_access),
      (INTERFACE_NODE, ''no vlan access'', cli_intf_no_vlan_access_val),
      (INTERFACE_NODE, ''vlan trunk allowed <A:1-4094>'', cli_intf_vlan_trunk_allowed),
      (INTERFACE_NODE, ''no vlan trunk allowed <1-4094>'', cli_intf_no_vlan_trunk_allowed),
      (INTERFACE_NODE, ''vlan trunk native <1-4094>'', cli_intf_vlan_trunk_native),
      (INTERFACE_NODE, ''no vlan trunk native [<1-4094>]'', cli_intf_no_vlan_trunk_native),
      (INTERFACE_NODE, ''vlan trunk native tag'', cli_intf_vlan_trunk_native_tag),
      (INTERFACE_NODE, ''no vlan trunk native tag'', cli_intf_no_vlan_trunk_native_tag),
      (LINK_AGGREGATION_NODE, ''vlan access <1-4094>'', cli_lag_vlan_access),
      (LINK_AGGREGATION_NODE, ''no vlan access [<2-4094>]'', cli_lag_no_vlan_access),
      (LINK_AGGREGATION_NODE, ''vlan trunk allowed <1-4094>'', cli_lag_vlan_trunk_allowed),
      (LINK_AGGREGATION_NODE, ''no vlan trunk allowed <1-4094>'', cli_lag_no_vlan_trunk_allowed),
      (LINK_AGGREGATION_NODE, ''vlan trunk native <1-4094>'', cli_lag_vlan_trunk_native),
      (LINK_AGGREGATION_NODE, ''no vlan trunk native'', cli_lag_no_vlan_trunk_native),
      (LINK_AGGREGATION_NODE, ''vlan trunk native tag'', cli_lag_vlan_trunk_native_tag),
      (LINK_AGGREGATION_NODE, ''no vlan trunk native tag'', cli_lag_no_vlan_trunk_native_tag)]"

definition installed_commands :: "command list" where
  "installed_commands = map (\<lambda>(n, syn, run). run) cli_post_init"

text \<open>No node has two commands of the same syntax.\<close>

lemma cli_post_init_unambiguous: "distinct (map (\<lambda>(n, syn, run). (n, syn)) cli_post_init)"
  by (simp add: cli_post_init_def)

section \<open>The show commands keep the transaction discipline\<close>

lemma phase_outs: "phase (es @ map Out ts) = phase es"
proof -
  have "foldl txn_step ph (map Out ts) = ph" for ph
    by (induction ts) (cases ph; simp)+
  then show ?thesis by (simp add: phase_append)
qed

lemma outs_typed: "typed_events (map Out ts)"
  by (auto simp: typed_events_def)

lemma ends_print: "phase (c_trace s) = Idle \<Longrightarrow> ends (Some (r, print_all ts s)) (c_trace s)"
  by (simp add: ends_def print_all_trace phase_outs outs_typed)

interpretation show_vlan: config_command cli_show_vlan
  by (rule config_commandI) (simp add: cli_show_vlan_def Let_def ends_print ends_idle(2))

interpretation show_vlan_id: config_command cli_show_vlan_id
  by (rule config_commandI)
    (simp add: cli_show_vlan_id_def Let_def ends_print ends_idle(2) split: option.split)

interpretation show_vlan_summary: config_command cli_show_vlan_summary
  by (rule config_commandI) (simp add: cli_show_vlan_summary_def ends_idle(2))

interpretation show_int_range: config_command cli_show_vlan_int_range
  by (rule config_commandI)
    (simp add: cli_show_vlan_int_range_def show_vlan_int_range_def Let_def ends_print ends_idle(1)
      split: option.split prod.split)

section \<open>Sessions\<close>

lemma installed_contract: "run \<in> set installed_commands \<Longrightarrow> config_command run"
  unfolding installed_commands_def cli_post_init_def
  by (auto intro: interface_vlan.config_command_axioms no_interface_vlan.config_command_axioms
      vlan.config_command_axioms no_vlan.config_command_axioms vlan_admin.config_command_axioms
      no_vlan_admin.config_command_axioms int_range_add.config_command_axioms
      int_range_del.config_command_axioms int_range_del_arg.config_command_axioms
      intf_access.config_command_axioms intf_no_access.config_command_axioms
      intf_no_access_val.config_command_axioms intf_trunk.config_command_axioms
      intf_no_trunk.config_command_axioms intf_native.config_command_axioms
      intf_no_native.config_command_axioms intf_tag.config_command_axioms intf_no_tag.config_command_axioms
      lag_access.config_command_axioms lag_no_access.config_command_axioms lag_trunk.config_command_axioms
      lag_no_trunk.config_command_axioms lag_native.config_command_axioms
      lag_no_native.config_command_axioms lag_tag.config_command_axioms lag_no_tag.config_command_axioms
      show_vlan.config_command_axioms show_vlan_id.config_command_axioms
      show_vlan_summary.config_command_axioms show_int_range.config_command_axioms)

definition run_session :: "(command \<times> vty_env \<times> string list) list \<Rightarrow> cli \<Rightarrow> cli option" where
  "run_session calls s = foldM (\<lambda>(run, env, argv) s. map_option snd (run env argv s)) calls s"

lemma run_session_phase:
  assumes "run_session calls s = Some s'" and "\<forall>(run, env, argv) \<in> set calls. run \<in> set installed_commands"
    and "phase (c_trace s) = Idle"
  shows "phase (c_trace s') = Idle \<and> goes_on (c_trace s) (c_trace s')"
proof (rule foldM_result_inv [OF assms(1) [unfolded run_session_def]])
  fix call and a b :: cli
  assume call: "call \<in> set calls" and a: "phase (c_trace a) = Idle \<and> goes_on (c_trace s) (c_trace a)"
    and b: "(case call of (run, env, argv) \<Rightarrow> \<lambda>s. map_option snd (run env argv s)) a = Some b"
  obtain run env argv where c: "call = (run, env, argv)" by (metis prod_cases3)
  with call assms(2) have contract: "config_command run" by (auto intro: installed_contract)
  from b c obtain r where "run env argv a = Some (r, b)" by auto
  with config_command.keeps_phase [OF contract] config_command.extends [OF contract] a
  show "phase (c_trace b) = Idle \<and> goes_on (c_trace s) (c_trace b)" by (blast intro: goes_on_trans)
qed (simp add: assms(3))

end
