(* ===== verification/Cli_Properties.thy ===== *)
theory Cli_Properties
  imports Cli_Example Trunk_Range Lag_Writes Cli_Install
begin

text \<open>
  The properties of the CLI: the transaction discipline of all configuration commands, what the
  individual commands commit and when, the effect of what they commit on the port rows, and the
  output of the show commands and of the running configuration.
\<close>

section \<open>Transactions\<close>

text \<open>
  C23: A terminal session of the installed commands, in any order, with any arguments, in any
  environment and whatever the outcome of each transaction, never leaves a transaction open,
  never writes outside one, and never ends one twice; and everything it writes to an enumerated
  column (a port's mode, a VLAN's administrative and operational state and reason) is a value of
  the enumeration.
\<close>
theorem cli_session_closes_transactions:
  assumes "run_session calls s = Some s'" and "\<forall>(run, env, argv) \<in> set calls. run \<in> set installed_commands"
    and "phase (c_trace s) = Idle"
  shows "phase (c_trace s') = Idle \<and>
    (\<exists>es. c_trace s' = c_trace s @ es \<and> (\<forall>w. Write w \<in> set es \<longrightarrow> cli_typed w))"
  using run_session_phase [OF assms] by (simp add: goes_on_def typed_events_def)

lemma cli_session_closes_transactions_witness:
  "\<exists>s'. run_session [(cli_vlan_admin, ex_vty, []), (cli_vlan_admin, ex_vty, [])] ex_cli = Some s' \<and>
     phase (c_trace s') = Idle"
proof -
  let ?calls = "[(cli_vlan_admin, ex_vty, []), (cli_vlan_admin, ex_vty, [])] :: (command \<times> vty_env \<times> string list) list"
  have "atoi ''1'' = 1" by code_simp
  then obtain s' where r: "run_session ?calls ex_cli = Some s'"
    by (auto simp: run_session_def cli_vlan_admin_def with_txn_def DEFAULT_VLAN_def)
  from cli_session_closes_transactions [OF r] r show ?thesis by (auto simp: installed_commands_def cli_post_init_def)
qed

text \<open>
  C21: Each of the eight LAG commands reports success, leaves the terminal where it is, and commits
  nothing or one batch. The batch writes only to the row of the LAG the terminal is configuring,
  and that LAG is switched.
\<close>
theorem lag_commands_write_own_row:
  assumes "run \<in> set lag_commands" and "run env argv s = Some (r, s')"
  shows "r = CMD_SUCCESS \<and> c_node s' = c_node s \<and> c_index s' = c_index s \<and>
    (committed_writes (c_trace s') = committed_writes (c_trace s) \<or>
     (\<exists>lag ws. find_lag (c_db s) (c_index s) = Some lag \<and>
        vtysh_check_port_in_bridge env (c_db s) (c_index s) \<and>
        (\<forall>w \<in> set ws. port_written w = Some (p_row lag)) \<and>
        committed_writes (c_trace s') = committed_writes (c_trace s) @ [ws]))"
  using lag_commands_result [OF assms(1)] assms(2) by (simp add: returns_def lag_result_def)

lemma lag_commands_write_own_row_witness:
  "\<exists>s'. cli_lag_vlan_trunk_native_tag ex_vty [] (ex_cli_with (ex_trunk_port [10])) = Some (CMD_SUCCESS, s') \<and>
     c_index s' = ''1''"
proof -
  let ?s = "ex_cli_with (ex_trunk_port [10])"
  obtain r s' where run: "cli_lag_vlan_trunk_native_tag ex_vty [] ?s = Some (r, s')"
    by (simp add: cli_lag_vlan_trunk_native_tag_def with_txn_def find_lag_def ex_trunk_port_def ex_cli_port_def
        ex_access_def commit_def commit_then_def txn_done_def Let_def)
  have "cli_lag_vlan_trunk_native_tag \<in> set lag_commands" by (simp add: lag_commands_def)
  from lag_commands_write_own_row [OF this run] run show ?thesis by auto
qed

section \<open>Access mode\<close>

text \<open>
  C24: \<open>vlan access\<close> always reports success to the terminal, and commits either nothing or exactly
  one batch. It commits the batch only when no port of another name, such as a LAG, holds the
  interface, when the interface is switched, and when the VLAN exists and is not internal; the
  batch sets access mode, the tag and no trunks, on the port of the interface's own name that
  holds it or, when no port holds it, on the port that was added for it.
\<close>
theorem vlan_access_commits_all_or_nothing:
  assumes "cli_intf_vlan_access env argv s = Some (r, s')"
  shows "r = CMD_SUCCESS \<and>
    (committed_writes (c_trace s') = committed_writes (c_trace s) \<or>
     (\<forall>q \<in> set (ports (c_db s)). holds_interface (c_db s) (c_index s) q \<longrightarrow> p_name q = c_index s) \<and>
     (\<exists>p db1.
        (p \<in> set (ports (c_db s)) \<and> holds_interface (c_db s) (c_index s) p \<and> db1 = c_db s \<or>
         (\<forall>q \<in> set (ports (c_db s)). \<not> holds_interface (c_db s) (c_index s) q) \<and>
         added_port env (c_index s) (c_db s) p db1) \<and>
        check_iface_in_bridge env db1 (c_index s) \<and> (\<exists>v \<in> set (vlans db1). v_id v = atoi (argv ! 0)) \<and>
        \<not> (interfaces (c_db s) \<noteq> [] \<and> check_internal_vlan env (c_db s) (atoi (argv ! 0)) = 0) \<and>
        txn_done (cli_do_config_finish env) \<and>
        committed_writes (c_trace s') = committed_writes (c_trace s) @
          [[Port_Set_Vlan_Mode (p_row p) (Some ''access''), Port_Set_Tag (p_row p) (atoi (argv ! 0)),
            Port_Set_Trunks (p_row p) [] 0]]))"
proof -
  let ?vid = "atoi (argv ! 0)" and ?s0 = "emit (Txn_Start True) s"
  obtain found s1 where o: "obtain_port env (c_index s) None ?s0 = (found, s1)" by fastforce
  note in0 = in_txn_start [of s]
  from in_txn_obtain [OF o in0] have in1: "in_txn (c_trace s) [] s1" "c_index s1 = c_index s" by simp_all
  have in3: "in_txn (c_trace s) (access_batch row ?vid)
      (idl_write env (Port_Set_Trunks row [] 0) (idl_write env (Port_Set_Tag row ?vid)
        (idl_write env (Port_Set_Vlan_Mode row (Some OVSREC_PORT_VLAN_MODE_ACCESS)) s1)))" for row
    using in_txn_write [OF in_txn_write [OF in_txn_write [OF in1(1)]]] by (simp add: access_batch_def)
  have "r = CMD_SUCCESS \<and>
    (committed_writes (c_trace s') = committed_writes (c_trace s) \<or>
     (\<exists>row. found = Inr (Some row) \<and>
        check_iface_in_bridge env (c_db s1) (c_index s) \<and> vlan_exists (c_db s1) ?vid \<and>
        \<not> (interfaces (c_db s) \<noteq> [] \<and> check_internal_vlan env (c_db s) ?vid = 0) \<and>
        txn_done (cli_do_config_finish env) \<and>
        committed_writes (c_trace s') = committed_writes (c_trace s) @ [access_batch row ?vid]))"
    using assms unfolding cli_intf_vlan_access_def Let_def
  proof (cases rule: with_txn_cases)
    case started
    then show ?thesis
      using in_txn_give_up [OF in0] in_txn_give_up [OF in1(1)] in_txn_commit [OF in3]
      by (cases "list_ex (\<lambda>_. check_internal_vlan env (c_db s) ?vid = 0) (interfaces (c_db s))")
        (auto simp: o in1(2) list_ex_iff split: sum.splits option.splits if_splits)
  qed simp
  moreover note obtain_port_source [of env "c_index s" ?s0 _ s1]
  ultimately show ?thesis
    using o by (fastforce simp: vlan_exists_def list_ex_iff access_batch_def)
qed

lemma atoi_10: "atoi ''10'' = 10"
  by code_simp

lemma ex_access_runs:
  "\<exists>s'. cli_intf_vlan_access ex_vty [''10''] ex_cli = Some (CMD_SUCCESS, s') \<and>
     committed_writes (c_trace s') = [access_batch 101 10] \<and>
     c_db s' = fold (apply_cli_write ex_vty) (access_batch 101 10) (c_db ex_cli)"
  using intf_access_runs [of ex_vty ex_cli "[''10'']", OF _ _ _ ex_cli_obtain [folded ex_cli_fields(1)]]
  by (simp add: atoi_10 txn_done_def vlan_exists_def ex_vlan_def committed_writes_def)

lemma vlan_access_commits_all_or_nothing_witness:
  "\<exists>s'. cli_intf_vlan_access ex_vty [''10''] ex_cli = Some (CMD_SUCCESS, s') \<and>
     committed_writes (c_trace s') \<noteq> [] \<and>
     (\<forall>q \<in> set (ports (c_db ex_cli)). holds_interface (c_db ex_cli) ''1'' q \<longrightarrow> p_name q = ''1'') \<and>
     (\<exists>v \<in> set (vlans (c_db ex_cli)). v_id v = 10)"
proof -
  obtain s' where s': "cli_intf_vlan_access ex_vty [''10''] ex_cli = Some (CMD_SUCCESS, s')"
    "committed_writes (c_trace s') = [access_batch 101 10]" using ex_access_runs by blast
  from vlan_access_commits_all_or_nothing [OF s'(1)] s' show ?thesis
    by (auto simp: ex_vlan_def atoi_10 committed_writes_def)
qed

text \<open>
  C25: When its checks pass, \<open>vlan access\<close> succeeds and leaves the port in access mode with the VLAN
  as its tag and no trunks, so that the daemon, reading that row, gives the port a bitmap of
  exactly that VLAN.
\<close>
theorem vlan_access_puts_port_in_vlan:
  assumes "cli_do_config_start env" and "txn_done (cli_do_config_finish env)" and "port_write_laws env"
    and "interfaces (c_db s) = [] \<or> check_internal_vlan env (c_db s) (atoi (argv ! 0)) \<noteq> 0"
    and "obtain_port env (c_index s) None (emit (Txn_Start True) s) = (Inr (Some row), s1)"
    and "deref_port (c_db s1) row = Some p"
    and "check_iface_in_bridge env (c_db s1) (c_index s)" and "vlan_exists (c_db s1) (atoi (argv ! 0))"
    and "VALID_VID (atoi (argv ! 0))" and "env_ok E" and "ops E = utils env"
  shows "\<exists>s' p'. cli_intf_vlan_access env argv s = Some (CMD_SUCCESS, s') \<and>
    deref_port (c_db s') row = Some p' \<and> in_access_vlan (utils env) (atoi (argv ! 0)) p' \<and>
    port_bits E (construct_vlan_bitmap E db known p' port) = {nat (atoi (argv ! 0))}"
proof -
  let ?vid = "atoi (argv ! 0)"
  have pos: "0 \<le> ?vid" using assms(9) by (simp add: VALID_VID_def)
  from intf_access_runs [OF assms(1,2,4,5,7,8)] obtain s' where
    s': "cli_intf_vlan_access env argv s = Some (CMD_SUCCESS, s')"
      "c_db s' = fold (apply_cli_write env) (access_batch row ?vid) (c_db s1)" by blast
  from access_batch_effect [OF assms(3,8) pos assms(6)] obtain p' where
    p': "deref_port (c_db s') row = Some p'" "in_access_vlan (utils env) ?vid p'" by (auto simp: s'(2))
  have "port_bits E (construct_vlan_bitmap E db known p' port) = {nat ?vid}"
    unfolding construct_vlan_bitmap_bits [OF assms(10)]
    using p'(2) assms(9) valid_vid_size [OF assms(10,9)] pos
    by (auto simp: in_access_vlan_def row_trunks_all_def row_lists_def row_vlan_mode_def row_native_vid_def
        assms(11) bitmap_size_def)
  with s'(1) p' show ?thesis by blast
qed

lemma vlan_access_puts_port_in_vlan_witness:
  "\<exists>s' p'. cli_intf_vlan_access ex_vty [''10''] ex_cli = Some (CMD_SUCCESS, s') \<and>
     deref_port (c_db s') 101 = Some p' \<and>
     bits set_bitmap (pd_vlans_bitmap (construct_vlan_bitmap ex_env ex_db1 {} p' (new_port_data ex_env ex_cli_port))) = {10}"
proof -
  have "\<exists>s' p'. cli_intf_vlan_access ex_vty [''10''] ex_cli = Some (CMD_SUCCESS, s') \<and>
      deref_port (c_db s') 101 = Some p' \<and> in_access_vlan (utils ex_vty) (atoi ([''10''] ! 0)) p' \<and>
      port_bits ex_env (construct_vlan_bitmap ex_env ex_db1 {} p' q) = {nat (atoi ([''10''] ! 0))}" for q
    by (rule vlan_access_puts_port_in_vlan [OF _ _ ex_vty_laws _ ex_cli_obtain [folded ex_cli_fields(1)] _ _ _ _ ex_env_ok])
      (simp_all add: atoi_10 txn_done_def deref_port_def ex_cli_port_def ex_access_def vlan_exists_def
        ex_vlan_def VALID_VID_def ex_env_def)
  from this [of "new_port_data ex_env ex_cli_port"] show ?thesis
    by (auto simp: atoi_10 ex_env_def)
qed

text \<open>
  C26: The running configuration of an access port reads back: its only line is \<open>vlan access\<close> with
  an argument which, given to the command for a port that passes the checks, commits access
  mode with the tag the line was printed from.
\<close>
theorem running_config_access_round_trip:
  assumes "port_lookup env db ifname = Some p" and "p_vlan_mode p = Some OVSREC_PORT_VLAN_MODE_ACCESS"
    and "p_vlan_tag p \<noteq> None" and "VALID_VID (ops_port_get_tag (utils env) p)"
    and "cli_do_config_start env" and "txn_done (cli_do_config_finish env)"
    and "interfaces (c_db s) = [] \<or> check_internal_vlan env (c_db s) (ops_port_get_tag (utils env) p) \<noteq> 0"
    and "obtain_port env (c_index s) None (emit (Txn_Start True) s) = (Inr (Some row), s1)"
    and "check_iface_in_bridge env (c_db s1) (c_index s)"
    and "vlan_exists (c_db s1) (ops_port_get_tag (utils env) p)"
  shows "\<exists>a s'. vtysh_ovsdb_intftable_parse_vlan env db ifname = [''    vlan access '' @ a] \<and>
    cli_intf_vlan_access env [a] s = Some (CMD_SUCCESS, s') \<and>
    committed_writes (c_trace s') =
      committed_writes (c_trace s) @ [access_batch row (ops_port_get_tag (utils env) p)]"
proof -
  let ?a = "dec (ops_port_get_tag (utils env) p)"
  have a: "atoi ([?a] ! 0) = ops_port_get_tag (utils env) p" by simp
  have line: "vtysh_ovsdb_intftable_parse_vlan env db ifname = [''    vlan access '' @ ?a]"
    using assms(1-4) by (simp add: vtysh_ovsdb_intftable_parse_vlan_def)
  obtain s' where "cli_intf_vlan_access env [?a] s = Some (CMD_SUCCESS, s')"
    "committed_writes (c_trace s') =
      committed_writes (c_trace s) @ [access_batch row (ops_port_get_tag (utils env) p)]"
    using intf_access_runs [OF assms(5,6), of s "[?a]", unfolded a, OF assms(7-10)] by blast
  with line show ?thesis by blast
qed

lemma running_config_access_round_trip_witness:
  "\<exists>a s'. vtysh_ovsdb_intftable_parse_vlan ex_vty (c_db ex_cli) ''1'' = [''    vlan access '' @ a] \<and>
     cli_intf_vlan_access ex_vty [a] ex_cli = Some (CMD_SUCCESS, s') \<and>
     committed_writes (c_trace s') = [access_batch 101 1]"
  using running_config_access_round_trip
    [of ex_vty "c_db ex_cli" "''1''" ex_cli_port ex_cli, OF _ _ _ _ _ _ _ ex_cli_obtain [folded ex_cli_fields(1)]]
  by (auto simp: find_lag_def ex_cli_port_def ex_access_def ex_ops_def VALID_VID_def txn_done_def
      vlan_exists_def ex_vlan_def committed_writes_def)

text \<open>
  C27: \<open>no vlan access\<close> commits nothing, or exactly one batch that keeps access mode and moves the
  port to the default VLAN; the latter only for a switched port that is in access mode and,
  when a VLAN is named, is in that VLAN.
\<close>
theorem no_vlan_access_resets_to_default:
  assumes "cli_intf_no_vlan_access env argv s = Some (r, s')"
  shows "r = CMD_SUCCESS \<and>
    (committed_writes (c_trace s') = committed_writes (c_trace s) \<or>
     (\<exists>k s1 row. obtain_port env (c_index s) None (emit (Txn_Start True) s) = (Inr (Some k), s1) \<and>
        deref_port (c_db s1) k = Some row \<and> p_vlan_mode row = Some OVSREC_PORT_VLAN_MODE_ACCESS \<and>
        check_iface_in_bridge env (c_db s1) (c_index s) \<and>
        (argv = [] \<or> atoi (argv ! 0) = 0 \<or> ops_port_get_tag (utils env) row = atoi (argv ! 0)) \<and>
        committed_writes (c_trace s') = committed_writes (c_trace s) @
          [[Port_Set_Vlan_Mode k (Some OVSREC_PORT_VLAN_MODE_ACCESS), Port_Set_Tag k DEFAULT_VLAN]]))"
proof -
  let ?s0 = "emit (Txn_Start True) s"
  obtain found s1 where o: "obtain_port env (c_index s) None ?s0 = (found, s1)" by fastforce
  note in0 = in_txn_start [of s]
  from in_txn_obtain [OF o in0] have in1: "in_txn (c_trace s) [] s1" "c_index s1 = c_index s" by simp_all
  have in2: "in_txn (c_trace s) [Port_Set_Vlan_Mode k (Some OVSREC_PORT_VLAN_MODE_ACCESS), Port_Set_Tag k DEFAULT_VLAN]
      (idl_write env (Port_Set_Tag k DEFAULT_VLAN)
        (idl_write env (Port_Set_Vlan_Mode k (Some OVSREC_PORT_VLAN_MODE_ACCESS)) s1))" for k
    using in_txn_write [OF in_txn_write [OF in1(1)]] by simp
  have row: "p_row row = k" if "deref_port db k = Some row" for db k row
    using that by (auto simp: deref_port_def dest: find_SomeD)
  show ?thesis
    using assms unfolding cli_intf_no_vlan_access_def Let_def
  proof (cases rule: with_txn_cases)
    case started
    then show ?thesis
      using in_txn_give_up [OF in0] in_txn_give_up [OF in1(1)] in_txn_commit [OF in2]
      by (auto simp: o in1(2) bind_eq_Some_conv row split: sum.splits option.splits if_splits)
  qed simp
qed

lemma no_vlan_access_resets_to_default_witness:
  "\<exists>r s'. cli_intf_no_vlan_access ex_vty [] ex_cli = Some (r, s') \<and> r = CMD_SUCCESS"
proof -
  have "\<exists>r s'. cli_intf_no_vlan_access ex_vty [] ex_cli = Some (r, s')"
    by (simp add: cli_intf_no_vlan_access_def with_txn_def ex_cli_obtain deref_port_def ex_cli_port_def
        ex_access_def commit_returns)
  then obtain r s' where "cli_intf_no_vlan_access ex_vty [] ex_cli = Some (r, s')" by blast
  with no_vlan_access_resets_to_default [OF this] show ?thesis by blast
qed

section \<open>Trunk mode\<close>

text \<open>
  C28: The loop that copies the trunks without one VLAN into an array of one entry less stays inside
  that array and fills it exactly when the VLAN is listed once; then the array holds the entries
  before and after it in their order, and the count passed on is their number. In any other case
  it writes past the end, leaves an entry unwritten, or asks for an array of negative size. The
  commands enter the loop only for a VLAN that is listed; that it is listed once is what the
  column's type owes them.
\<close>
theorem remove_trunk_bounds:
  "remove_trunk U row vid = Some (trunks, n) \<longleftrightarrow>
    (\<exists>before after. port_trunks U row = before @ vid # after \<and>
       vid \<notin> set before \<and> vid \<notin> set after \<and> trunks = before @ after \<and> n = int (length trunks))"
proof -
  have len: "int (n_vlan_trunks row) - 1 = int (length (before @ after))"
    if "port_trunks U row = before @ vid # after" for before after
    using that length_port_trunks [of U row] by simp
  have filter: "filter (\<lambda>v. v \<noteq> vid) (before @ vid # after) = before @ after"
    if "vid \<notin> set before" "vid \<notin> set after" for before after
    using that by (simp add: filter_id_conv) (metis (mono_tags, lifting) filter_True)
  show ?thesis
    unfolding remove_trunk_eq count_list_one using len filter
    by (smt (verit) Pair_inject option.distinct(1) option.inject)
qed

lemma remove_trunk_bounds_witness:
  "remove_trunk ex_ops (ex_trunk_port [10, 20, 30]) 20 = Some ([10, 30], 2)"
proof -
  have "port_trunks ex_ops (ex_trunk_port [10, 20, 30]) = [10] @ 20 # [30]" by (simp add: ex_trunk_port_def)
  then show ?thesis
    by (intro iffD2 [OF remove_trunk_bounds] exI [of _ "[10]"] exI [of _ "[30]"] conjI) simp_all
qed

text \<open>
  C29: \<open>no vlan trunk allowed\<close> always reports success to the terminal, and commits nothing or exactly
  one batch. It commits the batch only when no port of another name holds the interface, when
  the port is switched, is not an access port (its mode is a trunk mode, or unset) and carries the
  VLAN; the batch passes on all its trunks but that VLAN, one fewer than before, and when the port is
  a plain trunk and none is left it also makes it an access port of VLAN 1.
\<close>
theorem no_trunk_allowed_commits:
  assumes "cli_intf_no_vlan_trunk_allowed env argv s = Some (r, s')"
  shows "r = CMD_SUCCESS \<and>
    (committed_writes (c_trace s') = committed_writes (c_trace s) \<or>
     (\<forall>q \<in> set (ports (c_db s)). holds_interface (c_db s) (c_index s) q \<longrightarrow> p_name q = c_index s) \<and>
     (\<exists>k p row trunks. p \<in> set (ports (c_db s)) \<and> holds_interface (c_db s) (c_index s) p \<and> p_row p = k \<and>
        deref_port (c_db s) k = Some row \<and> check_iface_in_bridge env (c_db s) (c_index s) \<and>
        p_vlan_mode row \<in> {None, Some ''trunk'', Some ''native-tagged'', Some ''native-untagged''} \<and>
        atoi (argv ! 0) \<in> set (port_trunks (utils env) row) \<and>
        set trunks = set (port_trunks (utils env) row) - {atoi (argv ! 0)} \<and>
        Suc (length trunks) = n_vlan_trunks row \<and>
        committed_writes (c_trace s') = committed_writes (c_trace s) @
          [Port_Set_Trunks k trunks (int (length trunks)) #
           (if p_vlan_mode row = Some ''trunk'' \<and> trunks = []
            then [Port_Set_Vlan_Mode k (Some ''access''), Port_Set_Tag k 1] else [])]))"
proof -
  let ?s0 = "emit (Txn_Start True) s" and ?vid = "atoi (argv ! 0)"
  note in0 = in_txn_start [of s]
  let ?w1 = "\<lambda>k ts n. idl_write env (Port_Set_Trunks k ts n) ?s0"
  let ?w3 = "\<lambda>k ts n. idl_write env (Port_Set_Tag k DEFAULT_VLAN)
    (idl_write env (Port_Set_Vlan_Mode k (Some OVSREC_PORT_VLAN_MODE_ACCESS)) (?w1 k ts n))"
  let ?batch = "\<lambda>k row ts n. Port_Set_Trunks k ts n #
    (if p_vlan_mode row = Some OVSREC_PORT_VLAN_MODE_TRUNK \<and> n = 0
     then [Port_Set_Vlan_Mode k (Some OVSREC_PORT_VLAN_MODE_ACCESS), Port_Set_Tag k DEFAULT_VLAN] else [])"
  have "in_txn (c_trace s) (?batch k row ts n)
      (if p_vlan_mode row = Some OVSREC_PORT_VLAN_MODE_TRUNK \<and> n = 0 then ?w3 k ts n else ?w1 k ts n)"
    for k row ts n
    using in_txn_write [OF in0] in_txn_write [OF in_txn_write [OF in_txn_write [OF in0]]] by simp
  note c = returns_commit [OF this]
  have "returns (\<lambda>r s'. r = CMD_SUCCESS \<and>
    (committed_writes (c_trace s') = committed_writes (c_trace s) \<or>
     (\<exists>k row trunks n. deref_port (c_db s) k = Some row \<and> check_iface_in_bridge env (c_db s) (c_index s) \<and>
        scan_ports (find_interface (c_db s) (c_index s)) (c_index s) (ports (c_db s)) None = Inr (Some k) \<and>
        (\<forall>m. p_vlan_mode row = Some m \<longrightarrow> trunk_mode m) \<and>
        ?vid \<in> set (port_trunks (utils env) row) \<and> remove_trunk (utils env) row ?vid = Some (trunks, n) \<and>
        committed_writes (c_trace s') = committed_writes (c_trace s) @ [?batch k row trunks n])))
    (cli_intf_no_vlan_trunk_allowed env argv s)"
    unfolding cli_intf_no_vlan_trunk_allowed_def Let_def
    by (intro returns_with_txn returns_paths c returns_stop [OF in0])
      (auto split: option.split_asm if_split_asm)
  note R = returnsD [OF this assms]
  show ?thesis
  proof (cases "committed_writes (c_trace s') = committed_writes (c_trace s)")
    case True
    with R show ?thesis by blast
  next
    case False
    with R obtain k row trunks n where w: "deref_port (c_db s) k = Some row"
      "check_iface_in_bridge env (c_db s) (c_index s)" "\<forall>m. p_vlan_mode row = Some m \<longrightarrow> trunk_mode m"
      "?vid \<in> set (port_trunks (utils env) row)" and rm: "remove_trunk (utils env) row ?vid = Some (trunks, n)"
      and scan: "scan_ports (find_interface (c_db s) (c_index s)) (c_index s) (ports (c_db s)) None = Inr (Some k)"
      and batch: "committed_writes (c_trace s') = committed_writes (c_trace s) @ [?batch k row trunks n]" by blast
    have mode: "p_vlan_mode row \<in> {None, Some ''trunk'', Some ''native-tagged'', Some ''native-untagged''}"
      using w(3) by (cases "p_vlan_mode row") (auto simp: trunk_mode_def native_mode_def)
    from scan_ports_holds [OF scan] obtain p where
      p: "p \<in> set (ports (c_db s))" "holds_interface (c_db s) (c_index s) p" "p_row p = k" by auto
    note rt = remove_trunk_result [OF rm]
    from batch have "committed_writes (c_trace s') = committed_writes (c_trace s) @
        [Port_Set_Trunks k trunks (int (length trunks)) #
         (if p_vlan_mode row = Some ''trunk'' \<and> trunks = []
          then [Port_Set_Vlan_Mode k (Some ''access''), Port_Set_Tag k 1] else [])]"
      by (simp add: rt(1) DEFAULT_VLAN_def)
    with R scan_ports_holds [OF scan] p w(1,2,4) mode rt(2,3) show ?thesis by blast
  qed
qed

lemma no_trunk_allowed_commits_witness:
  "\<exists>s'. cli_intf_no_vlan_trunk_allowed ex_vty [''10''] (ex_cli_with (ex_trunk_port [10])) = Some (CMD_SUCCESS, s') \<and>
     committed_writes (c_trace s') =
       [[Port_Set_Trunks 101 [] 0, Port_Set_Vlan_Mode 101 (Some ''access''), Port_Set_Tag 101 1]]"
proof -
  let ?p = "ex_trunk_port [10]"
  have p: "p_name ?p = ''1''" "p_interfaces ?p = [300]" "p_row ?p = 101" "p_vlan_mode ?p = Some ''trunk''"
    "p_vlan_trunks ?p = [10]" by (simp_all add: ex_trunk_port_def ex_cli_port_def ex_access_def)
  have rt: "remove_trunk ex_ops ?p 10 = Some ([], 0)" by (simp add: remove_trunk_eq p n_vlan_trunks_def)
  have "\<exists>r s'. cli_intf_no_vlan_trunk_allowed ex_vty [''10''] (ex_cli_with ?p) = Some (r, s') \<and>
      committed_writes (c_trace s') \<noteq> []"
    by (simp add: cli_intf_no_vlan_trunk_allowed_def with_txn_def find_interface_def ex_iface_def p
        deref_port_def rt trunk_mode_def atoi_10 commit_def commit_then_def txn_done_def committed_writes_def)
  then obtain r s' where c: "cli_intf_no_vlan_trunk_allowed ex_vty [''10''] (ex_cli_with ?p) = Some (r, s')"
    "committed_writes (c_trace s') \<noteq> []" by blast
  from no_trunk_allowed_commits [OF c(1)] c show ?thesis
    by (auto simp: p deref_port_def committed_writes_def n_vlan_trunks_def split: if_splits)
qed

text \<open>
  C30: \<open>vlan trunk allowed\<close> compares the mode of the port before it looks whether there is one: on
  a port that passes every check and whose \<open>vlan_mode\<close> column is empty it reads through a null
  pointer.
\<close>
theorem trunk_allowed_reads_null_mode:
  assumes "cmd_get_range_value env (argv ! 0) = v # vs" and "cli_do_config_start env"
    and "ovsrec_system_first (c_db s) = Some sys" and "check_internal_vlan env (c_db s) (atoi v) \<noteq> 0"
    and "atoi v < smap_get_int env (s_other_config sys) (MIN_INTERNAL_VLAN env) (-1) \<or>
      smap_get_int env (s_other_config sys) (MAX_INTERNAL_VLAN env) (-1) < atoi v"
    and "obtain_port env (c_index s) None (emit (Txn_Start True) s) = (Inr (Some k), s1)"
    and "check_iface_in_bridge env (c_db s1) (c_index s)" and "vlan_exists (c_db s1) (atoi v)"
    and "deref_port (c_db s1) k = Some row" and "p_vlan_mode row = None"
  shows "cli_intf_vlan_trunk_allowed env argv s = None"
proof -
  have "vlans (c_db s1) \<noteq> []" using assms(8) by (auto simp: vlan_exists_def)
  then show ?thesis
    using assms
    by (cases "smap_get_int env (s_other_config sys) (MIN_INTERNAL_VLAN env) (-1) \<le> atoi v")
      (simp_all add: cli_intf_vlan_trunk_allowed_def Let_def)
qed

lemma trunk_allowed_reads_null_mode_witness:
  "cli_intf_vlan_trunk_allowed ex_vty [''10''] (ex_cli_with ((ex_trunk_port [])\<lparr>p_vlan_mode := None\<rparr>)) = None"
proof -
  let ?p = "(ex_trunk_port [])\<lparr>p_vlan_mode := None\<rparr>"
  have p: "p_name ?p = ''1''" "p_interfaces ?p = [300]" "p_row ?p = 101"
    by (simp_all add: ex_trunk_port_def ex_cli_port_def ex_access_def)
  have o: "obtain_port ex_vty (c_index (ex_cli_with ?p)) None (emit (Txn_Start True) (ex_cli_with ?p)) =
      (Inr (Some 101), emit (Txn_Start True) (ex_cli_with ?p))"
    by (rule obtain_port_found) (use ex_scan [OF p(1,2)] p(3) in simp)
  show ?thesis
    by (rule trunk_allowed_reads_null_mode [where v = "''10''" and vs = "[]" and row = ?p, OF _ _ ex_system(1) _ _ o])
      (simp_all add: atoi_10 ex_system(2) vlan_exists_def ex_vlan_def deref_port_def p(3))
qed

text \<open>
  C31: On a port with a mode (an access port as well) that passes the checks, \<open>vlan trunk allowed\<close>
  with a range adds to the trunks exactly the VLANs of the range that come before the first one
  already among them, leaves it a native port, and does all of it in one committed batch; the
  VLANs of the range after that one are dropped though the command reports success.
\<close>
theorem trunk_allowed_adds_range:
  assumes "port_write_laws env" and "cli_do_config_start env" and "txn_done (cli_do_config_finish env)"
    and "cmd_get_range_value env (argv ! 0) = vals" and "vals \<noteq> []" and "distinct (map atoi vals)"
    and "ovsrec_system_first (c_db s) = Some sys"
    and "range_allowed env (c_index s) (smap_get_int env (s_other_config sys) (MIN_INTERNAL_VLAN env) (-1))
      (smap_get_int env (s_other_config sys) (MAX_INTERNAL_VLAN env) (-1)) (c_db s) (set (map atoi vals))"
    and "trunk_port env (c_index s) k T (c_db s)" and "\<forall>v \<in> T. vlan_exists (c_db s) v \<and> 0 \<le> v"
  shows "\<exists>s' ws. cli_intf_vlan_trunk_allowed env argv s = Some (CMD_SUCCESS, s') \<and>
    trunk_port env (c_index s) k (T \<union> set (takeWhile (\<lambda>v. v \<notin> T) (map atoi vals))) (c_db s') \<and>
    native_port k (c_db s') \<and> committed_writes (c_trace s') = committed_writes (c_trace s) @ [ws]"
proof -
  have "\<exists>s' ws. trunk_allowed_loop env vals
      (smap_get_int env (s_other_config sys) (MIN_INTERNAL_VLAN env) (-1))
      (smap_get_int env (s_other_config sys) (MAX_INTERNAL_VLAN env) (-1)) True vals 0 None
      (emit (Txn_Start True) s) = Some (CMD_SUCCESS, s') \<and>
    trunk_port env (c_index s) k (T \<union> set (takeWhile (\<lambda>v. v \<notin> T) (map atoi vals))) (c_db s') \<and>
    native_port k (c_db s') \<and> committed_writes (c_trace s') = committed_writes (c_trace s) @ [[] @ ws]"
    by (rule trunk_allowed_loop_runs [OF assms(1,3,8)]) (use assms in_txn_start in simp_all)
  with assms(2,4,5,7) show ?thesis
    by (simp add: cli_intf_vlan_trunk_allowed_def Let_def del: trunk_allowed_loop.simps)
qed

lemma trunk_allowed_adds_range_witness:
  "\<exists>s'. cli_intf_vlan_trunk_allowed (ex_vty\<lparr>cmd_get_range_value := \<lambda>_. [''10'', ''1'', ''20'']\<rparr>) [''10,1,20'']
       ((ex_cli_with (ex_trunk_port [1]))\<lparr>c_db := (c_db (ex_cli_with (ex_trunk_port [1])))
         \<lparr>vlans := [ex_vlan 1 ''DEFAULT_VLAN_1'', ex_vlan 10 ''VLAN10'', ex_vlan 20 ''VLAN20'']\<rparr>\<rparr>) =
       Some (CMD_SUCCESS, s') \<and>
     trunk_port ex_vty ''1'' 101 {1, 10} (c_db s')"
proof -
  let ?v = "ex_vty\<lparr>cmd_get_range_value := \<lambda>_. [''10'', ''1'', ''20'']\<rparr>"
  let ?p = "ex_trunk_port [1]"
  let ?s = "(ex_cli_with ?p)\<lparr>c_db := (c_db (ex_cli_with ?p))
    \<lparr>vlans := [ex_vlan 1 ''DEFAULT_VLAN_1'', ex_vlan 10 ''VLAN10'', ex_vlan 20 ''VLAN20'']\<rparr>\<rparr>"
  let ?sys = "hd (systems (c_db ex_cli))"
  let ?vals = "[''10'', ''1'', ''20'']"
  have ids: "map atoi ?vals = [10, 1, 20]" by code_simp
  have p: "p_name ?p = ''1''" "p_interfaces ?p = [300]" "p_row ?p = 101" "p_vlan_mode ?p = Some ''trunk''"
    "p_vlan_trunks ?p = [1]" by (simp_all add: ex_trunk_port_def ex_cli_port_def ex_access_def)
  have laws: "port_write_laws ?v" using ex_vty_laws by (simp add: port_write_laws_def)
  have tp: "trunk_port ?v (c_index ?s) 101 {1} (c_db ?s)"
    using ex_scan [OF p(1,2)] p by (simp add: trunk_port_def deref_port_def find_interface_def)
  have sys: "ovsrec_system_first (c_db ?s) = Some ?sys"
    using ex_system(1) by (simp add: ovsrec_system_first_def)
  have ok: "range_allowed ?v (c_index ?s) (-1) (-1) (c_db ?s) (set (map atoi ?vals))"
    unfolding ids by (simp add: range_allowed_def vlan_exists_def ex_vlan_def)
  have "\<exists>s' ws. cli_intf_vlan_trunk_allowed ?v [''10,1,20''] ?s = Some (CMD_SUCCESS, s') \<and>
      trunk_port ?v (c_index ?s) 101 ({1} \<union> set (takeWhile (\<lambda>v. v \<notin> {1}) (map atoi ?vals))) (c_db s') \<and>
      native_port 101 (c_db s') \<and> committed_writes (c_trace s') = committed_writes (c_trace ?s) @ [ws]"
    by (rule trunk_allowed_adds_range [OF laws _ _ _ _ _ sys _ tp])
      (use ok ids in \<open>simp_all add: txn_done_def ex_system(2) vlan_exists_def ex_vlan_def\<close>)
  then show ?thesis unfolding ids by (auto simp: trunk_port_def insert_commute)
qed

section \<open>VLANs\<close>

text \<open>
  C32: \<open>vlan <id>\<close> for a VLAN that does not exist commits one batch: the new row with its id and name,
  shut down and operationally down for that reason, the row appended to the VLANs of the bridge
  named \<open>bridge_normal\<close> (or of the first bridge when there is none of that name), and the VLAN as
  the tag, without a mode, of every port named like its interface; then the terminal is in the VLAN
  node of that VLAN.
\<close>
theorem vlan_creates_row:
  assumes "\<forall>v \<in> set (vlans (c_db s)). v_id v \<noteq> atoi (argv ! 0)"
    and "cli_do_config_start env" and "txn_done (cli_do_config_finish env)"
    and "row = inserted_row env" and "vlan_if = VLANIF_NAME env (argv ! 0)"
    and "row_writes = map Db_Write
      [Vlan_Insert row, Vlan_Set_Id row (atoi (argv ! 0)), Vlan_Set_Name row (take 8 (''VLAN'' @ argv ! 0)),
       Vlan_Set_Admin row ''down'', Vlan_Set_Oper_State row ''down'',
       Vlan_Set_Oper_State_Reason row ''admin_down'']"
    and "db1 = fold (apply_cli_write env) row_writes (c_db s)" and "bridges db1 \<noteq> []"
  shows "\<exists>s' b bridge_write. vtysh_vlan env argv s = Some (CMD_SUCCESS, s') \<and>
    c_node s' = VLAN_NODE \<and> c_index s' = take 4 (argv ! 0) \<and>
    b \<in> set (bridges db1) \<and>
    (b_name b = ''bridge_normal'' \<or> b = hd (bridges db1) \<and> (\<forall>x \<in> set (bridges db1). b_name x \<noteq> ''bridge_normal'')) \<and>
    bridge_write = Db_Write (Bridge_Set_Vlans (b_row b) (b_vlans b @ [row])) \<and>
    committed_writes (c_trace s') = committed_writes (c_trace s) @
      [row_writes @ [bridge_write] @
       concat (map (\<lambda>p. if p_name p = vlan_if
           then [Port_Set_Tag (p_row p) (atoi (argv ! 0)), Port_Set_Vlan_Mode (p_row p) None] else [])
         (ports (apply_cli_write env bridge_write db1)))]"
proof -
  have f: "find_vlan (c_db s) (atoi (argv ! 0)) = None"
    using assms(1) by (simp add: find_vlan_def find_None)
  have new: "new_vlan_writes (inserted_row env) (atoi (argv ! 0)) (take 8 (''VLAN'' @ argv ! 0)) = row_writes"
    by (simp add: new_vlan_writes_def assms(4,6))
  from default_bridge_found [OF assms(8)] obtain b where b: "default_bridge db1 = Some b" "b \<in> set (bridges db1)"
    "b_name b = ''bridge_normal'' \<or> b = hd (bridges db1) \<and> (\<forall>x \<in> set (bridges db1). b_name x \<noteq> ''bridge_normal'')"
    by blast
  let ?bw = "Db_Write (Bridge_Set_Vlans (b_row b) (b_vlans b @ [inserted_row env]))"
  let ?s1 = "write_all env row_writes (emit (Txn_Start True) s)"
  let ?s2 = "idl_write env ?bw ?s1"
  let ?s3 = "join_vlan_interface env vlan_if (atoi (argv ! 0)) ?s2"
  have db1: "c_db ?s1 = db1" using assms(7) by (simp add: write_all_db)
  have in3: "in_txn (c_trace s) (row_writes @ [?bw] @
      join_writes vlan_if (atoi (argv ! 0)) (ports (apply_cli_write env ?bw db1))) ?s3"
    using in_txn_join [OF in_txn_write [OF in_txn_write_all [OF in_txn_start [of s], where us = row_writes and env = env],
        where w = ?bw and env = env], where vlan_if = vlan_if and vid = "atoi (argv ! 0)" and env = env]
    by (simp add: db1)
  let ?s' = "(emit (Txn_Finish (cli_do_config_finish env)) ?s3)\<lparr>c_node := VLAN_NODE, c_index := take 4 (argv ! 0)\<rparr>"
  have "vtysh_vlan env argv s = Some (CMD_SUCCESS, ?s')"
  proof -
    have d: "default_bridge (c_db ?s1) = Some b" by (simp only: db1 b)
    show ?thesis
      unfolding vtysh_vlan_def with_txn_def commit_then_def Let_def f new option.case d assms(5)
      by (simp only: assms(2,3) if_True)
  qed
  moreover have "committed_writes (c_trace ?s') = committed_writes (c_trace s) @
      [row_writes @ [?bw] @ join_writes vlan_if (atoi (argv ! 0)) (ports (apply_cli_write env ?bw db1))]"
    using in3 assms(3)
    by (auto simp: in_txn_def committed_writes_start committed_from_added committed_from_writes)
  ultimately show ?thesis
    using b(2,3) by (intro exI [of _ ?s'] exI [of _ b] exI [of _ ?bw]) (simp add: join_writes_def assms(4))
qed

lemma vlan_creates_row_witness:
  "\<exists>s'. vtysh_vlan ex_vty [''20''] ex_cli = Some (CMD_SUCCESS, s') \<and> c_node s' = VLAN_NODE \<and>
     (\<exists>ws. committed_writes (c_trace s') = [ws] \<and> Db_Write (Vlan_Set_Admin 900 ''down'') \<in> set ws)"
proof -
  have a: "atoi ''20'' = 20" by code_simp
  have "bridges (fold ex_apply (map Db_Write [Vlan_Insert 900, Vlan_Set_Id 900 20, Vlan_Set_Name 900 ''VLAN20'',
      Vlan_Set_Admin 900 ''down'', Vlan_Set_Oper_State 900 ''down'', Vlan_Set_Oper_State_Reason 900 ''admin_down''])
      (c_db ex_cli)) \<noteq> []" by (simp add: ex_cli_def ex_db_def Let_def)
  with vlan_creates_row [of ex_cli "[''20'']" ex_vty 900 _ _ _, OF _ _ _ _ refl refl refl] show ?thesis
    by (fastforce simp: txn_done_def a ex_vlan_def committed_writes_def)
qed



text \<open>
  C34: \<open>shutdown\<close> never touches the default VLAN; for another VLAN it commits its administrative
  state \<open>down\<close>, or nothing.
\<close>
theorem shutdown_spares_default_vlan:
  assumes "cli_vlan_admin env argv s = Some (r, s')"
  shows "committed_writes (c_trace s') = committed_writes (c_trace s) \<or>
    atoi (c_index s) \<noteq> DEFAULT_VLAN \<and>
    (\<exists>row. find_vlan (c_db s) (atoi (c_index s)) = Some row \<and>
       committed_writes (c_trace s') = committed_writes (c_trace s) @
         [[Db_Write (Vlan_Set_Admin (v_row row) OVSREC_VLAN_ADMIN_DOWN)]])"
proof -
  let ?s0 = "emit (Txn_Start True) s"
  have in1: "in_txn (c_trace s) [w] (idl_write env w ?s0)" for w
    using in_txn_write [OF in_txn_start [of s]] by simp
  show ?thesis
    using assms unfolding cli_vlan_admin_def Let_def
  proof (cases rule: with_txn_cases)
    case started
    then show ?thesis
      using in_txn_commit [OF in1]
      by (auto simp: committed_writes_start split: if_split_asm option.split_asm)
  qed simp
qed

lemma shutdown_spares_default_vlan_witness:
  "\<exists>s'. cli_vlan_admin ex_vty [] ex_cli = Some (CMD_SUCCESS, s') \<and> committed_writes (c_trace s') = []"
proof -
  have "atoi ''1'' = 1" by code_simp
  then obtain s' where r: "cli_vlan_admin ex_vty [] ex_cli = Some (CMD_SUCCESS, s')"
    by (auto simp: cli_vlan_admin_def with_txn_def DEFAULT_VLAN_def)
  from shutdown_spares_default_vlan [OF r] r \<open>atoi ''1'' = 1\<close> show ?thesis
    by (auto simp: DEFAULT_VLAN_def committed_writes_def)
qed

end
