(* ===== verification/Show_Properties.thy ===== *)
theory Show_Properties
  imports Cli_Example
begin

text \<open>
  The properties of the internal VLAN range, of the show commands, and of the lists they print.
\<close>

section \<open>The range of internal VLANs\<close>

lemma show_range_header:
  assumes "ovsrec_system_first (c_db s) = Some sys"
    and "min_vlan = c_uint16 (smap_get_int env (s_other_config sys) (MIN_INTERNAL_VLAN env) INTERNAL_VLAN_ID_INVALID)"
    and "max_vlan = c_uint16 (smap_get_int env (s_other_config sys) (MAX_INTERNAL_VLAN env) INTERNAL_VLAN_ID_INVALID)"
    and "smap_get (s_other_config sys) (INTERNAL_VLAN_POLICY env) = Some policy"
  shows "\<exists>s' rest. show_vlan_int_range env s = Some (CMD_SUCCESS, s') \<and> c_db s' = c_db s \<and>
    c_trace s' = c_trace s @ Out (CHR 0x0A # ''Internal VLAN range  : '' @ dec min_vlan @ ''-'' @ dec max_vlan @ [CHR 0x0A]) #
      Out (''Internal VLAN policy : '' @ policy @ [CHR 0x0A]) # rest"
proof -
  have "min_vlan \<noteq> INTERNAL_VLAN_ID_INVALID" "max_vlan \<noteq> INTERNAL_VLAN_ID_INVALID"
    using c_uint16_range assms(2,3) by (simp_all add: INTERNAL_VLAN_ID_INVALID_def) (metis not_one_le_zero le_minus_one_simps(3))+
  then show ?thesis
    using assms by (simp add: show_vlan_int_range_def Let_def print_all_trace)
qed

text \<open>
  C35: Configuring the range of internal VLANs and showing it prints the range and the policy that
  were given, when the configuration map reads integers back as \<^verbatim>\<open>atoi\<close> does.
\<close>
theorem internal_range_round_trip:
  assumes "cli_do_config_start env" and "txn_done (cli_do_config_finish env)"
    and "ovsrec_system_first (c_db s) = Some sys"
    and "\<And>m. ovsrec_system_first (apply_cli_write env (System_Set_Other_Config (s_row sys) m) (c_db s)) =
      Some (sys\<lparr>s_other_config := m\<rparr>)"
    and "\<And>m k d. smap_get_int env m k d = (case smap_get m k of None \<Rightarrow> d | Some v \<Rightarrow> atoi v)"
    and "distinct [MIN_INTERNAL_VLAN env, MAX_INTERNAL_VLAN env, INTERNAL_VLAN_POLICY env]"
    and "0 \<le> atoi a" and "atoi a \<le> atoi b" and "atoi b < 65536"
  shows "\<exists>s1 s2 rest. cli_vlan_int_range_add env [a, b, p] s = Some (CMD_SUCCESS, s1) \<and>
    cli_show_vlan_int_range env [] s1 = Some (CMD_SUCCESS, s2) \<and>
    c_trace s2 = c_trace s1 @
      Out (CHR 0x0A # ''Internal VLAN range  : '' @ dec (atoi a) @ ''-'' @ dec (atoi b) @ [CHR 0x0A]) #
      Out (''Internal VLAN policy : '' @
        (if take 1 p = ''a'' then POLICY_ASCENDING_DEFAULT env else POLICY_DESCENDING env) @ [CHR 0x0A]) # rest"
proof -
  let ?policy = "if take 1 p = ''a'' then POLICY_ASCENDING_DEFAULT env else POLICY_DESCENDING env"
  let ?m = "smap_replace (INTERNAL_VLAN_POLICY env) ?policy (smap_replace (MAX_INTERNAL_VLAN env) b
    (smap_replace (MIN_INTERNAL_VLAN env) a (s_other_config sys)))"
  let ?s1 = "emit (Txn_Finish (cli_do_config_finish env))
    (idl_write env (System_Set_Other_Config (s_row sys) ?m) (emit (Txn_Start True) s))"
  have st: "cli_do_config_finish env \<noteq> TXN_UNCOMMITTED" using assms(2) by (auto simp: txn_done_def)
  have add: "cli_vlan_int_range_add env [a, b, p] s = Some (CMD_SUCCESS, ?s1)"
    using assms(1,3,7,8,9) st
    by (simp add: cli_vlan_int_range_add_def vlan_int_range_add_def finish_nonzero_def Let_def)
  have sys: "ovsrec_system_first (c_db ?s1) = Some (sys\<lparr>s_other_config := ?m\<rparr>)"
    by (simp only: cli_fields assms(4))
  have "\<exists>s' rest. show_vlan_int_range env ?s1 = Some (CMD_SUCCESS, s') \<and> c_db s' = c_db ?s1 \<and>
    c_trace s' = c_trace ?s1 @
      Out (CHR 0x0A # ''Internal VLAN range  : '' @ dec (atoi a) @ ''-'' @ dec (atoi b) @ [CHR 0x0A]) #
      Out (''Internal VLAN policy : '' @ ?policy @ [CHR 0x0A]) # rest"
    by (rule show_range_header [OF sys]) (use assms(5-9) in simp_all)
  with add show ?thesis unfolding cli_show_vlan_int_range_def by blast
qed

lemma internal_range_round_trip_witness:
  "\<exists>s1. cli_vlan_int_range_add ex_vty [''1024'', ''2000'', ''ascending''] ex_cli = Some (CMD_SUCCESS, s1)"
proof -
  have n: "atoi ''1024'' = 1024" "atoi ''2000'' = 2000" by code_simp+
  have s: "ovsrec_system_first (c_db ex_cli) = Some (hd (systems (c_db ex_cli)))"
    "systems (c_db ex_cli) = [hd (systems (c_db ex_cli))]"
    by (simp_all add: ovsrec_system_first_def ex_cli_def ex_db_def Let_def)
  have w: "ovsrec_system_first (ex_apply (System_Set_Other_Config (s_row (hd (systems (c_db ex_cli)))) m) (c_db ex_cli)) =
      Some ((hd (systems (c_db ex_cli)))\<lparr>s_other_config := m\<rparr>)" for m
    by (simp add: ovsrec_system_first_def ex_cli_def ex_db_def Let_def)
  have h: "cli_do_config_start ex_vty" "txn_done (cli_do_config_finish ex_vty)"
    "smap_get_int ex_vty m k d = (case smap_get m k of None \<Rightarrow> d | Some v \<Rightarrow> atoi v)"
    "distinct [MIN_INTERNAL_VLAN ex_vty, MAX_INTERNAL_VLAN ex_vty, INTERNAL_VLAN_POLICY ex_vty]"
    "0 \<le> atoi ''1024''" "atoi ''1024'' \<le> atoi ''2000''" "atoi ''2000'' < 65536" for m k d
    by (simp_all add: n txn_done_def)
  from internal_range_round_trip [OF h(1,2) s(1) w [folded ex_vty_fields(4)] h(3-7), of "''ascending''"]
  show ?thesis by blast
qed

text \<open>
  C36: Configuring the range tests the status of the commit as a truth value: a transaction that
  ended in an error is reported to the terminal as success, although nothing was committed.
\<close>
theorem internal_range_add_hides_errors:
  assumes "cli_do_config_start env" and "cli_do_config_finish env = TXN_ERROR"
    and "ovsrec_system_first (c_db s) = Some sys"
    and "c_uint16 (atoi a) \<le> c_uint16 (atoi b)"
  shows "\<exists>s'. cli_vlan_int_range_add env [a, b, p] s = Some (CMD_SUCCESS, s') \<and>
    committed_writes (c_trace s') = committed_writes (c_trace s)"
  using assms
  by (simp add: cli_vlan_int_range_add_def vlan_int_range_add_def finish_nonzero_def Let_def
      committed_writes_start txn_done_def)

lemma internal_range_add_hides_errors_witness:
  "\<exists>s'. cli_vlan_int_range_add (ex_vty\<lparr>cli_do_config_finish := TXN_ERROR\<rparr>) [''7'', ''7'', ''a''] ex_cli =
     Some (CMD_SUCCESS, s') \<and> committed_writes (c_trace s') = []"
  using internal_range_add_hides_errors
    [of "ex_vty\<lparr>cli_do_config_finish := TXN_ERROR\<rparr>" ex_cli "hd (systems (c_db ex_cli))" "''7''" "''7''" "''a''"]
  by (simp add: ovsrec_system_first_def committed_writes_def) (simp add: ex_cli_def ex_db_def Let_def)

text \<open>
  C37: \<open>show vlan internal\<close> compares an unsigned 16-bit number with -1. When a policy is configured
  without a range, the missing bounds are therefore not replaced by the default range but
  printed as 65535.
\<close>
theorem show_internal_range_prints_65535:
  assumes "ovsrec_system_first (c_db s) = Some sys"
    and "smap_get_int env (s_other_config sys) (MIN_INTERNAL_VLAN env) (-1) = -1"
    and "smap_get_int env (s_other_config sys) (MAX_INTERNAL_VLAN env) (-1) = -1"
    and "smap_get (s_other_config sys) (INTERNAL_VLAN_POLICY env) = Some policy"
  shows "\<exists>s' rest. cli_show_vlan_int_range env argv s = Some (CMD_SUCCESS, s') \<and>
    c_trace s' = c_trace s @ Out (CHR 0x0A # ''Internal VLAN range  : '' @ dec 65535 @ ''-'' @ dec 65535 @ [CHR 0x0A]) # rest"
proof -
  have u: "65535 = c_uint16 (-1)" by (simp add: c_uint16_def take_bit_minus_one_eq_mask mask_eq_exp_minus_1)
  have "\<exists>s' rest. show_vlan_int_range env s = Some (CMD_SUCCESS, s') \<and> c_db s' = c_db s \<and>
    c_trace s' = c_trace s @ Out (CHR 0x0A # ''Internal VLAN range  : '' @ dec 65535 @ ''-'' @ dec 65535 @ [CHR 0x0A]) #
      Out (''Internal VLAN policy : '' @ policy @ [CHR 0x0A]) # rest"
    by (rule show_range_header [OF assms(1) _ _ assms(4)])
      (simp_all only: INTERNAL_VLAN_ID_INVALID_def assms(2,3) u)
  then show ?thesis unfolding cli_show_vlan_int_range_def by blast
qed

definition ex_policy_cli :: cli where
  "ex_policy_cli = ex_cli\<lparr>c_db := (c_db ex_cli)\<lparr>systems :=
     [\<lparr> s_row = 600, s_cur_cfg = 1, s_bridges = [], s_other_config = [(''internal_vlan_policy'', ''descending'')] \<rparr>]\<rparr>\<rparr>"

lemma show_internal_range_prints_65535_witness:
  "\<exists>s'. cli_show_vlan_int_range ex_vty [] ex_policy_cli = Some (CMD_SUCCESS, s')"
  using show_internal_range_prints_65535 [of ex_policy_cli _ ex_vty "''descending''" "[]"]
  by (fastforce simp: ex_policy_cli_def ovsrec_system_first_def smap_get_def ex_vty_def)

section \<open>Lists that are printed\<close>

lemma mset_insert_node: "mset (insert_node n ms) = add_mset n (mset ms)"
  by (induction ms) auto

lemma mset_insert_nodes: "mset (foldr insert_node ns []) = mset ns"
  by (induction ns) (simp_all add: mset_insert_node)

lemma sorted_insert_node:
  "sorted (map (\<lambda>n. scan_uint (fst n)) ms) \<Longrightarrow> sorted (map (\<lambda>n. scan_uint (fst n)) (insert_node n ms))"
proof (induction ms)
  case (Cons m ms)
  have set: "set (insert_node n ms) = insert n (set ms)"
    using arg_cong [OF mset_insert_node [of n ms], of set_mset] by simp
  show ?case
  proof (cases "compare_nodes_by_vlan_id_in_numerical n m \<le> 0")
    case True
    then have "scan_uint (fst n) \<le> scan_uint (fst m)"
      by (auto simp: compare_nodes_by_vlan_id_in_numerical_def Let_def split: if_splits)
    with True Cons.prems show ?thesis by force
  next
    case False
    then have "scan_uint (fst m) \<le> scan_uint (fst n)"
      by (auto simp: compare_nodes_by_vlan_id_in_numerical_def Let_def split: if_splits)
    with False Cons show ?thesis by (auto simp: set)
  qed
qed simp

text \<open>
  C38: \<^verbatim>\<open>sort_vlan_id\<close> returns null exactly for an empty table, and otherwise the nodes of the table,
  each as often as it is there, in ascending order of the ids their names spell.
\<close>
theorem sort_vlan_id_sorts:
  "case sort_vlan_id sh of None \<Rightarrow> sh = []
   | Some ns \<Rightarrow> sh \<noteq> [] \<and> mset ns = mset sh \<and> sorted (map (\<lambda>n. scan_uint (fst n)) ns)"
proof -
  have "sorted (map (\<lambda>n. scan_uint (fst n)) (foldr insert_node sh []))"
    by (induction sh) (simp_all add: sorted_insert_node)
  then show ?thesis by (simp add: sort_vlan_id_def mset_insert_nodes)
qed

text \<open>
  C39: The ports \<open>show vlan\<close> collects for a VLAN are the ports that name it in their trunks or as
  their tag, in the order of the Port table, each once; so there are never more of them than
  the array provides for.
\<close>
theorem port_nodes_bounded:
  "port_nodes U vid rows = filter (\<lambda>p. vid \<in> set (port_trunks U p) \<or> tag_is U vid p) rows \<and>
   length (port_nodes U vid rows) \<le> port_count rows"
proof -
  have eq: "port_nodes U vid rows = filter (\<lambda>p. vid \<in> set (port_trunks U p) \<or> tag_is U vid p) rows"
    by (induction rows) (auto simp: port_nodes_def Let_def)
  have "length (filter (\<lambda>p. vid \<in> set (port_trunks U p) \<or> tag_is U vid p) rows) \<le>
      length (filter (\<lambda>p. p_vlan_tag p \<noteq> None \<or> n_vlan_trunks p \<noteq> 0) rows)"
    by (induction rows) (auto simp: tag_is_def port_trunks_def)
  with eq show ?thesis by (simp add: port_count_def)
qed

definition ex_native :: ovsrec_port where
  "ex_native = (ex_access 103 ''3'' 10)\<lparr>p_vlan_mode := Some ''native-tagged'', p_vlan_trunks := [10]\<rparr>"

text \<open>
  The names \<open>show vlan <id>\<close> prints, without the commas: a port once for every mention in its trunks,
  and once for its tag while no port so far had the VLAN both ways.
\<close>

fun port_mentions :: "ops_utils \<Rightarrow> int \<Rightarrow> bool \<Rightarrow> ovsrec_port list \<Rightarrow> string list" where
  "port_mentions U vid twice [] = []"
| "port_mentions U vid twice (p # ps) =
     (let twice = (twice \<or> vid \<in> set (port_trunks U p) \<and> tag_is U vid p)
      in replicate (count_list (port_trunks U p) vid) (p_name p) @
         (if \<not> twice \<and> tag_is U vid p then [p_name p] else []) @ port_mentions U vid twice ps)"

fun with_commas :: "bool \<Rightarrow> string list \<Rightarrow> string list" where
  "with_commas first [] = []"
| "with_commas first (n # ns) = (if first then n else '', '' @ n) # with_commas False ns"

lemma with_commas_append:
  "with_commas first (ms @ ns) = with_commas first ms @ with_commas (first \<and> ms = []) ns"
  by (induction ms arbitrary: first) simp_all

lemma show_trunk_names_mentions:
  "show_trunk_names first name vid ts =
     (with_commas first (replicate (count_list ts vid) name), first \<and> vid \<notin> set ts)"
  by (induction ts arbitrary: first) (auto simp: print_name_def)

lemma show_port_names_mentions:
  "show_port_names U vid ps first twice = with_commas first (port_mentions U vid twice ps)"
proof (induction ps arbitrary: first twice)
  case (Cons p ps)
  have "vid \<notin> set (port_trunks U p) \<longleftrightarrow> replicate (count_list (port_trunks U p) vid) (p_name p) = []"
    by (simp add: count_list_0_iff)
  with Cons show ?case
    by (auto simp: Let_def show_trunk_names_mentions with_commas_append print_name_def)
qed simp

lemma port_mentions_names: "set (port_mentions U vid twice ps) \<subseteq> p_name ` set ps"
  by (induction ps arbitrary: twice) (auto simp: Let_def)

lemma port_mentions_append:
  "\<exists>later. port_mentions U vid twice (ps @ qs) = port_mentions U vid twice ps @ port_mentions U vid later qs"
  by (induction ps arbitrary: twice) (auto simp: Let_def)

lemma port_mentions_seen:
  "distinct (map p_name ps) \<Longrightarrow> q \<in> set ps \<Longrightarrow>
     p_name q \<in> set (port_mentions U vid True ps) \<longleftrightarrow> vid \<in> set (port_trunks U q)"
  using port_mentions_names [of U vid True]
  by (induction ps) (fastforce simp: count_list_0_iff image_iff)+

text \<open>
  C40: \<open>show vlan <id>\<close> and \<open>show vlan\<close> disagree. After the header and the columns of the VLAN,
  \<open>show vlan <id>\<close> prints port names. Once a port has been met that has the VLAN both in its trunks
  and as its tag, a later port is named only if it lists the VLAN in its trunks: one that has the
  VLAN as its tag alone is left out, because the flag that suppresses the second mention of a
  port is not reset for the next port. The ports \<open>show vlan\<close> collects contain it.
\<close>
theorem show_vlan_id_omits_ports:
  assumes "find_vlan (c_db s) (atoi (argv ! 0)) = Some row"
    and "ports (c_db s) = before @ p # later" and "distinct (map p_name (ports (c_db s)))"
    and "v_id row \<in> set (port_trunks (utils env) p)" and "tag_is (utils env) (v_id row) p"
  shows "\<exists>s' names rest. cli_show_vlan_id env argv s = Some (CMD_SUCCESS, s') \<and>
    c_trace s' = c_trace s @ map Out (show_header (VTY_NEWLINE env) @ show_columns (argv ! 0) row @
      with_commas True names @ rest @ [VTY_NEWLINE env]) \<and>
    rest = (case smap_get (v_internal_usage row) VLAN_INTERNAL_USAGE_L3PORT of None \<Rightarrow> [] | Some l3 \<Rightarrow> [l3]) \<and>
    (\<forall>q \<in> set later. p_name q \<in> set names \<longleftrightarrow> v_id row \<in> set (port_trunks (utils env) q)) \<and>
    (\<forall>q \<in> set later. tag_is (utils env) (v_id row) q \<longrightarrow>
       q \<in> set (port_nodes (utils env) (v_id row) (ports (c_db s))))"
proof -
  let ?U = "utils env" and ?vid = "v_id row"
  let ?names = "port_mentions ?U ?vid False (ports (c_db s))"
  from port_mentions_append [of ?U ?vid False before "p # later"] obtain twice where
    split: "?names = port_mentions ?U ?vid False before @ port_mentions ?U ?vid twice (p # later)"
    by (auto simp only: assms(2))
  have named: "p_name q \<in> set ?names \<longleftrightarrow> ?vid \<in> set (port_trunks ?U q)" if q: "q \<in> set later" for q
  proof -
    have "p_name q \<notin> p_name ` set (before @ [p])" using assms(3) q by (auto simp: assms(2) image_iff)
    then have "p_name q \<notin> set (port_mentions ?U ?vid False before)" "p_name q \<noteq> p_name p"
      using port_mentions_names [of ?U ?vid False before] by auto
    moreover have "distinct (map p_name later)" using assms(3) by (simp add: assms(2))
    ultimately show ?thesis
      unfolding split using assms(4,5) q by (simp add: port_mentions_seen)
  qed
  have nodes: "q \<in> set (port_nodes ?U ?vid (ports (c_db s)))" if "q \<in> set later" "tag_is ?U ?vid q" for q
    using that by (auto simp: port_nodes_def Let_def assms(2))
  have "vlans (c_db s) \<noteq> []" "ports (c_db s) \<noteq> []" using assms(1,2) by (auto simp: find_vlan_def)
  with assms(1) have "\<exists>s'. cli_show_vlan_id env argv s = Some (CMD_SUCCESS, s') \<and>
    c_trace s' = c_trace s @ map Out (show_header (VTY_NEWLINE env) @ show_columns (argv ! 0) row @
      with_commas True ?names @
      (case smap_get (v_internal_usage row) VLAN_INTERNAL_USAGE_L3PORT of None \<Rightarrow> [] | Some l3 \<Rightarrow> [l3]) @
      [VTY_NEWLINE env])"
    by (simp add: cli_show_vlan_id_def Let_def print_all_trace show_port_names_mentions)
  with named nodes show ?thesis by blast
qed

lemma show_vlan_id_omits_ports_witness:
  "\<exists>s' names. cli_show_vlan_id ex_vty [''10''] (ex_cli\<lparr>c_db := (c_db ex_cli)\<lparr>ports := [ex_native, ex_access 101 ''1'' 10]\<rparr>\<rparr>) =
     Some (CMD_SUCCESS, s') \<and>
     c_trace s' = map Out (show_header [CHR 0x0A] @ show_columns ''10'' (ex_vlan 10 ''VLAN10'') @
       with_commas True names @ [[CHR 0x0A]]) \<and>
     ''1'' \<notin> set names \<and> ex_access 101 ''1'' 10 \<in> set (port_nodes ex_ops 10 [ex_native, ex_access 101 ''1'' 10])"
proof -
  let ?q = "ex_access 101 ''1'' 10" and ?row = "ex_vlan 10 ''VLAN10''"
  let ?s = "ex_cli\<lparr>c_db := (c_db ex_cli)\<lparr>ports := [ex_native, ?q]\<rparr>\<rparr>"
  have a: "atoi ([''10''] ! 0) = 10" by code_simp
  have f: "find_vlan (c_db ?s) (atoi ([''10''] ! 0)) = Some ?row" unfolding a by (simp add: find_vlan_def ex_vlan_def)
  have ps: "ports (c_db ?s) = [] @ ex_native # [?q]" by simp
  have p: "distinct (map p_name (ports (c_db ?s)))" "v_id ?row \<in> set (port_trunks (utils ex_vty) ex_native)"
    "tag_is (utils ex_vty) (v_id ?row) ex_native" "p_name ?q = ''1''" "port_trunks (utils ex_vty) ?q = []"
    "tag_is (utils ex_vty) (v_id ?row) ?q" "v_id ?row = 10" "v_internal_usage ?row = []"
    unfolding ex_vty_fields ex_port_trunks
    by (simp_all add: tag_is_def ex_native_def ex_access_def ex_vlan_def ex_ops_def)
  from show_vlan_id_omits_ports [OF f ps p(1-3)] p(4-8) show ?thesis
    by (simp del: with_commas.simps)
qed

end
