(* ===== verification/Cli_Init.thy ===== *)
theory Cli_Init
  imports Cli_Install
begin

text \<open>
  What the CLI module tells the shell when it is loaded (\<^verbatim>\<open>cli_pre_init\<close>, \<^verbatim>\<open>vlan_ovsdb_init\<close> and
  the end of \<^verbatim>\<open>cli_post_init\<close> in \<^verbatim>\<open>src/cli/vlan_vty.c\<close>): its nodes, the columns it needs and its
  callbacks for the running configuration.
\<close>

section \<open>Calls of the shell library\<close>

datatype client_callback =
  vtysh_vlan_global_context_client | vtysh_vlan_context_client | vtysh_intf_context_vlan_client

text \<open>
  The calls in the order they are made. A context is installed with whether it comes with
  functions that set it up and tear it down.
\<close>

datatype shell_call =
  Install_Node node string
| Vtysh_Install_Default node
| Idl_Add_Table string
| Idl_Add_Column string string
| Install_Element node string
| Install_Show_Run_Config_Context string client_callback bool
| Install_Show_Run_Config_Subcontext string string client_callback
| Config_Logmsg string

definition vlan_ovsdb_init :: "shell_call list" where
  "vlan_ovsdb_init = Idl_Add_Table ''vlan'' # map (Idl_Add_Column ''vlan'')
     [''name'', ''id'', ''admin'', ''description'', ''hw_vlan_config'', ''oper_state'', ''oper_state_reason'',
      ''internal_usage'', ''external_ids'', ''other_config'']"

text \<open>
  Installing a context with the library's answer: on failure the message is logged and the
  program stops at an assertion; the flag says whether the caller goes on.
\<close>

definition install_context :: "(shell_call \<Rightarrow> bool) \<Rightarrow> shell_call \<Rightarrow> string \<Rightarrow> shell_call list \<times> bool" where
  "install_context e_vtysh_ok call msg =
     (if e_vtysh_ok call then ([call], True) else ([call, Config_Logmsg msg], False))"

definition cli_pre_init :: "(shell_call \<Rightarrow> bool) \<Rightarrow> shell_call list \<times> bool" where
  "cli_pre_init e_vtysh_ok =
     (let calls = [Install_Node VLAN_NODE ''%s(config-vlan)# '',
                   Install_Node VLAN_INTERFACE_NODE ''%s(config-if-vlan)# '',
                   Vtysh_Install_Default VLAN_NODE, Vtysh_Install_Default VLAN_INTERFACE_NODE]
                  @ vlan_ovsdb_init;
          (global, ok) = install_context e_vtysh_ok
            (Install_Show_Run_Config_Context ''e_vtysh_global_vlan_context''
              vtysh_vlan_global_context_client False)
            ''Vlan golbal context unable to add vlan global client callback''
      in if \<not> ok then (calls @ global, False)
         else
           (let (context, ok) = install_context e_vtysh_ok
                  (Install_Show_Run_Config_Context ''e_vtysh_vlan_context'' vtysh_vlan_context_client True)
                  ''Unable to add vlan context callback''
            in (calls @ global @ context, ok)))"

text \<open>The end of \<^verbatim>\<open>cli_post_init\<close>, after the commands of the table \<open>cli_post_init\<close>.\<close>

definition install_intf_context :: "(shell_call \<Rightarrow> bool) \<Rightarrow> shell_call list \<times> bool" where
  "install_intf_context e_vtysh_ok =
     install_context e_vtysh_ok
       (Install_Show_Run_Config_Subcontext ''e_vtysh_interface_context'' ''e_vtysh_interface_context_vlan''
         vtysh_intf_context_vlan_client)
       ''Interface context unable to add vlan client callback''"

text \<open>Loading the module: the part after the first failure is not reached.\<close>

definition cli_init :: "(shell_call \<Rightarrow> bool) \<Rightarrow> shell_call list \<times> bool" where
  "cli_init e_vtysh_ok =
     (let (pre, ok) = cli_pre_init e_vtysh_ok
      in if \<not> ok then (pre, False)
         else
           (let (post, ok) = install_intf_context e_vtysh_ok
            in (pre @ map (\<lambda>(n, syn, run). Install_Element n syn) cli_post_init @ post, ok)))"

section \<open>What is loaded\<close>

text \<open>The VLAN columns a command may write, and the columns its row has in the model.\<close>

fun cli_written_column :: "cli_write \<Rightarrow> (string \<times> string) option" where
  "cli_written_column (Db_Write w) = written_column w"
| "cli_written_column _ = None"

lemma vlan_columns_registered:
  "cli_written_column w = Some (''vlan'', column) \<Longrightarrow> Idl_Add_Column ''vlan'' column \<in> set vlan_ovsdb_init"
proof (cases w)
  case (Db_Write x)
  assume "cli_written_column w = Some (''vlan'', column)"
  with Db_Write show ?thesis by (cases x) (auto simp: vlan_ovsdb_init_def)
qed simp_all

text \<open>A call that fails is logged, and nothing follows; without one every command is installed.\<close>

lemma cli_init_stops:
  assumes "cli_init e_vtysh_ok = (calls, ok)"
  shows "(\<exists>msg. Config_Logmsg msg \<in> set calls) \<longleftrightarrow> \<not> ok"
    and "\<not> ok \<Longrightarrow> \<exists>msg pre call. calls = pre @ [call, Config_Logmsg msg] \<and> \<not> e_vtysh_ok call"
    and "ok \<Longrightarrow> (n, syn, run) \<in> set cli_post_init \<Longrightarrow> Install_Element n syn \<in> set calls"
proof -
  let ?elems = "map (\<lambda>(n, syn, run). Install_Element n syn) cli_post_init"
  have no_log: "Config_Logmsg msg \<notin> set ?elems" "Config_Logmsg msg \<notin> set vlan_ovsdb_init" for msg
    by (auto simp: vlan_ovsdb_init_def)
  show "(\<exists>msg. Config_Logmsg msg \<in> set calls) \<longleftrightarrow> \<not> ok"
    using assms no_log
    by (auto simp: cli_init_def cli_pre_init_def install_intf_context_def install_context_def Let_def
        split: if_splits)
  show "\<exists>msg pre call. calls = pre @ [call, Config_Logmsg msg] \<and> \<not> e_vtysh_ok call" if "\<not> ok"
    using assms that
    by (auto simp: cli_init_def cli_pre_init_def install_intf_context_def install_context_def Let_def
        append_eq_append_conv2 split: if_splits)
  show "Install_Element n syn \<in> set calls" if "ok" "(n, syn, run) \<in> set cli_post_init"
    using assms that
    by (force simp: cli_init_def cli_pre_init_def install_intf_context_def install_context_def Let_def
        split: if_splits)
qed

text \<open>The nodes the module brings along are there before the contexts and the commands.\<close>

lemma vlan_nodes_installed:
  "fst (cli_pre_init e_vtysh_ok) = calls \<Longrightarrow> n \<in> {VLAN_NODE, VLAN_INTERFACE_NODE} \<Longrightarrow>
     \<exists>prompt. Install_Node n prompt \<in> set calls \<and> Vtysh_Install_Default n \<in> set calls"
  by (auto simp: cli_pre_init_def Let_def split: prod.splits)

end
