(* ===== verification/Spec2Isabelle.thy ===== *)
theory Spec2Isabelle
  imports Daemon_Properties Process_Properties Cli_Properties Show_Properties Cli_Init
begin

text \<open>
  A verification of \<^verbatim>\<open>ops-vland\<close>, the VLAN daemon of OpenSwitch, and of its CLI module.

  \<^bold>\<open>The program.\<close> Two parts share nothing but the configuration database.

  \<^item> The daemon (\<^verbatim>\<open>src/src/vland_ovsdb_if.c\<close>, \<^verbatim>\<open>src/src/vland.c\<close>) keeps a replica of the Port, VLAN,
    Bridge and System tables. On every change it brings two caches up to date, computes the
    operational state of every VLAN a change touches, and writes it to the columns
    \<^verbatim>\<open>hw_vlan_config\<close>, \<^verbatim>\<open>oper_state\<close> and \<^verbatim>\<open>oper_state_reason\<close>. Once the system is configured it
    creates the default VLAN.
  \<^item> The CLI module (\<^verbatim>\<open>src/src/cli/\<close>) adds to the switch's terminal the commands that configure
    VLANs on interfaces, on LAGs and by themselves, the range of VLANs used internally, the
    \<^verbatim>\<open>show vlan\<close> commands and the callbacks that print the running configuration.

  \<^bold>\<open>How the model corresponds to the code.\<close> Every function of the C files is a definition of the
  same name; a loop body that is a step of its own has a name of its own next to it. The globals
  of a file are a record that is passed and returned (\<open>vland\<close> for the daemon, \<open>cli\<close> for a
  terminal), rows are records with the columns the code reads, a row pointer is the row's address.
  Assignments that narrow an integer are written out (\<open>c_int\<close>, \<open>c_uint16\<close>, \<open>c_size_t\<close>).
  Where a function that changes state may have the result \<open>None\<close>, it uses memory that is not there:
  a row that has left the replica, a null pointer, or (\<open>remove_trunk\<close>) an array entry out of bounds or
  never written. No function needs fuel: all loops run over finite tables, and
  the one loop that may run forever, the daemon's main loop, is a function of the inputs that
  arrive while it runs.

  \<^bold>\<open>The theories.\<close>

  \<^item> \<open>Vland_Prelude\<close>: C integers, loops whose body may fail and their invariant rules, list facts, the
    collections of simplification rules. \<open>C_Strings\<close>: \<^verbatim>\<open>%d\<close>, \<^verbatim>\<open>atoi\<close>, buffers written
    by \<^verbatim>\<open>snprintf\<close>, padding.
  \<^item> \<open>Shash\<close>: the string hash tables, with their contract as the locale \<open>string_dict\<close>; the order of the
    nodes is a parameter on which no property depends. \<open>Vlan_Bitmap\<close>: the bitmap library as a
    record of operations with the laws \<open>bitmap_laws\<close>. \<open>Ovsdb_Schema\<close>: rows, the replica, writes.
    \<open>Column_Types\<close>: the types of the written columns.
  \<^item> \<open>Vland_State\<close>, \<open>Oper_State\<close>, \<open>Port_Cache\<close>, \<open>Vlan_Cache\<close>, \<open>Reconfigure\<close>, \<open>Vland_Run\<close>,
    \<open>Vland_Main\<close>: the daemon's state and functions, in the order of the files. \<open>Vland_Startup\<close>: the process
    around it, from the options to the exit status, with the commands of the control socket.
  \<^item> \<open>Vland_Spec\<close>: what the daemon promises. \<open>spec_columns\<close> says, in terms of the columns of the replica
    alone, what the output columns of a VLAN row must show; \<open>spec_oper\<close> is the same in the terms of the
    program; \<open>cache_ok\<close>, \<open>linked\<close>, \<open>port_synced\<close>, \<open>member_ok\<close> and \<open>state_ok\<close> relate a cache to a replica.
  \<^item> \<open>Refresh\<close>, \<open>Port_Update\<close>, \<open>Port_Sync\<close>, \<open>Vlan_Update\<close>, \<open>Vlan_Sync\<close>: the invariants of the loops of
    the two cache updates. The locale \<open>vlan_refresh\<close> is the contract of the two loop bodies that refresh
    the VLANs of a port (after a deletion, after an update) and is interpreted on both.
  \<^item> \<open>Publication\<close>: the result of every function says whether it wrote, and the output columns mirror
    the cache. \<open>Quiescence\<close>: a replica without changes is a no-op. \<open>Dangling\<close>: the case in which a
    deleted row is read. \<open>Vland_System\<close>: daemon, replica and server as a step relation
    (\<open>vland_reach\<close>), with the invariant of every reachable state. \<open>Returns\<close>: with the deleted-row case
    set aside every loop runs to its end, whatever the replica reports as changed. \<open>Vland_Typing\<close>: the types of the cached
    data, which every operation keeps whatever the environment does.
  \<^item> \<open>Cli_Base\<close>: transactions, the trace of a command, and the locale \<open>config_command\<close>, the contract of
    all commands (transactions are closed, writes are typed). \<open>Cli_Interface\<close>, \<open>Cli_Lag\<close>, \<open>Cli_Vlan\<close>,
    \<open>Cli_Show\<close>: the commands and an interpretation of the contract for each. \<open>Cli_Install\<close>: the table
    of installed commands, and sessions. \<open>Cli_Init\<close>: what the module registers with the shell when it
    is loaded. \<open>Cli_Facts\<close>, \<open>Trunk_Range\<close>, \<open>Vlan_Deletion\<close>, \<open>Lag_Writes\<close>: what the commands commit, and its
    effect on rows.
  \<^item> \<open>Daemon_Properties\<close>, \<open>Process_Properties\<close>, \<open>Cli_Properties\<close>, \<open>Show_Properties\<close>: the properties C1 to
    C40, each that has hypotheses with a concrete instance, mostly from \<open>Daemon_Example\<close> or \<open>Cli_Example\<close>.

  \<^bold>\<open>What the properties show.\<close> The main result is C1: whatever the environment does within its
  contract, the server's output columns show for every VLAN the state that the replica determines, so
  the incremental bookkeeping of the daemon equals a recomputation from scratch (C4). C2
  says exactly when a run does not return: when a replica drops a port and a VLAN it carries at once (C10 follows
  that case). C3 says that the process, started with a good command
  line, serves until it is told to exit and leaves the server with those columns. C9 needs none of the
  environment's contract: as long as the process lives, all that is cached or written is well-typed. C5 to C8 and C11 to C15
  are the contracts of the functions below; C16 says when the process ends before it
  serves. C10, C17, C19 and C22 are the limits: an update that deletes a port and its VLAN together, a
  bridge that changes without its ports, a commit that fails, the truncated dump. C18, below, follows a command from the terminal to the output columns.
  C21 and C23 to C34 cover the configuring commands: transactions are always closed, writes are
  well-typed, and what the commands commit. C35 to C40 cover printing.

  \<^bold>\<open>Hypotheses on code outside the repository.\<close>

  \<^item> \<open>bitmap_laws\<close>: the bitmap functions of Open vSwitch do what their names say below the size; the
    sets of \<open>set_bitmap\<close> are an instance.
  \<^item> \<open>env_step\<close>, through \<open>tracks\<close>: the client library reports every row whose monitored columns changed, VLAN
    rows keep name, id and address together, and no update deletes a port together with one of its
    VLANs (C2 and C10 show that the last one is needed) or moves a port in or out of a bridge without
    touching it (C17 shows that this one is needed). The test by which the default VLAN counts as
    a member of its own (\<^verbatim>\<open>vland_default_vlan_member_port\<close>) changes only in a replica in which a changed or
    deleted port touches the default VLAN. \<open>env_step\<close> adds that commits succeed (C19 shows what happens when
    one does not) and that the row inserted for the default VLAN has an address no cached VLAN has.
  \<^item> \<open>port_write_laws\<close>: a column write to a port row shows in the replica of the writer, and the
    accessors of \<^verbatim>\<open>ops-utils\<close> read the columns back; \<open>other_table_laws\<close>: a write to another table does not
    change the Port table.

  \<^bold>\<open>Not modelled.\<close> The inside of \<^verbatim>\<open>getopt_long\<close>, of the log and daemon options and of the control socket:
  what they return or hand to the program is an input (\<open>host\<close>, \<open>command_line\<close>, \<open>request\<close>), and \<open>vland_main\<close> is
  the child that is left after daemonisation. \<^verbatim>\<open>vland_wait\<close> and the waiting in \<^verbatim>\<open>poll_block\<close> touch no state of
  the program; memory that is only freed (\<^verbatim>\<open>vtysh_vlan_context_exit\<close>) is left out. The
  creation of VLAN interfaces, the lookup of ports, range parsing and the sorting of interface names
  belong to \<^verbatim>\<open>libvtysh\<close> and are fields of \<open>vty_env\<close>, with their effect on the database where they have one; their own
  transactions are not in the trace. \<^verbatim>\<open>atoi\<close> is not cut to 32 bits, as the syntax of the commands admits four digits at
  most; \<^verbatim>\<open>qsort\<close> is insertion sort with the comparator of the code; \<^verbatim>\<open>vty->index\<close> is kept by value where the
  code keeps a pointer to a static buffer. \<^verbatim>\<open>no vlan\<close> takes the VLAN out of its bridge with a loop like that of
  \<open>remove_trunk\<close>, modelled as its result, the filtered list and the old count minus one: the schema deletes a
  VLAN row no bridge refers to, so the row is in the list. The fixed buffers of \<^verbatim>\<open>show vlan\<close> hold VLAN ids of
  at most four digits, which the schema guarantees. The Python plugin \<^verbatim>\<open>src/opsplugins/vlan.py\<close> is part of
  another program.
\<close>

section \<open>From the terminal to the switch\<close>

text \<open>
  C18: The two parts together. When \<open>vlan access\<close> passes its checks on an interface of the bridge, and
  the daemon has processed a replica with the Port table the command left, the VLAN is shown as up
  and enabled with reason \<open>ok\<close>, provided it is administratively up and not used for an L3 port.
\<close>
theorem access_command_brings_vlan_up:
  assumes "cli_do_config_start env" and "txn_done (cli_do_config_finish env)" and "port_write_laws env"
    and "interfaces (c_db s) = [] \<or> check_internal_vlan env (c_db s) (atoi (argv ! 0)) \<noteq> 0"
    and "obtain_port env (c_index s) None (emit (Txn_Start True) s) = (Inr (Some row), s1)"
    and "deref_port (c_db s1) row = Some p" and "p_name p \<noteq> DEFAULT_BRIDGE_NAME"
    and "check_iface_in_bridge env (c_db s1) (c_index s)" and "vlan_exists (c_db s1) (atoi (argv ! 0))"
    and "VALID_VID (atoi (argv ! 0))"
    and "env_ok E" and "ops E = utils env" and "vland_reach E y"
    and "\<And>s'. cli_intf_vlan_access env argv s = Some (CMD_SUCCESS, s') \<Longrightarrow> ports (seen y) = ports (c_db s')"
    and "in_bridge (seen y) (p_name p)" and "v \<in> set (vlans (seen y))" and "v_id v = atoi (argv ! 0)"
    and "v_admin v = Some OVSREC_VLAN_ADMIN_UP" and "\<not> l3_internal v"
  shows "\<exists>s'. cli_intf_vlan_access env argv s = Some (CMD_SUCCESS, s') \<and>
    server y (v_row v) = ([(''enable'', VLAN_HW_CONFIG_MAP_ENABLE_TRUE)], OVSREC_VLAN_OPER_STATE_UP,
      OVSREC_VLAN_OPER_STATE_REASON_OK)"
proof -
  let ?vid = "atoi (argv ! 0)"
  have pos: "0 \<le> ?vid" using assms(10) by (simp add: VALID_VID_def)
  from intf_access_runs [OF assms(1,2,4,5,8,9)] obtain s' where
    s': "cli_intf_vlan_access env argv s = Some (CMD_SUCCESS, s')"
      "c_db s' = fold (apply_cli_write env) (access_batch row ?vid) (c_db s1)" by blast
  from access_batch_effect [OF assms(3,9) pos assms(6)] obtain p' where
    p': "deref_port (c_db s') row = Some p'" "in_access_vlan (utils env) ?vid p'" "p_name p' = p_name p"
    by (auto simp: s'(2))
  from p'(1) have "p' \<in> set (ports (seen y))"
    using assms(14) [OF s'(1)] by (auto simp: deref_port_def dest: find_SomeD)
  moreover have "row_carries (ops E) p' ?vid"
    using p'(2) assms(10) by (simp add: row_carries_def access_row_def in_access_vlan_def assms(12))
  ultimately have "has_member (ops E) (seen y) (v_id v)"
    using assms(7,15) p'(3) unfolding has_member_def assms(17) by (intro bexI [of _ p']) simp_all
  with reach_columns [OF assms(11,13,16,19)] assms(18) s'(1) show ?thesis by (simp add: spec_columns_def)
qed

lemma access_command_brings_vlan_up_witness:
  "\<exists>y s'. vland_reach ex_env y \<and> cli_intf_vlan_access ex_vty [''10''] ex_cli = Some (CMD_SUCCESS, s') \<and>
     server y 10 = ([(''enable'', ''true'')], ''up'', ''ok'')"
proof -
  let ?vs = "[ex_vlan 1 ''DEFAULT_VLAN_1'', ex_vlan 10 ''VLAN10'']"
  let ?p = "(ex_access 101 ''1'' 10)\<lparr>p_interfaces := [300]\<rparr>"
  have "wf_db (ex_db [?p] ?vs 1)" by (simp add: wf_db_def ex_db_def ex_vlan_def VALID_VID_def Let_def)
  then obtain y where y: "vland_reach ex_env y" "seen y = ex_db [?p] ?vs 1"
    using ex_reach_db [of "[?p]" ?vs 1] by (auto simp: ex_vlan_def DEFAULT_VID_def)
  have o: "obtain_port ex_vty (c_index ex_cli) None (emit (Txn_Start True) ex_cli) =
    (Inr (Some 101), emit (Txn_Start True) ex_cli)" using ex_cli_obtain by simp
  have ports: "ports (seen y) = ports (c_db s')"
    if "cli_intf_vlan_access ex_vty [''10''] ex_cli = Some (CMD_SUCCESS, s')" for s'
  proof -
    from intf_access_runs [of ex_vty ex_cli "[''10'']", OF _ _ _ o] obtain t where
      "cli_intf_vlan_access ex_vty [''10''] ex_cli = Some (CMD_SUCCESS, t)"
      "c_db t = fold ex_apply (access_batch 101 10) (c_db ex_cli)"
      by (auto simp: atoi_10 txn_done_def vlan_exists_def ex_vlan_def)
    with that show ?thesis
      by (simp add: y(2) access_batch_def update_port_row_def ex_cli_port_def ex_access_def)
        (simp add: ex_db_def Let_def)
  qed
  have br: "in_bridge (ex_db [?p] ?vs 1) (p_name ex_cli_port)"
    by (simp add: in_bridge_def ex_db_def ex_access_def ex_cli_port_def Let_def)
  have "\<exists>s'. cli_intf_vlan_access ex_vty [''10''] ex_cli = Some (CMD_SUCCESS, s') \<and>
      server y (v_row (ex_vlan 10 ''VLAN10'')) = ([(''enable'', ''true'')], ''up'', ''ok'')"
    by (rule access_command_brings_vlan_up [OF _ _ ex_vty_laws _ o _ _ _ _ _ ex_env_ok _ y(1) ports])
      (use br in \<open>simp_all add: y(2)\<close>, simp_all add: atoi_10 txn_done_def vlan_exists_def ex_vlan_def
        deref_port_def ex_cli_port_def ex_access_def VALID_VID_def ex_env_def ex_db_def l3_internal_def Let_def)
  with y(1) show ?thesis by (auto simp: ex_vlan_def)
qed

end
